theory Spec2Isabelle
  imports Complex_Main "HOL-Library.Word" "HOL-Library.Multiset" "HOL-Library.Signed_Division"
begin

unbundle bit_operations_syntax

section \<open>Group command formation and target assignment (rts/Game/SelectedUnitsAI.cpp)\<close>

text \<open>
  The functions of \<^verbatim>\<open>CSelectedUnitsHandlerAI\<close> are embedded as HOL functions over an
  explicit state. Conventions:
  \<^item> \<^verbatim>\<open>float\<close> values are modelled as \<open>real\<close> numbers (finite values, exact arithmetic;
    rounding, infinities and NaN are outside the model). A float division whose divisor is
    zero has no real value: every division of the source is a checked division that stops
    with the fault \<open>DivByZero site\<close>, where \<open>site\<close> names the divisor.
  \<^item> A dereference of a null \<^verbatim>\<open>CUnit*\<close> stops with \<open>NullUnit\<close>, an out-of-range vector
    index with \<open>OutOfRange\<close>.
  \<^item> The per-unit command AI (\<^verbatim>\<open>CCommandAI\<close>), the quad field, the player and team
    handlers, the ground and the constants of headers that are not part of the sources are
    parameters, collected in the record \<open>env\<close>.
  \<^item> Every call of \<^verbatim>\<open>CCommandAI::GiveCommand\<close> is appended to the log \<open>issued\<close> of the
    state, and updates the command AI of the unit.
\<close>

subsection \<open>Vectors\<close>

text \<open>\<^verbatim>\<open>float3\<close>; the selectors stand for the members \<^verbatim>\<open>x\<close>, \<^verbatim>\<open>y\<close>, \<^verbatim>\<open>z\<close>.\<close>

datatype float3 = Float3 (f3x: real) (f3y: real) (f3z: real)

definition ZeroVector :: float3 where "ZeroVector = Float3 0 0 0"
definition UpVector :: float3 where "UpVector = Float3 0 1 0"
definition XZVector :: float3 where "XZVector = Float3 1 0 1"
definition OnesVector :: float3 where "OnesVector = Float3 1 1 1"

definition f3_add :: "float3 \<Rightarrow> float3 \<Rightarrow> float3" where
  "f3_add a b = Float3 (f3x a + f3x b) (f3y a + f3y b) (f3z a + f3z b)"

definition f3_sub :: "float3 \<Rightarrow> float3 \<Rightarrow> float3" where
  "f3_sub a b = Float3 (f3x a - f3x b) (f3y a - f3y b) (f3z a - f3z b)"

definition f3_mul :: "float3 \<Rightarrow> float3 \<Rightarrow> float3" where
  "f3_mul a b = Float3 (f3x a * f3x b) (f3y a * f3y b) (f3z a * f3z b)"

definition f3_scale :: "float3 \<Rightarrow> real \<Rightarrow> float3" where
  "f3_scale a s = Float3 (f3x a * s) (f3y a * s) (f3z a * s)"

definition f3_min :: "float3 \<Rightarrow> float3 \<Rightarrow> float3" where
  "f3_min a b = Float3 (min (f3x a) (f3x b)) (min (f3y a) (f3y b)) (min (f3z a) (f3z b))"

definition f3_max :: "float3 \<Rightarrow> float3 \<Rightarrow> float3" where
  "f3_max a b = Float3 (max (f3x a) (f3x b)) (max (f3y a) (f3y b)) (max (f3z a) (f3z b))"

definition cross :: "float3 \<Rightarrow> float3 \<Rightarrow> float3" where
  "cross a b = Float3 (f3y a * f3z b - f3z a * f3y b)
                      (f3z a * f3x b - f3x a * f3z b)
                      (f3x a * f3y b - f3y a * f3x b)"

definition distance :: "float3 \<Rightarrow> float3 \<Rightarrow> real" where
  "distance a b = sqrt ((f3x a - f3x b) * (f3x a - f3x b)
                      + (f3y a - f3y b) * (f3y a - f3y b)
                      + (f3z a - f3z b) * (f3z a - f3z b))"

definition SqLength2D :: "float3 \<Rightarrow> real" where
  "SqLength2D a = f3x a * f3x a + f3z a * f3z a"

subsection \<open>Faults and checked division\<close>

datatype div_site =
    GroupSize           \<comment> \<open>\<^verbatim>\<open>playerUnitIDs.size()\<close> in CalculateGroupData\<close>
  | MobileCount         \<comment> \<open>\<^verbatim>\<open>mobileUnits\<close> in CalculateGroupData\<close>
  | SelectionMinusOne   \<comment> \<open>\<^verbatim>\<open>playerUnitIDs.size() - 1\<close> in MakeFormationFrontOrder\<close>
  | BucketSize          \<comment> \<open>\<^verbatim>\<open>1.0f * maxGroupSize\<close> in the mixing loop\<close>
  | Health              \<comment> \<open>\<^verbatim>\<open>ud->health\<close> in CreateUnitOrder\<close>
  | FormationDirY       \<comment> \<open>\<^verbatim>\<open>formationDir.y\<close> in MoveToPos\<close>
  | RealCount           \<comment> \<open>\<^verbatim>\<open>realCount\<close> in SelectAttackNet\<close>

datatype fault = DivByZero div_site | NullUnit | OutOfRange

definition fdiv :: "div_site \<Rightarrow> real \<Rightarrow> real \<Rightarrow> fault + real" where
  "fdiv site a b = (if b = 0 then Inl (DivByZero site) else Inr (a / b))"

definition f3_div :: "div_site \<Rightarrow> float3 \<Rightarrow> real \<Rightarrow> fault + float3" where
  "f3_div site a b =
     (if b = 0 then Inl (DivByZero site)
      else Inr (Float3 (f3x a / b) (f3y a / b) (f3z a / b)))"

subsection \<open>Commands\<close>

text \<open>
  \<^verbatim>\<open>Command\<close>: the members read by this file. \<^verbatim>\<open>GetParam\<close> of an index past the
  parameter count is 0, as in the engine's \<^verbatim>\<open>Command.h\<close>.
\<close>

record Command =
  cmdID :: int
  options :: "8 word"
  params :: "real list"

definition GetParamsCount :: "Command \<Rightarrow> nat" where
  "GetParamsCount c = length (params c)"

definition GetParam :: "Command \<Rightarrow> nat \<Rightarrow> real" where
  "GetParam c i = (if i < length (params c) then params c ! i else 0)"

definition GetPos :: "Command \<Rightarrow> nat \<Rightarrow> float3" where
  "GetPos c i = Float3 (GetParam c i) (GetParam c (i + 1)) (GetParam c (i + 2))"

definition PushPos :: "Command \<Rightarrow> float3 \<Rightarrow> Command" where
  "PushPos c p = c\<lparr>params := params c @ [f3x p, f3y p, f3z p]\<rparr>"

text \<open>The constructors \<^verbatim>\<open>Command(id, options, float)\<close> and \<^verbatim>\<open>Command(id, options, float3)\<close>.\<close>

definition Command1 :: "int \<Rightarrow> 8 word \<Rightarrow> real \<Rightarrow> Command" where
  "Command1 i opts p = \<lparr>cmdID = i, options = opts, params = [p]\<rparr>"

definition CommandPos :: "int \<Rightarrow> 8 word \<Rightarrow> float3 \<Rightarrow> Command" where
  "CommandPos i opts p = \<lparr>cmdID = i, options = opts, params = [f3x p, f3y p, f3z p]\<rparr>"

subsection \<open>Units\<close>

record UnitDef =
  xsize :: int
  zsize :: int
  metal :: real
  energy :: real
  health :: real

text \<open>
  \<^verbatim>\<open>CUnit\<close>: \<open>unit_id\<close> is the member \<^verbatim>\<open>id\<close>, \<open>maxSpeed\<close> is
  \<^verbatim>\<open>moveType->GetMaxSpeed()\<close>, \<open>commandAI\<close> is the state of the unit's command AI.
\<close>

record 'q CUnit =
  unit_id :: int
  midPos :: float3
  maxRange :: real
  unitDef :: UnitDef
  maxSpeed :: real
  allyteam :: int
  losStatus :: "int \<Rightarrow> 16 word"
  commandAI :: 'q

subsection \<open>Collaborators and constants\<close>

text \<open>
  The constants come from headers outside the sources (\<^verbatim>\<open>Command.h\<close>,
  \<^verbatim>\<open>GlobalConstants.h\<close>, \<^verbatim>\<open>Unit.h\<close>) and are parameters. The members starting with
  \<open>cai_\<close> are the methods of \<^verbatim>\<open>CCommandAI\<close> over its abstract state \<open>'q\<close>.
\<close>

record 'q env =
  SQUARE_SIZE :: int
  CMD_STOP :: int
  CMD_WAIT :: int
  CMD_SELFD :: int
  CMD_FIRE_STATE :: int
  CMD_MOVE_STATE :: int
  CMD_ONOFF :: int
  CMD_REPEAT :: int
  CMD_MOVE :: int
  CMD_PATROL :: int
  CMD_FIGHT :: int
  CMD_ATTACK :: int
  CMD_SET_WANTED_MAX_SPEED :: int
  SHIFT_KEY :: "8 word"
  CONTROL_KEY :: "8 word"
  ALT_KEY :: "8 word"
  LOS_INLOS :: "16 word"
  LOS_INRADAR :: "16 word"
  netSelected :: "int \<Rightarrow> int list"
  myPlayerNum :: int
  IsValidPlayer :: "int \<Rightarrow> bool"
  PlayerTeam :: "int \<Rightarrow> int option"
  AllyTeam :: "int \<Rightarrow> int"
  GetUnitsExactCircle :: "float3 \<Rightarrow> real \<Rightarrow> 'q CUnit option list"
  GetUnitsExactRect :: "float3 \<Rightarrow> float3 \<Rightarrow> 'q CUnit option list"
  GetHeightAboveWater :: "real \<Rightarrow> real \<Rightarrow> real"
  ANormalize :: "float3 \<Rightarrow> float3"
  cai_GiveCommand :: "'q \<Rightarrow> Command \<Rightarrow> bool \<Rightarrow> 'q"
  cai_WillCancelQueued :: "'q \<Rightarrow> Command \<Rightarrow> bool"
  cai_CanSetMaxSpeed :: "'q \<Rightarrow> bool"
  cai_commandQue :: "'q \<Rightarrow> Command list"

subsection \<open>State\<close>

text \<open>
  \<open>units\<close> is \<^verbatim>\<open>unitHandler.GetUnit\<close> (\<open>None\<close> is \<^verbatim>\<open>nullptr\<close>); \<open>issued\<close> logs the calls
  of \<^verbatim>\<open>GiveCommand\<close> as (id the unit was looked up by, command, fromSynced);
  \<open>acknowledged\<close> logs \<^verbatim>\<open>waitCommandsAI.AcknowledgeCommand\<close>; \<open>rowLog\<close> records, at every
  flush of a formation row, the values of \<^verbatim>\<open>sortedUnitGroups\<close>, \<^verbatim>\<open>frontMoveCommands\<close> and
  \<^verbatim>\<open>mixedUnitIDs\<close>; the remaining fields are the scalar members of the handler. The
  scratch vectors of the handler are cleared before each use and are local values here.
\<close>

type_synonym TGroupPair = "real \<times> int list"

record 'q state =
  units :: "int \<Rightarrow> 'q CUnit option"
  issued :: "(int \<times> Command \<times> bool) list"
  acknowledged :: "Command list"
  rowLog :: "(TGroupPair list \<times> (int \<times> Command) list \<times> int list) list"
  groupSumLength :: real
  groupMinMaxSpeed :: real
  groupAvgLength :: real
  groupCenterCoor :: float3
  groupFrontLength :: real
  groupAddedSpace :: real
  formationCenterPos :: float3
  formationRightPos :: float3

text \<open>\<^verbatim>\<open>unit->commandAI->GiveCommand(c, fromSynced)\<close> for the unit found under \<open>uid\<close>.\<close>

definition GiveCommand :: "'q env \<Rightarrow> int \<Rightarrow> Command \<Rightarrow> bool \<Rightarrow> 'q state \<Rightarrow> fault + 'q state" where
  "GiveCommand env uid c fromSynced st =
     (case units st uid of
        None \<Rightarrow> Inl NullUnit
      | Some unit \<Rightarrow>
          Inr (st\<lparr>units := (units st)(uid \<mapsto> unit\<lparr>commandAI := cai_GiveCommand env (commandAI unit) c fromSynced\<rparr>),
                  issued := issued st @ [(uid, c, fromSynced)]\<rparr>))"

subsection \<open>CreateUnitOrder\<close>

text \<open>\<^verbatim>\<open>std::stable_sort\<close> with \<^verbatim>\<open>idPairComp\<close> (\<^verbatim>\<open>a.first < b.first\<close>).\<close>

definition stable_sort_idPair :: "(real \<times> int) list \<Rightarrow> (real \<times> int) list" where
  "stable_sort_idPair ps = sort_key fst ps"

fun CreateUnitOrder_loop :: "'q state \<Rightarrow> int list \<Rightarrow> (real \<times> int) list \<Rightarrow> fault + (real \<times> int) list" where
  "CreateUnitOrder_loop st [] out = Inr out"
| "CreateUnitOrder_loop st (unitID # rest) out =
     (case units st unitID of
        None \<Rightarrow> CreateUnitOrder_loop st rest out
      | Some unit \<Rightarrow>
          (let ud = unitDef unit;
               range = (if maxRange unit < 1 then 2000 else maxRange unit)
           in case fdiv Health (metal ud * 60 + energy ud) (health ud) of
                Inl e \<Rightarrow> Inl e
              | Inr q \<Rightarrow> CreateUnitOrder_loop st rest (out @ [(q * range, unitID)])))"

definition CreateUnitOrder :: "'q env \<Rightarrow> 'q state \<Rightarrow> int \<Rightarrow> fault + (real \<times> int) list" where
  "CreateUnitOrder env st player =
     (case CreateUnitOrder_loop st (netSelected env player) [] of
        Inl e \<Rightarrow> Inl e
      | Inr out \<Rightarrow> Inr (stable_sort_idPair out))"

subsection \<open>Speed-match orders\<close>

definition AddUnitSetMaxSpeedCommandNet :: "'q env \<Rightarrow> int \<Rightarrow> 8 word \<Rightarrow> 'q state \<Rightarrow> fault + 'q state" where
  "AddUnitSetMaxSpeedCommandNet env uid opts st =
     (case units st uid of
        None \<Rightarrow> Inl NullUnit
      | Some unit \<Rightarrow>
          if \<not> cai_CanSetMaxSpeed env (commandAI unit) then Inr st
          else GiveCommand env uid (Command1 (CMD_SET_WANTED_MAX_SPEED env) opts (maxSpeed unit)) True st)"

definition AddGroupSetMaxSpeedCommandNet :: "'q env \<Rightarrow> int \<Rightarrow> 8 word \<Rightarrow> 'q state \<Rightarrow> fault + 'q state" where
  "AddGroupSetMaxSpeedCommandNet env uid opts st =
     (case units st uid of
        None \<Rightarrow> Inl NullUnit
      | Some unit \<Rightarrow>
          if \<not> cai_CanSetMaxSpeed env (commandAI unit) then Inr st
          else GiveCommand env uid (Command1 (CMD_SET_WANTED_MAX_SPEED env) opts (groupMinMaxSpeed st)) True st)"

definition MayRequireSetMaxSpeedCommand :: "'q env \<Rightarrow> Command \<Rightarrow> bool" where
  "MayRequireSetMaxSpeedCommand env c =
     (if cmdID c = CMD_STOP env \<or> cmdID c = CMD_WAIT env \<or> cmdID c = CMD_SELFD env
         \<or> cmdID c = CMD_FIRE_STATE env \<or> cmdID c = CMD_MOVE_STATE env
         \<or> cmdID c = CMD_ONOFF env \<or> cmdID c = CMD_REPEAT env
      then False else True)"

subsection \<open>LastQueuePosition\<close>

text \<open>The scan runs over the queue from its back (\<^verbatim>\<open>rbegin\<close> to \<^verbatim>\<open>rend\<close>).\<close>

fun LastQueuePosition_scan :: "Command list \<Rightarrow> float3 option" where
  "LastQueuePosition_scan [] = None"
| "LastQueuePosition_scan (cmd # rest) =
     (if length (params cmd) \<ge> 3 then Some (GetPos cmd 0) else LastQueuePosition_scan rest)"

definition LastQueuePosition :: "'q env \<Rightarrow> 'q CUnit \<Rightarrow> float3" where
  "LastQueuePosition env unit =
     (case LastQueuePosition_scan (rev (cai_commandQue env (commandAI unit))) of
        Some p \<Rightarrow> p
      | None \<Rightarrow> midPos unit)"

subsection \<open>CalculateGroupData\<close>

text \<open>
  The accumulators of the loop, in this order: \<^verbatim>\<open>sumCoor\<close>, \<^verbatim>\<open>minCoor\<close>, \<^verbatim>\<open>maxCoor\<close>,
  \<^verbatim>\<open>mobileSumCoor\<close>, \<^verbatim>\<open>mobileUnits\<close>, \<^verbatim>\<open>groupSumLength\<close>, \<^verbatim>\<open>groupMinMaxSpeed\<close>.
\<close>

type_synonym group_accum = "float3 \<times> float3 \<times> float3 \<times> float3 \<times> int \<times> real \<times> real"

fun CalculateGroupData_loop :: "'q env \<Rightarrow> 'q state \<Rightarrow> bool \<Rightarrow> int list \<Rightarrow> group_accum \<Rightarrow> group_accum" where
  "CalculateGroupData_loop env st queueing [] acc = acc"
| "CalculateGroupData_loop env st queueing (ui # rest) (sumCoor, minCoor, maxCoor, mobileSumCoor, mobileUnits, gSumLength, gMinMaxSpeed) =
     (case units st ui of
        None \<Rightarrow> CalculateGroupData_loop env st queueing rest
                  (sumCoor, minCoor, maxCoor, mobileSumCoor, mobileUnits, gSumLength, gMinMaxSpeed)
      | Some unit \<Rightarrow>
          (let gSumLength' = gSumLength + real_of_int (xsize (unitDef unit) + zsize (unitDef unit)) * 0.5;
               unitPos = (if queueing then LastQueuePosition env unit else midPos unit);
               minCoor' = f3_min minCoor unitPos;
               maxCoor' = f3_max maxCoor unitPos;
               sumCoor' = f3_add sumCoor unitPos
           in if \<not> cai_CanSetMaxSpeed env (commandAI unit)
              then CalculateGroupData_loop env st queueing rest
                     (sumCoor', minCoor', maxCoor', mobileSumCoor, mobileUnits, gSumLength', gMinMaxSpeed)
              else CalculateGroupData_loop env st queueing rest
                     (sumCoor', minCoor', maxCoor', f3_add mobileSumCoor unitPos, mobileUnits + 1,
                      gSumLength', min gMinMaxSpeed (maxSpeed unit))))"

definition CalculateGroupData :: "'q env \<Rightarrow> int \<Rightarrow> bool \<Rightarrow> 'q state \<Rightarrow> fault + 'q state" where
  "CalculateGroupData env player queueing st =
     (let playerUnitIDs = netSelected env player
      in case CalculateGroupData_loop env st queueing playerUnitIDs
                (ZeroVector, f3_scale OnesVector 100000, f3_scale (f3_scale OnesVector (-1)) 100000,
                 ZeroVector, 0, 0, 1000000000) of
           (sumCoor, minCoor, maxCoor, mobileSumCoor, mobileUnits, gSumLength, gMinMaxSpeed) \<Rightarrow>
             (case fdiv GroupSize gSumLength (real (length playerUnitIDs)) of
                Inl e \<Rightarrow> Inl e
              | Inr gAvgLength \<Rightarrow>
                  (case (if mobileUnits > 0
                         then f3_div MobileCount mobileSumCoor (real_of_int mobileUnits)
                         else f3_div GroupSize sumCoor (real (length playerUnitIDs))) of
                     Inl e \<Rightarrow> Inl e
                   | Inr center \<Rightarrow>
                       Inr (st\<lparr>groupSumLength := gSumLength, groupMinMaxSpeed := gMinMaxSpeed,
                               groupAvgLength := gAvgLength, groupCenterCoor := center\<rparr>))))"

subsection \<open>MoveToPos\<close>

text \<open>
  \<open>frontcmds = None\<close> is the null pointer. The result is the returned corner, the
  (possibly extended) \<^verbatim>\<open>*frontcmds\<close> and the value written to \<^verbatim>\<open>*newline\<close>. The four
  quotients of the source are the two values \<^verbatim>\<open>formationDir.x / formationDir.y\<close> and
  \<^verbatim>\<open>formationDir.z / formationDir.y\<close>.
\<close>

definition MoveToPos ::
  "'q env \<Rightarrow> 'q state \<Rightarrow> float3 \<Rightarrow> float3 \<Rightarrow> 'q CUnit option \<Rightarrow> Command \<Rightarrow> (int \<times> Command) list option
     \<Rightarrow> fault + (float3 \<times> (int \<times> Command) list option \<times> bool)" where
  "MoveToPos env st nextCornerPos0 formationDir unit command frontcmds =
     (let newline = (f3x nextCornerPos0 - groupAddedSpace st > groupFrontLength st);
          nextCornerPos =
            (if newline
             then Float3 0 (f3y nextCornerPos0)
                    (f3z nextCornerPos0 - groupAvgLength st * 2 * real_of_int (SQUARE_SIZE env))
             else nextCornerPos0)
      in case frontcmds of
           None \<Rightarrow> Inr (nextCornerPos, None, newline)
         | Some fcs \<Rightarrow>
             (case unit of
                None \<Rightarrow> Inr (nextCornerPos, Some fcs, newline)
              | Some u \<Rightarrow>
                  (let unitSize = (xsize (unitDef u) + zsize (unitDef u)) sdiv 2;
                       retPos0 = Float3 (f3x nextCornerPos + real_of_int (unitSize * SQUARE_SIZE env * 2) + groupAddedSpace st)
                                   0 (f3z nextCornerPos);
                       movePos0 = Float3 (f3x nextCornerPos + real_of_int (unitSize * SQUARE_SIZE env) + groupAddedSpace st)
                                   0 (f3z nextCornerPos);
                       movePos = (if f3x nextCornerPos = 0
                                  then Float3 (real_of_int (unitSize * SQUARE_SIZE env)) (f3y movePos0) (f3z movePos0)
                                  else movePos0);
                       retPos = (if f3x nextCornerPos = 0
                                 then Float3 (f3x retPos0 - groupAddedSpace st) (f3y retPos0) (f3z retPos0)
                                 else retPos0)
                   in case fdiv FormationDirY (f3x formationDir) (f3y formationDir) of
                        Inl e \<Rightarrow> Inl e
                      | Inr rx \<Rightarrow>
                          (case fdiv FormationDirY (f3z formationDir) (f3y formationDir) of
                             Inl e \<Rightarrow> Inl e
                           | Inr rz \<Rightarrow>
                               (let px = f3x (formationRightPos st) + f3x movePos * rx - f3z movePos * rz;
                                    pz = f3z (formationRightPos st) + f3x movePos * rz + f3z movePos * rx;
                                    pos = Float3 px (GetHeightAboveWater env px pz) pz
                                in Inr (retPos,
                                        Some (fcs @ [(unit_id u, CommandPos (cmdID command) (options command) pos)]),
                                        newline))))))"

subsection \<open>Priority buckets of a formation row\<close>

text \<open>
  \<^verbatim>\<open>std::lower_bound\<close> with \<^verbatim>\<open>ugPairComp\<close>: the index of the first bucket whose priority
  is not less than \<open>p\<close>.
\<close>

definition lower_bound_ugPair :: "TGroupPair list \<Rightarrow> real \<Rightarrow> nat" where
  "lower_bound_ugPair groups p = length (takeWhile (\<lambda>g. fst g < p) groups)"

text \<open>The loop that swaps the bucket appended at index \<open>i\<close> towards the front.\<close>

fun swapIntoPosition :: "TGroupPair list \<Rightarrow> nat \<Rightarrow> TGroupPair list" where
  "swapIntoPosition groups 0 = groups"
| "swapIntoPosition groups (Suc i) =
     (if fst (groups ! i) < fst (groups ! Suc i) then groups
      else swapIntoPosition (groups[i := groups ! Suc i, Suc i := groups ! i]) i)"

definition addToUnitGroups :: "TGroupPair list \<Rightarrow> real \<times> int \<Rightarrow> TGroupPair list" where
  "addToUnitGroups groups suPair =
     (let i = lower_bound_ugPair groups (fst suPair)
      in if i = length groups \<or> fst (groups ! i) \<noteq> fst suPair
         then swapIntoPosition (groups @ [(fst suPair, [snd suPair])]) (length groups)
         else groups[i := (fst (groups ! i), snd (groups ! i) @ [snd suPair])])"

subsection \<open>Mixing the units of a row\<close>

text \<open>
  The inner loop over \<^verbatim>\<open>groupNum\<close>; it is run on the indices \<open>[0..<length groups]\<close>, which
  are in range of \<^verbatim>\<open>sortedUnitGroups\<close> and of \<^verbatim>\<open>mixedGroupSizes\<close> (resized to the same
  length).
\<close>

fun bestGroup :: "TGroupPair list \<Rightarrow> nat list \<Rightarrow> nat list \<Rightarrow> nat \<Rightarrow> real \<Rightarrow> fault + (nat \<times> real)" where
  "bestGroup groups mixedGroupSizes [] bestGroupNum bestGroupVal = Inr (bestGroupNum, bestGroupVal)"
| "bestGroup groups mixedGroupSizes (groupNum # rest) bestGroupNum bestGroupVal =
     (let maxGroupSize = length (snd (groups ! groupNum));
          curGroupSize = mixedGroupSizes ! groupNum
      in if curGroupSize \<ge> maxGroupSize
         then bestGroup groups mixedGroupSizes rest bestGroupNum bestGroupVal
         else (case fdiv BucketSize (0.5 + real curGroupSize) (1 * real maxGroupSize) of
                 Inl e \<Rightarrow> Inl e
               | Inr groupVal \<Rightarrow>
                   if groupVal \<ge> bestGroupVal
                   then bestGroup groups mixedGroupSizes rest bestGroupNum bestGroupVal
                   else bestGroup groups mixedGroupSizes rest groupNum groupVal))"

text \<open>The loop over \<^verbatim>\<open>j\<close>; the first argument counts the iterations that remain.\<close>

fun mixLoop :: "nat \<Rightarrow> TGroupPair list \<Rightarrow> nat list \<Rightarrow> int list \<Rightarrow> fault + (int list \<times> nat list)" where
  "mixLoop 0 groups mixedGroupSizes mixedUnitIDs = Inr (mixedUnitIDs, mixedGroupSizes)"
| "mixLoop (Suc n) groups mixedGroupSizes mixedUnitIDs =
     (case bestGroup groups mixedGroupSizes [0..<length groups] 0 1 of
        Inl e \<Rightarrow> Inl e
      | Inr (bestGroupNum, bestGroupVal) \<Rightarrow>
          if bestGroupNum \<ge> length mixedGroupSizes \<or> bestGroupNum \<ge> length groups then Inl OutOfRange
          else (let unitIndex = mixedGroupSizes ! bestGroupNum;
                    groupUnitIDs = snd (groups ! bestGroupNum)
                in if unitIndex \<ge> length groupUnitIDs then Inl OutOfRange
                   else mixLoop n groups (mixedGroupSizes[bestGroupNum := unitIndex + 1])
                          (mixedUnitIDs @ [groupUnitIDs ! unitIndex])))"

definition mixUnits :: "TGroupPair list \<Rightarrow> (int \<times> Command) list \<Rightarrow> fault + (int list \<times> nat list)" where
  "mixUnits groups frontMoveCommands =
     mixLoop (length frontMoveCommands) groups (replicate (length groups) 0) []"

text \<open>The loop giving \<^verbatim>\<open>frontMoveCommands[i].second\<close> to the unit \<^verbatim>\<open>mixedUnitIDs[i]\<close>.\<close>

fun giveRow :: "'q env \<Rightarrow> (int \<times> Command) list \<Rightarrow> int list \<Rightarrow> 'q state \<Rightarrow> fault + 'q state" where
  "giveRow env [] mixedUnitIDs st = Inr st"
| "giveRow env (fc # fcs) [] st = Inl OutOfRange"
| "giveRow env (fc # fcs) (m # ms) st =
     (case GiveCommand env m (snd fc) False st of
        Inl e \<Rightarrow> Inl e
      | Inr st' \<Rightarrow> giveRow env fcs ms st')"

definition flushRow :: "'q env \<Rightarrow> TGroupPair list \<Rightarrow> (int \<times> Command) list \<Rightarrow> 'q state \<Rightarrow> fault + 'q state" where
  "flushRow env groups frontMoveCommands st =
     (case mixUnits groups frontMoveCommands of
        Inl e \<Rightarrow> Inl e
      | Inr (mixedUnitIDs, mixedGroupSizes) \<Rightarrow>
          (case giveRow env frontMoveCommands mixedUnitIDs st of
             Inl e \<Rightarrow> Inl e
           | Inr st' \<Rightarrow> Inr (st'\<lparr>rowLog := rowLog st' @ [(groups, frontMoveCommands, mixedUnitIDs)]\<rparr>)))"

subsection \<open>MakeFormationFrontOrder\<close>

text \<open>
  The loop over \<^verbatim>\<open>sortedUnitPairs\<close> from index \<^verbatim>\<open>k\<close> on: the list argument is the part of
  the vector that remains, \<open>groups\<close> is \<^verbatim>\<open>sortedUnitGroups\<close> and \<open>fcs\<close> is
  \<^verbatim>\<open>frontMoveCommands\<close>. The second call of MoveToPos (null \<^verbatim>\<open>frontcmds\<close>) only computes
  \<^verbatim>\<open>newFormationLine\<close>; it is made for the same unit, \<^verbatim>\<open>suPair\<close> being bound before
  \<^verbatim>\<open>++k\<close>.
\<close>

fun formationLoop ::
  "'q env \<Rightarrow> Command \<Rightarrow> float3 \<Rightarrow> (real \<times> int) list \<Rightarrow> float3 \<Rightarrow> TGroupPair list \<Rightarrow> (int \<times> Command) list
     \<Rightarrow> 'q state \<Rightarrow> fault + 'q state" where
  "formationLoop env c formationSideDir [] nextPos groups fcs st = Inr st"
| "formationLoop env c formationSideDir (suPair # rest) nextPos groups fcs st =
     (let groups' = addToUnitGroups groups suPair
      in case MoveToPos env st nextPos formationSideDir (units st (snd suPair)) c (Some fcs) of
           Inl e \<Rightarrow> Inl e
         | Inr (nextPos', fcsopt, newFormationLine) \<Rightarrow>
             (let fcs' = (case fcsopt of None \<Rightarrow> fcs | Some f \<Rightarrow> f)
              in case (if rest \<noteq> []
                       then (case MoveToPos env st nextPos' formationSideDir (units st (snd suPair)) c None of
                               Inl e \<Rightarrow> Inl e
                             | Inr (unusedPos, unusedCmds, newFormationLine') \<Rightarrow> Inr (\<not> newFormationLine'))
                       else Inr False) of
                   Inl e \<Rightarrow> Inl e
                 | Inr continue \<Rightarrow>
                     if continue then formationLoop env c formationSideDir rest nextPos' groups' fcs' st
                     else (case flushRow env groups' fcs' st of
                             Inl e \<Rightarrow> Inl e
                           | Inr st' \<Rightarrow> formationLoop env c formationSideDir rest nextPos' [] [] st')))"

text \<open>The short-front branch: the order itself, to every unit that resolves.\<close>

fun standardMoveLoop :: "'q env \<Rightarrow> Command \<Rightarrow> int list \<Rightarrow> 'q state \<Rightarrow> fault + 'q state" where
  "standardMoveLoop env c [] st = Inr st"
| "standardMoveLoop env c (ui # rest) st =
     (case units st ui of
        None \<Rightarrow> standardMoveLoop env c rest st
      | Some unit \<Rightarrow>
          (case GiveCommand env ui c False st of
             Inl e \<Rightarrow> Inl e
           | Inr st' \<Rightarrow> standardMoveLoop env c rest st'))"

text \<open>\<^verbatim>\<open>playerUnitIDs.size() - 1\<close> in \<^verbatim>\<open>size_t\<close> (64 bits) arithmetic.\<close>

definition size_minus_one :: "nat \<Rightarrow> nat" where
  "size_minus_one n = (n + (2 ^ 64 - 1)) mod 2 ^ 64"

definition formationSideDir_of :: "float3 \<Rightarrow> float3 \<Rightarrow> real \<Rightarrow> float3" where
  "formationSideDir_of centerPos rightPos frontLength =
     f3_add (f3_mul (f3_sub centerPos rightPos) XZVector) (f3_scale (f3_scale UpVector frontLength) 0.5)"

definition MakeFormationFrontOrder :: "'q env \<Rightarrow> Command \<Rightarrow> int \<Rightarrow> 'q state \<Rightarrow> fault + 'q state" where
  "MakeFormationFrontOrder env c player st0 =
     (let st = st0\<lparr>formationCenterPos := GetPos c 0, formationRightPos := GetPos c 3\<rparr>;
          nextPos = ZeroVector;
          playerUnitIDs = netSelected env player
      in if distance (formationCenterPos st) (formationRightPos st) < real (length playerUnitIDs + 33)
         then standardMoveLoop env c playerUnitIDs st
         else (let st1 = st\<lparr>groupFrontLength := distance (formationCenterPos st) (formationRightPos st) * 2,
                            groupAddedSpace := 0\<rparr>
               in case (if groupFrontLength st1 > groupSumLength st1 * 2 * real_of_int (SQUARE_SIZE env)
                        then (case fdiv SelectionMinusOne
                                     (groupFrontLength st1 - groupSumLength st1 * 2 * real_of_int (SQUARE_SIZE env))
                                     (real (size_minus_one (length playerUnitIDs))) of
                                Inl e \<Rightarrow> Inl e
                              | Inr space \<Rightarrow> Inr (st1\<lparr>groupAddedSpace := space\<rparr>))
                        else Inr st1) of
                    Inl e \<Rightarrow> Inl e
                  | Inr st2 \<Rightarrow>
                      (let formationSideDir =
                             formationSideDir_of (formationCenterPos st2) (formationRightPos st2) (groupFrontLength st2)
                       in case CreateUnitOrder env st2 player of
                            Inl e \<Rightarrow> Inl e
                          | Inr sortedUnitPairs \<Rightarrow>
                              formationLoop env c formationSideDir sortedUnitPairs nextPos [] [] st2)))"

subsection \<open>SelectCircleUnits and SelectRectangleUnits\<close>

fun SelectCircleUnits_loop :: "'q env \<Rightarrow> float3 \<Rightarrow> real \<Rightarrow> int \<Rightarrow> 'q CUnit option list \<Rightarrow> int list \<Rightarrow> int list" where
  "SelectCircleUnits_loop env pos radiusSqr allyTeam [] unitIDs = unitIDs"
| "SelectCircleUnits_loop env pos radiusSqr allyTeam (None # rest) unitIDs =
     SelectCircleUnits_loop env pos radiusSqr allyTeam rest unitIDs"
| "SelectCircleUnits_loop env pos radiusSqr allyTeam (Some unit # rest) unitIDs =
     (if allyteam unit = allyTeam then SelectCircleUnits_loop env pos radiusSqr allyTeam rest unitIDs
      else if losStatus unit allyTeam AND (LOS_INLOS env OR LOS_INRADAR env) = 0
      then SelectCircleUnits_loop env pos radiusSqr allyTeam rest unitIDs
      else (let dx = f3x pos - f3x (midPos unit);
                dz = f3z pos - f3z (midPos unit)
            in if dx * dx + dz * dz > radiusSqr
               then SelectCircleUnits_loop env pos radiusSqr allyTeam rest unitIDs
               else SelectCircleUnits_loop env pos radiusSqr allyTeam rest (unitIDs @ [unit_id unit])))"

definition SelectCircleUnits :: "'q env \<Rightarrow> float3 \<Rightarrow> real \<Rightarrow> int \<Rightarrow> int list" where
  "SelectCircleUnits env pos radius player =
     (if \<not> IsValidPlayer env player then []
      else (case PlayerTeam env player of
              None \<Rightarrow> []
            | Some team \<Rightarrow>
                SelectCircleUnits_loop env pos (radius * radius) (AllyTeam env team)
                  (GetUnitsExactCircle env pos radius) []))"

fun SelectRectangleUnits_loop :: "'q env \<Rightarrow> int \<Rightarrow> 'q CUnit option list \<Rightarrow> int list \<Rightarrow> int list" where
  "SelectRectangleUnits_loop env allyTeam [] unitIDs = unitIDs"
| "SelectRectangleUnits_loop env allyTeam (None # rest) unitIDs =
     SelectRectangleUnits_loop env allyTeam rest unitIDs"
| "SelectRectangleUnits_loop env allyTeam (Some unit # rest) unitIDs =
     (if allyteam unit = allyTeam then SelectRectangleUnits_loop env allyTeam rest unitIDs
      else if losStatus unit allyTeam AND (LOS_INLOS env OR LOS_INRADAR env) = 0
      then SelectRectangleUnits_loop env allyTeam rest unitIDs
      else SelectRectangleUnits_loop env allyTeam rest (unitIDs @ [unit_id unit]))"

definition SelectRectangleUnits :: "'q env \<Rightarrow> float3 \<Rightarrow> float3 \<Rightarrow> int \<Rightarrow> int list" where
  "SelectRectangleUnits env pos0 pos1 player =
     (if \<not> IsValidPlayer env player then []
      else (case PlayerTeam env player of
              None \<Rightarrow> []
            | Some team \<Rightarrow>
                (let mins = Float3 (min (f3x pos0) (f3x pos1)) 0 (min (f3z pos0) (f3z pos1));
                     maxs = Float3 (max (f3x pos0) (f3x pos1)) 0 (max (f3z pos0) (f3z pos1))
                 in SelectRectangleUnits_loop env (AllyTeam env team) (GetUnitsExactRect env mins maxs) [])))"

subsection \<open>SelectAttackNet\<close>

text \<open>\<^verbatim>\<open>attackCmd.params[0] = id\<close>; the command is built with one parameter.\<close>

definition setTarget :: "Command \<Rightarrow> int \<Rightarrow> Command" where
  "setTarget attackCmd targetID = attackCmd\<lparr>params := (params attackCmd)[0 := real_of_int targetID]\<rparr>"

text \<open>The cancel branch: the loop over the targets for one unit, and the loop over the selection.\<close>

fun cancelTargets :: "'q env \<Rightarrow> int \<Rightarrow> Command \<Rightarrow> int list \<Rightarrow> 'q state \<Rightarrow> fault + 'q state" where
  "cancelTargets env uid attackCmd [] st = Inr st"
| "cancelTargets env uid attackCmd (t # ts) st =
     (case units st uid of
        None \<Rightarrow> Inl NullUnit
      | Some unit \<Rightarrow>
          if \<not> cai_WillCancelQueued env (commandAI unit) (setTarget attackCmd t)
          then cancelTargets env uid (setTarget attackCmd t) ts st
          else (case GiveCommand env uid (setTarget attackCmd t) True st of
                  Inl e \<Rightarrow> Inl e
                | Inr st' \<Rightarrow> cancelTargets env uid (setTarget attackCmd t) ts st'))"

fun cancelLoop :: "'q env \<Rightarrow> Command \<Rightarrow> int list \<Rightarrow> int list \<Rightarrow> 'q state \<Rightarrow> fault + 'q state" where
  "cancelLoop env attackCmd targetUnitIDs [] st = Inr st"
| "cancelLoop env attackCmd targetUnitIDs (s # rest) st =
     (case units st s of
        None \<Rightarrow> cancelLoop env attackCmd targetUnitIDs rest st
      | Some unit \<Rightarrow>
          (case cancelTargets env s attackCmd targetUnitIDs st of
             Inl e \<Rightarrow> Inl e
           | Inr st' \<Rightarrow> cancelLoop env attackCmd targetUnitIDs rest st'))"

text \<open>The group center: the sum of the positions and \<^verbatim>\<open>realCount\<close>.\<close>

fun midPosLoop :: "'q env \<Rightarrow> 'q state \<Rightarrow> bool \<Rightarrow> int list \<Rightarrow> float3 \<Rightarrow> nat \<Rightarrow> float3 \<times> nat" where
  "midPosLoop env st queueing [] midPosSum realCount = (midPosSum, realCount)"
| "midPosLoop env st queueing (s # rest) midPosSum realCount =
     (case units st s of
        None \<Rightarrow> midPosLoop env st queueing rest midPosSum realCount
      | Some unit \<Rightarrow>
          midPosLoop env st queueing rest
            (f3_add midPosSum (if queueing then LastQueuePosition env unit else midPos unit))
            (realCount + 1))"

text \<open>Ranking the targets; a target that does not resolve is dereferenced all the same.\<close>

fun targetPairs :: "'q state \<Rightarrow> float3 \<Rightarrow> int list \<Rightarrow> fault + (real \<times> int) list" where
  "targetPairs st mid [] = Inr []"
| "targetPairs st mid (t # ts) =
     (case units st t of
        None \<Rightarrow> Inl NullUnit
      | Some unit \<Rightarrow>
          (case targetPairs st mid ts of
             Inl e \<Rightarrow> Inl e
           | Inr ps \<Rightarrow> Inr ((SqLength2D (f3_sub (midPos unit) mid), t) # ps)))"

definition sortTargets :: "'q state \<Rightarrow> float3 \<Rightarrow> int list \<Rightarrow> fault + (real \<times> int) list" where
  "sortTargets st mid targetUnitIDs =
     (case targetPairs st mid targetUnitIDs of
        Inl e \<Rightarrow> Inl e
      | Inr ps \<Rightarrow> Inr (stable_sort_idPair ps))"

text \<open>
  Giving the attack commands: the loop over the ranked targets for one unit returns the
  state and \<^verbatim>\<open>attackCmd\<close>, whose options are carried on to the next unit.
\<close>

fun attackTargets :: "'q env \<Rightarrow> bool \<Rightarrow> int \<Rightarrow> Command \<Rightarrow> (real \<times> int) list \<Rightarrow> 'q state \<Rightarrow> fault + ('q state \<times> Command)" where
  "attackTargets env queueing uid attackCmd [] st = Inr (st, attackCmd)"
| "attackTargets env queueing uid attackCmd (p # ps) st =
     (case units st uid of
        None \<Rightarrow> Inl NullUnit
      | Some unit \<Rightarrow>
          (let cmd1 = setTarget attackCmd (snd p)
           in if queueing \<and> cai_WillCancelQueued env (commandAI unit) cmd1
              then attackTargets env queueing uid cmd1 ps st
              else (case GiveCommand env uid cmd1 True st of
                      Inl e \<Rightarrow> Inl e
                    | Inr st1 \<Rightarrow>
                        (case AddUnitSetMaxSpeedCommandNet env uid (options cmd1) st1 of
                           Inl e \<Rightarrow> Inl e
                         | Inr st2 \<Rightarrow>
                             attackTargets env queueing uid
                               (cmd1\<lparr>options := options cmd1 OR SHIFT_KEY env\<rparr>) ps st2))))"

fun attackLoop :: "'q env \<Rightarrow> bool \<Rightarrow> Command \<Rightarrow> (real \<times> int) list \<Rightarrow> int list \<Rightarrow> 'q state \<Rightarrow> fault + 'q state" where
  "attackLoop env queueing attackCmd sortedUnitPairs [] st = Inr st"
| "attackLoop env queueing attackCmd0 sortedUnitPairs (s # rest) st =
     (let attackCmd = (if \<not> queueing
                       then attackCmd0\<lparr>options := options attackCmd0 AND NOT (SHIFT_KEY env)\<rparr>
                       else attackCmd0)
      in case units st s of
           None \<Rightarrow> attackLoop env queueing attackCmd sortedUnitPairs rest st
         | Some unit \<Rightarrow>
             (case attackTargets env queueing s attackCmd sortedUnitPairs st of
                Inl e \<Rightarrow> Inl e
              | Inr (st', attackCmd') \<Rightarrow> attackLoop env queueing attackCmd' sortedUnitPairs rest st'))"

definition targetsOf :: "'q env \<Rightarrow> Command \<Rightarrow> int \<Rightarrow> int list" where
  "targetsOf env cmd player =
     (if length (params cmd) = 4
      then SelectCircleUnits env (GetPos cmd 0) (params cmd ! 3) player
      else SelectRectangleUnits env (GetPos cmd 0) (GetPos cmd 3) player)"

definition SelectAttackNet :: "'q env \<Rightarrow> Command \<Rightarrow> int \<Rightarrow> 'q state \<Rightarrow> fault + 'q state" where
  "SelectAttackNet env cmd player st =
     (let targetUnitIDs = targetsOf env cmd player
      in if targetUnitIDs = [] then Inr st
         else (let queueing = (options cmd AND SHIFT_KEY env \<noteq> 0);
                   selected = netSelected env player
               in if length selected = 0 then Inr st
                  else (let attackCmd = Command1 (CMD_ATTACK env) (options cmd) 0
                        in if options cmd AND CONTROL_KEY env \<noteq> 0
                           then cancelLoop env (attackCmd\<lparr>options := options attackCmd OR SHIFT_KEY env\<rparr>)
                                  targetUnitIDs selected st
                           else (case midPosLoop env st queueing selected ZeroVector 0 of
                                   (midPosSum, realCount) \<Rightarrow>
                                     if realCount = 0 then Inr st
                                     else (case f3_div RealCount midPosSum (real realCount) of
                                             Inl e \<Rightarrow> Inl e
                                           | Inr mid \<Rightarrow>
                                               (case sortTargets st mid targetUnitIDs of
                                                  Inl e \<Rightarrow> Inl e
                                                | Inr sortedUnitPairs \<Rightarrow>
                                                    attackLoop env queueing attackCmd sortedUnitPairs selected st))))))"

subsection \<open>GiveCommandNet\<close>

text \<open>The loop attaching the group or the per-unit speed-match order after a formation order.\<close>

fun speedLoop :: "'q env \<Rightarrow> bool \<Rightarrow> 8 word \<Rightarrow> int list \<Rightarrow> 'q state \<Rightarrow> fault + 'q state" where
  "speedLoop env groupSpeed opts [] st = Inr st"
| "speedLoop env groupSpeed opts (unitID # rest) st =
     (case units st unitID of
        None \<Rightarrow> speedLoop env groupSpeed opts rest st
      | Some unit \<Rightarrow>
          (case (if groupSpeed then AddGroupSetMaxSpeedCommandNet env unitID opts st
                 else AddUnitSetMaxSpeedCommandNet env unitID opts st) of
             Inl e \<Rightarrow> Inl e
           | Inr st' \<Rightarrow> speedLoop env groupSpeed opts rest st'))"

text \<open>The loop of the control-key branch: the destination is moved by the unit's offset from the group center.\<close>

fun lockedLoop :: "'q env \<Rightarrow> Command \<Rightarrow> bool \<Rightarrow> bool \<Rightarrow> int list \<Rightarrow> 'q state \<Rightarrow> fault + 'q state" where
  "lockedLoop env c groupSpeed queueing [] st = Inr st"
| "lockedLoop env c groupSpeed queueing (unitID # rest) st =
     (case units st unitID of
        None \<Rightarrow> lockedLoop env c groupSpeed queueing rest st
      | Some unit \<Rightarrow>
          (let mid = (if queueing then LastQueuePosition env unit else midPos unit);
               difPos = f3_sub mid (groupCenterCoor st)
           in if length (params c) < 3 then Inl OutOfRange
              else (let uc = c\<lparr>params := (params c)[0 := params c ! 0 + f3x difPos,
                                                      1 := params c ! 1 + f3y difPos,
                                                      2 := params c ! 2 + f3z difPos]\<rparr>
                    in case GiveCommand env unitID uc True st of
                         Inl e \<Rightarrow> Inl e
                       | Inr st1 \<Rightarrow>
                           (case (if groupSpeed then AddGroupSetMaxSpeedCommandNet env unitID (options c) st1
                                  else AddUnitSetMaxSpeedCommandNet env unitID (options c) st1) of
                              Inl e \<Rightarrow> Inl e
                            | Inr st2 \<Rightarrow> lockedLoop env c groupSpeed queueing rest st2))))"

text \<open>The loop of the last branch: the order itself and, for most kinds, the speed-match order.\<close>

fun broadcastLoop :: "'q env \<Rightarrow> Command \<Rightarrow> int list \<Rightarrow> 'q state \<Rightarrow> fault + 'q state" where
  "broadcastLoop env c [] st = Inr st"
| "broadcastLoop env c (unitID # rest) st =
     (case units st unitID of
        None \<Rightarrow> broadcastLoop env c rest st
      | Some unit \<Rightarrow>
          (case GiveCommand env unitID c True st of
             Inl e \<Rightarrow> Inl e
           | Inr st1 \<Rightarrow>
               if \<not> MayRequireSetMaxSpeedCommand env c then broadcastLoop env c rest st1
               else (case AddUnitSetMaxSpeedCommandNet env unitID (options c) st1 of
                       Inl e \<Rightarrow> Inl e
                     | Inr st2 \<Rightarrow> broadcastLoop env c rest st2)))"

definition AcknowledgeCommand :: "Command \<Rightarrow> 'q state \<Rightarrow> 'q state" where
  "AcknowledgeCommand c st = st\<lparr>acknowledged := acknowledged st @ [c]\<rparr>"

definition isAreaAttack :: "'q env \<Rightarrow> Command \<Rightarrow> bool" where
  "isAreaAttack env c =
     (cmdID c = CMD_ATTACK env \<and>
      (GetParamsCount c = 6 \<or> (GetParamsCount c = 4 \<and> GetParam c 3 > 0.001)))"

text \<open>
  The dispatcher. The source takes the command by reference and, in the branch of a move
  with the alt key, appends the second point of the front to it; the caller's command is no
  part of the state here, so the extended command is the local \<^verbatim>\<open>c'\<close> of that branch.
\<close>

definition GiveCommandNet :: "'q env \<Rightarrow> Command \<Rightarrow> int \<Rightarrow> 'q state \<Rightarrow> fault + 'q state" where
  "GiveCommandNet env c player st =
     (let selected = netSelected env player;
          nbrOfSelectedUnits = int (length selected)
      in if nbrOfSelectedUnits < 1 then Inr st
         else if isAreaAttack env c then SelectAttackNet env c player st
         else if nbrOfSelectedUnits = 1 then
           (case units st (hd selected) of
              None \<Rightarrow> Inr st
            | Some unit \<Rightarrow>
                (case GiveCommand env (hd selected) c True st of
                   Inl e \<Rightarrow> Inl e
                 | Inr st1 \<Rightarrow>
                     (case (if MayRequireSetMaxSpeedCommand env c
                            then AddUnitSetMaxSpeedCommandNet env (hd selected) (options c) st1
                            else Inr st1) of
                        Inl e \<Rightarrow> Inl e
                      | Inr st2 \<Rightarrow>
                          if cmdID c = CMD_WAIT env \<and> player = myPlayerNum env
                          then Inr (AcknowledgeCommand c st2) else Inr st2)))
         else if (cmdID c = CMD_MOVE env \<or> cmdID c = CMD_FIGHT env) \<and> GetParamsCount c = 6 then
           (case CalculateGroupData env player (options c AND SHIFT_KEY env \<noteq> 0) st of
              Inl e \<Rightarrow> Inl e
            | Inr st1 \<Rightarrow>
                (case MakeFormationFrontOrder env c player st1 of
                   Inl e \<Rightarrow> Inl e
                 | Inr st2 \<Rightarrow> speedLoop env (options c AND CONTROL_KEY env \<noteq> 0) (options c) selected st2))
         else if cmdID c = CMD_MOVE env \<and> options c AND ALT_KEY env \<noteq> 0 then
           (case CalculateGroupData env player (options c AND SHIFT_KEY env \<noteq> 0) st of
              Inl e \<Rightarrow> Inl e
            | Inr st1 \<Rightarrow>
                (let pos = Float3 (GetParam c 0) (GetParam c 1) (GetParam c 2);
                     frontDir = ANormalize env (f3_mul (f3_sub pos (groupCenterCoor st1)) XZVector);
                     sideDir = cross frontDir UpVector;
                     len = 100 + sqrt (real_of_int nbrOfSelectedUnits) * 32;
                     c' = PushPos c (f3_add pos (f3_scale sideDir len))
                 in case MakeFormationFrontOrder env c' player st1 of
                      Inl e \<Rightarrow> Inl e
                    | Inr st2 \<Rightarrow> speedLoop env (options c' AND CONTROL_KEY env \<noteq> 0) (options c') selected st2))
         else if options c AND CONTROL_KEY env \<noteq> 0
                 \<and> (cmdID c = CMD_MOVE env \<or> cmdID c = CMD_PATROL env \<or> cmdID c = CMD_FIGHT env) then
           (case CalculateGroupData env player (options c AND SHIFT_KEY env \<noteq> 0) st of
              Inl e \<Rightarrow> Inl e
            | Inr st1 \<Rightarrow>
                lockedLoop env c (\<not> (options c AND ALT_KEY env \<noteq> 0)) (options c AND SHIFT_KEY env \<noteq> 0) selected st1)
         else
           (case broadcastLoop env c selected st of
              Inl e \<Rightarrow> Inl e
            | Inr st1 \<Rightarrow>
                if cmdID c \<noteq> CMD_WAIT env then Inr st1
                else if player \<noteq> myPlayerNum env then Inr st1
                else Inr (AcknowledgeCommand c st1)))"

section \<open>Specification-level definitions\<close>

subsection \<open>Formation priority\<close>

text \<open>
  The priority as the specification words it: cost over health, times the effective range,
  where a unit with a weapon range below 1 counts with the constant 2000.
\<close>

definition effectiveRange :: "'q CUnit \<Rightarrow> real" where
  "effectiveRange u = (if maxRange u < 1 then 2000 else maxRange u)"

definition priority_spec :: "'q CUnit \<Rightarrow> real" where
  "priority_spec u =
     ((metal (unitDef u) * 60 + energy (unitDef u)) / health (unitDef u)) * effectiveRange u"

text \<open>The ranking before sorting: one pair for every id that resolves, in selection order.\<close>

definition ranked_spec :: "'q state \<Rightarrow> int list \<Rightarrow> (real \<times> int) list" where
  "ranked_spec st ids =
     concat (map (\<lambda>uid. case units st uid of None \<Rightarrow> [] | Some u \<Rightarrow> [(priority_spec u, uid)]) ids)"

subsection \<open>Target ranking\<close>

text \<open>The squared planar distance of the unit found under \<open>t\<close> from the point \<open>mid\<close>.\<close>

definition sqDist2D :: "'q state \<Rightarrow> float3 \<Rightarrow> int \<Rightarrow> real" where
  "sqDist2D st mid t =
     (case units st t of
        None \<Rightarrow> 0
      | Some u \<Rightarrow> (f3x (midPos u) - f3x mid) * (f3x (midPos u) - f3x mid)
                + (f3z (midPos u) - f3z mid) * (f3z (midPos u) - f3z mid))"

subsection \<open>Traces of given commands\<close>

type_synonym event = "int \<times> Command \<times> bool"

text \<open>The units after the commands of a trace have been given, in order.\<close>

fun replay :: "'q env \<Rightarrow> (int \<Rightarrow> 'q CUnit option) \<Rightarrow> event list \<Rightarrow> (int \<Rightarrow> 'q CUnit option)" where
  "replay env us [] = us"
| "replay env us ((uid, c, b) # evs) =
     replay env (case us uid of
                   None \<Rightarrow> us
                 | Some u \<Rightarrow> us(uid \<mapsto> u\<lparr>commandAI := cai_GiveCommand env (commandAI u) c b\<rparr>)) evs"

text \<open>\<open>gave env st evs st'\<close>: \<open>st'\<close> is \<open>st\<close> after exactly the calls \<open>evs\<close> of GiveCommand.\<close>

definition gave :: "'q env \<Rightarrow> 'q state \<Rightarrow> event list \<Rightarrow> 'q state \<Rightarrow> bool" where
  "gave env st evs st' = (st' = st\<lparr>units := replay env (units st) evs, issued := issued st @ evs\<rparr>)"

definition issued_of :: "fault + 'q state \<Rightarrow> event list" where
  "issued_of r = (case r of Inl e \<Rightarrow> [] | Inr st \<Rightarrow> issued st)"

text \<open>
  Every command of the trace cancels a queued command of its unit at the moment it is
  given (\<^verbatim>\<open>WillCancelQueued\<close> holds in the state reached by the commands before it).
\<close>

fun cancelsOnly :: "'q env \<Rightarrow> (int \<Rightarrow> 'q CUnit option) \<Rightarrow> event list \<Rightarrow> bool" where
  "cancelsOnly env us [] = True"
| "cancelsOnly env us ((uid, c, b) # evs) =
     ((case us uid of None \<Rightarrow> False | Some u \<Rightarrow> cai_WillCancelQueued env (commandAI u) c)
      \<and> cancelsOnly env (replay env us [(uid, c, b)]) evs)"

subsection \<open>Speed-match orders and blocks of orders\<close>

text \<open>
  Whether a command AI can set a maximum speed does not change when it is given a command
  (in the engine the answer is fixed by the class of the command AI).
\<close>

definition fixedCapability :: "'q env \<Rightarrow> bool" where
  "fixedCapability env =
     (\<forall>q c b. cai_CanSetMaxSpeed env (cai_GiveCommand env q c b) = cai_CanSetMaxSpeed env q)"

text \<open>Of each unit: its current maximum speed and whether its command AI can set a maximum speed.\<close>

definition speedView :: "'q env \<Rightarrow> (int \<Rightarrow> 'q CUnit option) \<Rightarrow> int \<Rightarrow> (real \<times> bool) option" where
  "speedView env us k = map_option (\<lambda>u. (maxSpeed u, cai_CanSetMaxSpeed env (commandAI u))) (us k)"

definition speedEvents :: "'q env \<Rightarrow> (int \<Rightarrow> (real \<times> bool) option) \<Rightarrow> int \<Rightarrow> 8 word \<Rightarrow> event list" where
  "speedEvents env v uid opts =
     (case v uid of
        None \<Rightarrow> []
      | Some (ms, can) \<Rightarrow>
          if can then [(uid, Command1 (CMD_SET_WANTED_MAX_SPEED env) opts ms, True)] else [])"

text \<open>
  What one id of the selection receives in the broadcast: nothing when it does not resolve;
  else the order, followed by the speed-match order when the kind is not excluded and the
  command AI of the unit can set a maximum speed.
\<close>

definition broadcastBlock :: "'q env \<Rightarrow> (int \<Rightarrow> (real \<times> bool) option) \<Rightarrow> Command \<Rightarrow> int \<Rightarrow> event list" where
  "broadcastBlock env v c uid =
     (case v uid of
        None \<Rightarrow> []
      | Some (ms, can) \<Rightarrow>
          (uid, c, True) # (if MayRequireSetMaxSpeedCommand env c then speedEvents env v uid (options c) else []))"

text \<open>
  The block as the specification states it: the speed-match order follows the order for
  every unit that resolves, unless the kind is excluded.
\<close>

definition broadcastBlock_claimed :: "'q env \<Rightarrow> (int \<Rightarrow> 'q CUnit option) \<Rightarrow> Command \<Rightarrow> int \<Rightarrow> event list" where
  "broadcastBlock_claimed env us c uid =
     (case us uid of
        None \<Rightarrow> []
      | Some u \<Rightarrow>
          (uid, c, True) # (if MayRequireSetMaxSpeedCommand env c
                            then [(uid, Command1 (CMD_SET_WANTED_MAX_SPEED env) (options c) (maxSpeed u), True)]
                            else []))"

subsection \<open>Attack sequences\<close>

definition attackOn :: "'q env \<Rightarrow> 8 word \<Rightarrow> int \<Rightarrow> Command" where
  "attackOn env opts t = \<lparr>cmdID = CMD_ATTACK env, options = opts, params = [real_of_int t]\<rparr>"

text \<open>One attack command, followed by the speed-match order when the unit can set its speed.\<close>

definition attackStep :: "'q env \<Rightarrow> int \<Rightarrow> real \<times> bool \<Rightarrow> 8 word \<Rightarrow> int \<Rightarrow> event list" where
  "attackStep env uid mc opts t =
     (uid, attackOn env opts t, True)
       # (if snd mc then [(uid, Command1 (CMD_SET_WANTED_MAX_SPEED env) opts (fst mc), True)] else [])"

text \<open>
  What one id of the selection receives in an area attack: the first target with the
  options \<open>opts\<close>, every further target with the queueing bit added.
\<close>

definition attackBlock ::
  "'q env \<Rightarrow> (int \<Rightarrow> (real \<times> bool) option) \<Rightarrow> 8 word \<Rightarrow> int list \<Rightarrow> int \<Rightarrow> event list" where
  "attackBlock env v opts targets uid =
     (case v uid of
        None \<Rightarrow> []
      | Some mc \<Rightarrow>
          (case targets of
             [] \<Rightarrow> []
           | t # ts \<Rightarrow> attackStep env uid mc opts t
                        @ concat (map (attackStep env uid mc (opts OR SHIFT_KEY env)) ts)))"

text \<open>The positions of the selected units that resolve, and their mean.\<close>

definition unitPositions :: "'q env \<Rightarrow> 'q state \<Rightarrow> bool \<Rightarrow> int list \<Rightarrow> float3 list" where
  "unitPositions env st queueing sel =
     concat (map (\<lambda>s. case units st s of
                         None \<Rightarrow> []
                       | Some u \<Rightarrow> [if queueing then LastQueuePosition env u else midPos u]) sel)"

definition meanPos :: "float3 list \<Rightarrow> float3" where
  "meanPos ps = Float3 (sum_list (map f3x ps) / real (length ps))
                       (sum_list (map f3y ps) / real (length ps))
                       (sum_list (map f3z ps) / real (length ps))"

definition rankedTargets :: "'q state \<Rightarrow> float3 \<Rightarrow> int list \<Rightarrow> int list" where
  "rankedTargets st mid targets = map snd (sort_key fst (map (\<lambda>t. (sqDist2D st mid t, t)) targets))"

text \<open>
  The queueing of the attack commands as the specification states it: over the whole
  trace, the first attack command has the queueing bit clear and every later one has it set.
\<close>

definition firstOnlyUnqueued :: "'q env \<Rightarrow> event list \<Rightarrow> bool" where
  "firstOnlyUnqueued env evs =
     (case filter (\<lambda>e. cmdID (fst (snd e)) = CMD_ATTACK env) evs of
        [] \<Rightarrow> True
      | e # es \<Rightarrow> options (fst (snd e)) AND SHIFT_KEY env = 0
                  \<and> list_all (\<lambda>e'. options (fst (snd e')) AND SHIFT_KEY env \<noteq> 0) es)"

text \<open>Every attack command of the trace is directly followed by a speed-match order to the same unit.\<close>

fun attacksFollowedBySpeedMatch :: "'q env \<Rightarrow> event list \<Rightarrow> bool" where
  "attacksFollowedBySpeedMatch env [] = True"
| "attacksFollowedBySpeedMatch env (e # es) =
     ((if cmdID (fst (snd e)) = CMD_ATTACK env
       then (case es of
               [] \<Rightarrow> False
             | e' # es' \<Rightarrow> fst e' = fst e \<and> cmdID (fst (snd e')) = CMD_SET_WANTED_MAX_SPEED env)
       else True)
      \<and> attacksFollowedBySpeedMatch env es)"

subsection \<open>Formation rows\<close>

text \<open>The units of the priority buckets of a row, bucket after bucket, and the bucket sizes.\<close>

definition bucketUnits :: "TGroupPair list \<Rightarrow> int list" where
  "bucketUnits groups = concat (map snd groups)"

definition bucketSizes :: "TGroupPair list \<Rightarrow> nat list" where
  "bucketSizes groups = map (\<lambda>g. length (snd g)) groups"

text \<open>The units already taken from the buckets when the fill counters are \<open>sizes\<close>.\<close>

definition taken :: "TGroupPair list \<Rightarrow> nat list \<Rightarrow> int list" where
  "taken groups sizes = concat (map (\<lambda>(g, s). take s (snd g)) (zip groups sizes))"

text \<open>
  A flushed row as \<open>rowLog\<close> records it: the buckets, the destination commands and the
  mixed unit ids. Its commands go, slot by slot, to the mixed units.
\<close>

type_synonym row = "TGroupPair list \<times> (int \<times> Command) list \<times> int list"

definition rowEvents :: "row \<Rightarrow> event list" where
  "rowEvents r = (case r of (groups, fcs, mixed) \<Rightarrow> map (\<lambda>(m, fc). (m, snd fc, False)) (zip mixed fcs))"

text \<open>
  The mixing of a row is sound: the mixed ids are a permutation of the units of the
  buckets, one per destination command, and the mixing loop ends with every fill counter
  equal to the size of its bucket.
\<close>

definition rowMixed :: "row \<Rightarrow> bool" where
  "rowMixed r = (case r of (groups, fcs, mixed) \<Rightarrow>
       mset mixed = mset (bucketUnits groups) \<and> length mixed = length fcs
       \<and> mixUnits groups fcs = Inr (mixed, bucketSizes groups))"

text \<open>\<open>formed env st rows st'\<close>: \<open>st'\<close> is \<open>st\<close> after exactly the rows \<open>rows\<close> have been flushed.\<close>

definition formed :: "'q env \<Rightarrow> 'q state \<Rightarrow> row list \<Rightarrow> 'q state \<Rightarrow> bool" where
  "formed env st rows st' =
     (st' = st\<lparr>units := replay env (units st) (concat (map rowEvents rows)),
               issued := issued st @ concat (map rowEvents rows),
               rowLog := rowLog st @ rows\<rparr>)"

subsection \<open>An example world\<close>

text \<open>
  A command AI whose state is a capability flag and the list of the commands given to it;
  a command cancels a queued one when the same command is in the list. The constants have
  the values of the engine's headers.
\<close>

type_synonym example_cai = "bool \<times> Command list"

definition example_env :: "int list \<Rightarrow> example_cai CUnit option list \<Rightarrow> example_cai env" where
  "example_env selection found =
     \<lparr>SQUARE_SIZE = 8, CMD_STOP = 0, CMD_WAIT = 5, CMD_SELFD = 65, CMD_FIRE_STATE = 45,
      CMD_MOVE_STATE = 50, CMD_ONOFF = 85, CMD_REPEAT = 115, CMD_MOVE = 10, CMD_PATROL = 15,
      CMD_FIGHT = 16, CMD_ATTACK = 20, CMD_SET_WANTED_MAX_SPEED = 70,
      SHIFT_KEY = 32, CONTROL_KEY = 64, ALT_KEY = 128, LOS_INLOS = 1, LOS_INRADAR = 2,
      netSelected = (\<lambda>player. selection), myPlayerNum = 0,
      IsValidPlayer = (\<lambda>player. True), PlayerTeam = (\<lambda>player. Some 0), AllyTeam = (\<lambda>team. 0),
      GetUnitsExactCircle = (\<lambda>pos radius. found), GetUnitsExactRect = (\<lambda>mins maxs. found),
      GetHeightAboveWater = (\<lambda>px pz. 0), ANormalize = (\<lambda>v. v),
      cai_GiveCommand = (\<lambda>q c fromSynced. (fst q, snd q @ [c])),
      cai_WillCancelQueued = (\<lambda>q c. c \<in> set (snd q)),
      cai_CanSetMaxSpeed = fst, cai_commandQue = snd\<rparr>"

definition example_unit :: "int \<Rightarrow> float3 \<Rightarrow> real \<Rightarrow> bool \<Rightarrow> int \<Rightarrow> Command list \<Rightarrow> example_cai CUnit" where
  "example_unit i pos weaponRange mobile ally queue =
     \<lparr>unit_id = i, midPos = pos, maxRange = weaponRange,
      unitDef = \<lparr>xsize = 2, zsize = 2, metal = 100, energy = 1000, health = 500\<rparr>,
      maxSpeed = 3, allyteam = ally, losStatus = (\<lambda>a. 3), commandAI = (mobile, queue)\<rparr>"

text \<open>
  Units 1 and 3 are mobile, unit 2 is a building without weapons; 10, 11 and 12 are enemy
  units at the squared planar distances 9, 1 and 4 from the origin. No other id resolves.
\<close>

definition example_units :: "int \<Rightarrow> example_cai CUnit option" where
  "example_units k =
     (if k = 1 then Some (example_unit 1 (Float3 0 0 0) 300 True 0 [])
      else if k = 2 then Some (example_unit 2 (Float3 10 0 0) 0 False 0 [])
      else if k = 3 then Some (example_unit 3 (Float3 (-10) 0 0) 300 True 0 [])
      else if k = 10 then Some (example_unit 10 (Float3 3 5 0) 300 True 1 [])
      else if k = 11 then Some (example_unit 11 (Float3 0 7 1) 300 True 1 [])
      else if k = 12 then Some (example_unit 12 (Float3 (-2) 0 0) 300 True 1 [])
      else None)"

definition example_state :: "(int \<Rightarrow> example_cai CUnit option) \<Rightarrow> example_cai state" where
  "example_state us =
     \<lparr>units = us, issued = [], acknowledged = [], rowLog = [],
      groupSumLength = 0, groupMinMaxSpeed = 0, groupAvgLength = 0, groupCenterCoor = ZeroVector,
      groupFrontLength = 0, groupAddedSpace = 0,
      formationCenterPos = ZeroVector, formationRightPos = ZeroVector\<rparr>"

text \<open>
  What the quad field returns in the examples: the three enemy units, a null entry and a
  unit of the player's own alliance.
\<close>

definition example_found :: "example_cai CUnit option list" where
  "example_found = [example_units 10, None, example_units 1, example_units 11, example_units 12]"

text \<open>An area attack on a circle of radius 100 around the origin, without modifier keys.\<close>

definition example_attack :: Command where
  "example_attack = \<lparr>cmdID = 20, options = 0, params = [0, 0, 0, 100]\<rparr>"

text \<open>The same area attack with the control key.\<close>

definition example_cancel :: Command where
  "example_cancel = \<lparr>cmdID = 20, options = 64, params = [0, 0, 0, 100]\<rparr>"

text \<open>A move order to one point, without modifier keys.\<close>

definition example_move :: Command where
  "example_move = \<lparr>cmdID = 10, options = 0, params = [5, 0, 5]\<rparr>"

text \<open>The units of the example, unit 1 having a queued attack on unit 10.\<close>

definition example_units_queued :: "int \<Rightarrow> example_cai CUnit option" where
  "example_units_queued k =
     (if k = 1
      then Some (example_unit 1 (Float3 0 0 0) 300 True 0 [\<lparr>cmdID = 20, options = 96, params = [10]\<rparr>])
      else example_units k)"

text \<open>A move order with a front drawn from the origin to the point 100 to its right.\<close>

definition example_front :: Command where
  "example_front = \<lparr>cmdID = 10, options = 0, params = [0, 0, 0, 100, 0, 0]\<rparr>"

section \<open>Properties\<close>

subsection \<open>Giving a command\<close>

lemma GiveCommand_issued:
  "GiveCommand env uid c b st = Inr st' \<Longrightarrow>
     issued st' = issued st @ [(uid, c, b)] \<and> rowLog st' = rowLog st
     \<and> acknowledged st' = acknowledged st
     \<and> (\<forall>k. (units st' k = None) = (units st k = None))"
  by (auto simp: GiveCommand_def split: option.splits if_splits)

subsection \<open>CreateUnitOrder\<close>

lemma CreateUnitOrder_loop_ranked:
  assumes "\<forall>uid\<in>set ids. \<forall>u. units st uid = Some u \<longrightarrow> health (unitDef u) \<noteq> 0"
  shows "CreateUnitOrder_loop st ids out = Inr (out @ ranked_spec st ids)"
  using assms
proof (induction ids arbitrary: out)
  case Nil
  then show ?case by (simp add: ranked_spec_def)
next
  case (Cons uid ids)
  then have IH: "\<And>out. CreateUnitOrder_loop st ids out = Inr (out @ ranked_spec st ids)"
    by simp
  show ?case
  proof (cases "units st uid")
    case None
    then show ?thesis using IH by (simp add: ranked_spec_def)
  next
    case (Some u)
    with Cons.prems have "health (unitDef u) \<noteq> 0" by simp
    then show ?thesis using Some IH
      by (simp add: ranked_spec_def fdiv_def Let_def priority_spec_def effectiveRange_def)
  qed
qed

text \<open>
  C2. When no unit of the selection has health 0, CreateUnitOrder returns the pairs
  (priority, id) of the units that resolve, with the priority
  ((metal * 60 + energy) / health) * effective range, sorted ascending by priority; pairs
  of equal priority keep the order they have in the selection.
\<close>

theorem CreateUnitOrder_priority_stable:
  assumes "\<forall>uid\<in>set (netSelected env player). \<forall>u. units st uid = Some u \<longrightarrow> health (unitDef u) \<noteq> 0"
  shows "\<exists>out. CreateUnitOrder env st player = Inr out
           \<and> mset out = mset (ranked_spec st (netSelected env player))
           \<and> sorted (map fst out)
           \<and> (\<forall>k. filter (\<lambda>p. fst p = k) out
                   = filter (\<lambda>p. fst p = k) (ranked_spec st (netSelected env player)))"
  using CreateUnitOrder_loop_ranked [OF assms, of "[]"]
  by (simp add: CreateUnitOrder_def stable_sort_idPair_def sort_key_stable)

theorem CreateUnitOrder_priority_stable_witness:
  "list_all (\<lambda>uid. case units (example_state example_units) uid of
                        None \<Rightarrow> True | Some u \<Rightarrow> health (unitDef u) \<noteq> 0)
            (netSelected (example_env [2, 1, 4, 3] []) 0)
   \<and> ranked_spec (example_state example_units) [2, 1, 4, 3] = [(28000, 2), (4200, 1), (4200, 3)]
   \<and> (\<exists>out. CreateUnitOrder (example_env [2, 1, 4, 3] []) (example_state example_units) 0 = Inr out
           \<and> mset out = mset (ranked_spec (example_state example_units) [2, 1, 4, 3])
           \<and> sorted (map fst out)
           \<and> (\<forall>k. filter (\<lambda>p. fst p = k) out
                   = filter (\<lambda>p. fst p = k) (ranked_spec (example_state example_units) [2, 1, 4, 3])))"
proof -
  have h: "\<forall>uid\<in>set (netSelected (example_env [2, 1, 4, 3] []) 0).
      \<forall>u. units (example_state example_units) uid = Some u \<longrightarrow> health (unitDef u) \<noteq> 0"
    by (auto simp: example_env_def example_state_def example_units_def example_unit_def)
  have r: "ranked_spec (example_state example_units) [2, 1, 4, 3] = [(28000, 2), (4200, 1), (4200, 3)]"
    by (simp add: ranked_spec_def example_state_def example_units_def example_unit_def
        priority_spec_def effectiveRange_def)
  have n: "netSelected (example_env [2, 1, 4, 3] []) 0 = [2, 1, 4, 3]"
    by (simp add: example_env_def)
  have l: "list_all (\<lambda>uid. case units (example_state example_units) uid of
                        None \<Rightarrow> True | Some u \<Rightarrow> health (unitDef u) \<noteq> 0)
            (netSelected (example_env [2, 1, 4, 3] []) 0)"
    by (simp add: example_env_def example_state_def example_units_def example_unit_def)
  show ?thesis
    using l r CreateUnitOrder_priority_stable [OF h] unfolding n by blast
qed

subsection \<open>The short-front fallback\<close>

lemma standardMoveLoop_issued:
  "\<exists>st'. standardMoveLoop env c ids st = Inr st'
     \<and> issued st' = issued st @ map (\<lambda>uid. (uid, c, False)) (filter (\<lambda>uid. units st uid \<noteq> None) ids)
     \<and> rowLog st' = rowLog st
     \<and> (\<forall>k. (units st' k = None) = (units st k = None))"
proof (induction ids arbitrary: st)
  case Nil
  then show ?case by simp
next
  case (Cons uid ids)
  show ?case
  proof (cases "units st uid")
    case None
    then show ?thesis using Cons.IH [of st] by simp
  next
    case (Some u)
    then obtain st1 where g: "GiveCommand env uid c False st = Inr st1"
      by (simp add: GiveCommand_def)
    from GiveCommand_issued [OF g] Cons.IH [of st1] Some g
    show ?thesis by auto
  qed
qed

text \<open>
  C1. When the distance of the two points of the front is below the selection size plus
  33, MakeFormationFrontOrder gives the order itself, unchanged, to every unit of the
  selection that resolves, in selection order, and flushes no formation row.
\<close>

theorem MakeFormationFrontOrder_short_front:
  assumes "distance (GetPos c 0) (GetPos c 3) < real (length (netSelected env player) + 33)"
  shows "\<exists>st'. MakeFormationFrontOrder env c player st = Inr st'
           \<and> issued st' = issued st @ map (\<lambda>uid. (uid, c, False))
                                         (filter (\<lambda>uid. units st uid \<noteq> None) (netSelected env player))
           \<and> rowLog st' = rowLog st"
  using assms
    standardMoveLoop_issued [of env c "netSelected env player"
      "st\<lparr>formationCenterPos := GetPos c 0, formationRightPos := GetPos c 3\<rparr>"]
  by (auto simp: MakeFormationFrontOrder_def Let_def)

theorem MakeFormationFrontOrder_short_front_witness:
  "distance (GetPos \<lparr>cmdID = 10, options = 0, params = [0, 0, 0, 10, 0, 0]\<rparr> 0)
            (GetPos \<lparr>cmdID = 10, options = 0, params = [0, 0, 0, 10, 0, 0]\<rparr> 3)
     < real (length (netSelected (example_env [1, 2, 4, 3] []) 0) + 33)
   \<and> (\<exists>st'. MakeFormationFrontOrder (example_env [1, 2, 4, 3] [])
               \<lparr>cmdID = 10, options = 0, params = [0, 0, 0, 10, 0, 0]\<rparr> 0 (example_state example_units) = Inr st'
           \<and> issued st' = [(1, \<lparr>cmdID = 10, options = 0, params = [0, 0, 0, 10, 0, 0]\<rparr>, False),
                           (2, \<lparr>cmdID = 10, options = 0, params = [0, 0, 0, 10, 0, 0]\<rparr>, False),
                           (3, \<lparr>cmdID = 10, options = 0, params = [0, 0, 0, 10, 0, 0]\<rparr>, False)]
           \<and> rowLog st' = [])"
proof -
  have s: "sqrt 100 = 10"
    using real_sqrt_abs [of 10] by simp
  have h: "distance (GetPos \<lparr>cmdID = 10, options = 0, params = [0, 0, 0, 10, 0, 0]\<rparr> 0)
                    (GetPos \<lparr>cmdID = 10, options = 0, params = [0, 0, 0, 10, 0, 0]\<rparr> 3)
             < real (length (netSelected (example_env [1, 2, 4, 3] []) 0) + 33)"
    by (simp add: distance_def GetPos_def GetParam_def example_env_def s)
  have n: "netSelected (example_env [1, 2, 4, 3] []) 0 = [1, 2, 4, 3]"
    by (simp add: example_env_def)
  have f: "filter (\<lambda>uid. units (example_state example_units) uid \<noteq> None) [1, 2, 4, 3] = [1, 2, 3]"
    by (simp add: example_state_def example_units_def)
  have i: "issued (example_state example_units) = [] \<and> rowLog (example_state example_units) = []"
    by (simp add: example_state_def)
  from MakeFormationFrontOrder_short_front [OF h, of "example_state example_units"]
  show ?thesis using h unfolding n f by (simp add: i)
qed

subsection \<open>Ranking the targets\<close>

lemma targetPairs_resolved:
  assumes "\<forall>t\<in>set ts. units st t \<noteq> None"
  shows "targetPairs st mid ts = Inr (map (\<lambda>t. (sqDist2D st mid t, t)) ts)"
  using assms
  by (induction ts) (auto simp: sqDist2D_def SqLength2D_def f3_sub_def)



subsection \<open>Traces\<close>

lemma replay_append: "replay env us (e1 @ e2) = replay env (replay env us e1) e2"
  by (induction e1 arbitrary: us) auto

lemma cancelsOnly_append:
  "cancelsOnly env us (e1 @ e2) = (cancelsOnly env us e1 \<and> cancelsOnly env (replay env us e1) e2)"
  by (induction e1 arbitrary: us) (auto simp: replay_append)

lemma replay_other: "uid \<notin> fst ` set evs \<Longrightarrow> replay env us evs uid = us uid"
proof (induction evs arbitrary: us)
  case Nil
  show ?case by simp
next
  case (Cons e evs)
  obtain k c b where e: "e = (k, c, b)" by (cases e) auto
  from Cons.prems e have ne: "uid \<noteq> k" and rest: "uid \<notin> fst ` set evs" by auto
  show ?case
  proof (cases "us k")
    case None
    then show ?thesis using Cons.IH [OF rest, of us] e by simp
  next
    case (Some u)
    then have step: "replay env us (e # evs)
        = replay env (us(k \<mapsto> u\<lparr>commandAI := cai_GiveCommand env (commandAI u) c b\<rparr>)) evs"
      using e by simp
    have "replay env (us(k \<mapsto> u\<lparr>commandAI := cai_GiveCommand env (commandAI u) c b\<rparr>)) evs uid
        = (us(k \<mapsto> u\<lparr>commandAI := cai_GiveCommand env (commandAI u) c b\<rparr>)) uid"
      by (rule Cons.IH [OF rest])
    also have "\<dots> = us uid" using ne by simp
    finally show ?thesis using step by simp
  qed
qed

lemma replay_None: "(replay env us evs k = None) = (us k = None)"
proof (induction evs arbitrary: us)
  case Nil
  show ?case by simp
next
  case (Cons e evs)
  obtain uid c b where e: "e = (uid, c, b)" by (cases e) auto
  show ?case
  proof (cases "us uid")
    case None
    then show ?thesis using Cons.IH [of us] e by simp
  next
    case (Some u)
    then have step: "replay env us (e # evs)
        = replay env (us(uid \<mapsto> u\<lparr>commandAI := cai_GiveCommand env (commandAI u) c b\<rparr>)) evs"
      using e by simp
    have "(replay env (us(uid \<mapsto> u\<lparr>commandAI := cai_GiveCommand env (commandAI u) c b\<rparr>)) evs k = None)
        = ((us(uid \<mapsto> u\<lparr>commandAI := cai_GiveCommand env (commandAI u) c b\<rparr>)) k = None)"
      by (rule Cons.IH)
    also have "\<dots> = (us k = None)" using Some by simp
    finally show ?thesis using step by simp
  qed
qed

lemma gave_refl: "gave env st [] st"
  by (simp add: gave_def)

lemma gave_trans: "gave env st e1 st1 \<Longrightarrow> gave env st1 e2 st2 \<Longrightarrow> gave env st (e1 @ e2) st2"
  by (simp add: gave_def replay_append)

lemma GiveCommand_gave:
  assumes "units st uid \<noteq> None"
  shows "\<exists>st'. GiveCommand env uid c b st = Inr st' \<and> gave env st [(uid, c, b)] st'"
  using assms by (auto simp: GiveCommand_def gave_def)

lemma gave_units_None: "gave env st evs st' \<Longrightarrow> (units st' k = None) = (units st k = None)"
  by (simp add: gave_def replay_None)

lemma setTarget_idem: "setTarget (setTarget a t) t' = setTarget a t'"
  by (simp add: setTarget_def)

subsection \<open>The cancel branch of the area attack\<close>

lemma cancelTargets_effect:
  assumes "units st uid \<noteq> None"
  shows "\<exists>st' evs. cancelTargets env uid a ts st = Inr st' \<and> gave env st evs st'
           \<and> cancelsOnly env (units st) evs
           \<and> (\<forall>e\<in>set evs. fst e = uid \<and> snd (snd e) \<and> fst (snd e) \<in> setTarget a ` set ts)"
  using assms
proof (induction ts arbitrary: st a)
  case Nil
  have "cancelTargets env uid a [] st = Inr st \<and> gave env st [] st \<and> cancelsOnly env (units st) []
          \<and> (\<forall>e\<in>set []. fst e = uid \<and> snd (snd e) \<and> fst (snd e) \<in> setTarget a ` set [])"
    by (simp add: gave_refl)
  then show ?case by blast
next
  case (Cons t ts)
  from Cons.prems obtain u where u: "units st uid = Some u" by auto
  show ?case
  proof (cases "cai_WillCancelQueued env (commandAI u) (setTarget a t)")
    case False
    from Cons.IH [OF Cons.prems, of "setTarget a t"]
    obtain st' evs where r: "cancelTargets env uid (setTarget a t) ts st = Inr st'"
      "gave env st evs st'" "cancelsOnly env (units st) evs"
      "\<forall>e\<in>set evs. fst e = uid \<and> snd (snd e) \<and> fst (snd e) \<in> setTarget (setTarget a t) ` set ts"
      by blast
    from r(4) have "\<forall>e\<in>set evs. fst e = uid \<and> snd (snd e) \<and> fst (snd e) \<in> setTarget a ` set (t # ts)"
      by (auto simp: setTarget_idem)
    moreover from r(1) u False have "cancelTargets env uid a (t # ts) st = Inr st'" by simp
    ultimately show ?thesis using r(2,3) by blast
  next
    case True
    from GiveCommand_gave [OF Cons.prems, of env "setTarget a t" True]
    obtain st1 where g: "GiveCommand env uid (setTarget a t) True st = Inr st1"
      "gave env st [(uid, setTarget a t, True)] st1" by blast
    from g(2) Cons.prems have n1: "units st1 uid \<noteq> None" by (simp add: gave_units_None)
    from Cons.IH [OF n1, of "setTarget a t"]
    obtain st' evs where r: "cancelTargets env uid (setTarget a t) ts st1 = Inr st'"
      "gave env st1 evs st'" "cancelsOnly env (units st1) evs"
      "\<forall>e\<in>set evs. fst e = uid \<and> snd (snd e) \<and> fst (snd e) \<in> setTarget (setTarget a t) ` set ts"
      by blast
    from r(4) have m: "\<forall>e\<in>set ((uid, setTarget a t, True) # evs).
        fst e = uid \<and> snd (snd e) \<and> fst (snd e) \<in> setTarget a ` set (t # ts)"
      by (auto simp: setTarget_idem)
    from gave_trans [OF g(2) r(2)] have gv: "gave env st ((uid, setTarget a t, True) # evs) st'" by simp
    from g(2) have "units st1 = replay env (units st) [(uid, setTarget a t, True)]"
      by (simp add: gave_def)
    with r(3) True u have co: "cancelsOnly env (units st) ((uid, setTarget a t, True) # evs)"
      by simp
    from r(1) g(1) u True have "cancelTargets env uid a (t # ts) st = Inr st'" by simp
    with gv co m show ?thesis by blast
  qed
qed

lemma cancelTargets_none:
  assumes "units st uid = Some u" "\<forall>t\<in>set ts. \<not> cai_WillCancelQueued env (commandAI u) (setTarget a t)"
  shows "cancelTargets env uid a ts st = Inr st"
  using assms
  by (induction ts arbitrary: a) (auto simp: setTarget_idem)

lemma cancelLoop_effect:
  "\<exists>st' evs. cancelLoop env a ts sel st = Inr st' \<and> gave env st evs st'
           \<and> cancelsOnly env (units st) evs
           \<and> (\<forall>e\<in>set evs. fst e \<in> set sel \<and> snd (snd e) \<and> fst (snd e) \<in> setTarget a ` set ts)
           \<and> (\<forall>uid u. units st uid = Some u
                 \<and> (\<forall>t\<in>set ts. \<not> cai_WillCancelQueued env (commandAI u) (setTarget a t))
                 \<longrightarrow> uid \<notin> fst ` set evs)"
proof (induction sel arbitrary: st)
  case Nil
  have "cancelLoop env a ts [] st = Inr st \<and> gave env st [] st \<and> cancelsOnly env (units st) []
          \<and> (\<forall>e\<in>set []. fst e \<in> set [] \<and> snd (snd e) \<and> fst (snd e) \<in> setTarget a ` set ts)
          \<and> (\<forall>uid u. units st uid = Some u
                 \<and> (\<forall>t\<in>set ts. \<not> cai_WillCancelQueued env (commandAI u) (setTarget a t))
                 \<longrightarrow> uid \<notin> fst ` set [])"
    by (simp add: gave_refl)
  then show ?case by blast
next
  case (Cons s sel)
  show ?case
  proof (cases "units st s")
    case None
    from Cons.IH [of st]
    obtain st' evs where r: "cancelLoop env a ts sel st = Inr st'" "gave env st evs st'"
      "cancelsOnly env (units st) evs"
      "\<forall>e\<in>set evs. fst e \<in> set sel \<and> snd (snd e) \<and> fst (snd e) \<in> setTarget a ` set ts"
      "\<forall>uid u. units st uid = Some u
                 \<and> (\<forall>t\<in>set ts. \<not> cai_WillCancelQueued env (commandAI u) (setTarget a t))
                 \<longrightarrow> uid \<notin> fst ` set evs"
      by blast
    from r(1) None have "cancelLoop env a ts (s # sel) st = Inr st'" by simp
    moreover from r(4) have "\<forall>e\<in>set evs. fst e \<in> set (s # sel) \<and> snd (snd e) \<and> fst (snd e) \<in> setTarget a ` set ts"
      by simp
    ultimately show ?thesis using r(2,3,5) by blast
  next
    case (Some us)
    then have n: "units st s \<noteq> None" by simp
    from cancelTargets_effect [OF n, of env a ts]
    obtain st1 e1 where r1: "cancelTargets env s a ts st = Inr st1" "gave env st e1 st1"
      "cancelsOnly env (units st) e1"
      "\<forall>e\<in>set e1. fst e = s \<and> snd (snd e) \<and> fst (snd e) \<in> setTarget a ` set ts"
      by blast
    from Cons.IH [of st1]
    obtain st' e2 where r2: "cancelLoop env a ts sel st1 = Inr st'" "gave env st1 e2 st'"
      "cancelsOnly env (units st1) e2"
      "\<forall>e\<in>set e2. fst e \<in> set sel \<and> snd (snd e) \<and> fst (snd e) \<in> setTarget a ` set ts"
      "\<forall>uid u. units st1 uid = Some u
                 \<and> (\<forall>t\<in>set ts. \<not> cai_WillCancelQueued env (commandAI u) (setTarget a t))
                 \<longrightarrow> uid \<notin> fst ` set e2"
      by blast
    have run: "cancelLoop env a ts (s # sel) st = Inr st'"
      using Some r1(1) r2(1) by simp
    have gv: "gave env st (e1 @ e2) st'" by (rule gave_trans [OF r1(2) r2(2)])
    have u1: "units st1 = replay env (units st) e1" using r1(2) by (simp add: gave_def)
    have co: "cancelsOnly env (units st) (e1 @ e2)"
      using r1(3) r2(3) u1 by (simp add: cancelsOnly_append)
    have sh: "\<forall>e\<in>set (e1 @ e2). fst e \<in> set (s # sel) \<and> snd (snd e) \<and> fst (snd e) \<in> setTarget a ` set ts"
      using r1(4) r2(4) by auto
    have un: "\<forall>uid u. units st uid = Some u
                 \<and> (\<forall>t\<in>set ts. \<not> cai_WillCancelQueued env (commandAI u) (setTarget a t))
                 \<longrightarrow> uid \<notin> fst ` set (e1 @ e2)"
    proof (intro allI impI)
      fix uid u
      assume h: "units st uid = Some u
                 \<and> (\<forall>t\<in>set ts. \<not> cai_WillCancelQueued env (commandAI u) (setTarget a t))"
      have a1: "uid \<notin> fst ` set e1"
      proof (cases "uid = s")
        case True
        with h cancelTargets_none [of st s u ts env a] r1(1) have "st1 = st" by simp
        with r1(2) have "issued st = issued (st\<lparr>units := replay env (units st) e1, issued := issued st @ e1\<rparr>)"
          by (simp add: gave_def)
        then have "e1 = []" by simp
        then show ?thesis by simp
      next
        case False
        with r1(4) show ?thesis by auto
      qed
      then have "units st1 uid = Some u" using u1 h by (simp add: replay_other)
      with r2(5) h have "uid \<notin> fst ` set e2" by blast
      with a1 show "uid \<notin> fst ` set (e1 @ e2)" by auto
    qed
    from run gv co sh un show ?thesis by blast
  qed
qed

subsection \<open>The broadcast branch\<close>

lemma speedView_step:
  assumes "fixedCapability env"
  shows "speedView env (case us uid of None \<Rightarrow> us
           | Some u \<Rightarrow> us(uid \<mapsto> u\<lparr>commandAI := cai_GiveCommand env (commandAI u) c b\<rparr>)) k
         = speedView env us k"
proof (cases "us uid")
  case None
  then show ?thesis by simp
next
  case (Some u)
  show ?thesis
  proof (cases "k = uid")
    case True
    with Some assms show ?thesis by (simp add: speedView_def fixedCapability_def)
  next
    case False
    with Some show ?thesis by (simp add: speedView_def)
  qed
qed

lemma replay_speedView:
  assumes "fixedCapability env"
  shows "speedView env (replay env us evs) = speedView env us"
proof (induction evs arbitrary: us)
  case Nil
  show ?case by simp
next
  case (Cons e evs)
  obtain uid c b where e: "e = (uid, c, b)" by (cases e) auto
  have "speedView env (replay env us (e # evs))
      = speedView env (case us uid of None \<Rightarrow> us
           | Some u \<Rightarrow> us(uid \<mapsto> u\<lparr>commandAI := cai_GiveCommand env (commandAI u) c b\<rparr>))"
    unfolding e replay.simps by (rule Cons.IH)
  also have "\<dots> = speedView env us"
    by (rule ext) (rule speedView_step [OF assms])
  finally show ?case .
qed

lemma gave_speedView:
  "fixedCapability env \<Longrightarrow> gave env st evs st' \<Longrightarrow> speedView env (units st') = speedView env (units st)"
  by (simp add: gave_def replay_speedView)

lemma AddUnitSetMaxSpeedCommandNet_gave:
  assumes "units st uid \<noteq> None"
  shows "\<exists>st'. AddUnitSetMaxSpeedCommandNet env uid opts st = Inr st'
           \<and> gave env st (speedEvents env (speedView env (units st)) uid opts) st'"
proof -
  from assms obtain u where u: "units st uid = Some u" by auto
  show ?thesis
  proof (cases "cai_CanSetMaxSpeed env (commandAI u)")
    case False
    with u have "AddUnitSetMaxSpeedCommandNet env uid opts st = Inr st"
      by (simp add: AddUnitSetMaxSpeedCommandNet_def)
    moreover from u False have "speedEvents env (speedView env (units st)) uid opts = []"
      by (simp add: speedEvents_def speedView_def)
    ultimately show ?thesis using gave_refl [of env st] by simp
  next
    case True
    from GiveCommand_gave [OF assms, of env "Command1 (CMD_SET_WANTED_MAX_SPEED env) opts (maxSpeed u)" True]
    obtain st' where g: "GiveCommand env uid (Command1 (CMD_SET_WANTED_MAX_SPEED env) opts (maxSpeed u)) True st = Inr st'"
      "gave env st [(uid, Command1 (CMD_SET_WANTED_MAX_SPEED env) opts (maxSpeed u), True)] st'"
      by blast
    from u True g(1) have "AddUnitSetMaxSpeedCommandNet env uid opts st = Inr st'"
      by (simp add: AddUnitSetMaxSpeedCommandNet_def)
    moreover from u True have "speedEvents env (speedView env (units st)) uid opts
        = [(uid, Command1 (CMD_SET_WANTED_MAX_SPEED env) opts (maxSpeed u), True)]"
      by (simp add: speedEvents_def speedView_def)
    ultimately show ?thesis using g(2) by simp
  qed
qed

text \<open>One unit of the broadcast: the order, then the speed-match order.\<close>

lemma broadcast_unit:
  assumes fc: "fixedCapability env" and n: "units st uid \<noteq> None"
  shows "\<exists>st1 st2. GiveCommand env uid c True st = Inr st1
           \<and> (if MayRequireSetMaxSpeedCommand env c
               then AddUnitSetMaxSpeedCommandNet env uid (options c) st1 else Inr st1) = Inr st2
           \<and> gave env st (broadcastBlock env (speedView env (units st)) c uid) st2"
proof -
  from n obtain u where u: "units st uid = Some u" by auto
  from GiveCommand_gave [OF n, of env c True]
  obtain st1 where g: "GiveCommand env uid c True st = Inr st1" "gave env st [(uid, c, True)] st1"
    by blast
  have v1: "speedView env (units st1) = speedView env (units st)"
    by (rule gave_speedView [OF fc g(2)])
  from g(2) n have n1: "units st1 uid \<noteq> None" by (simp add: gave_units_None)
  have sv: "speedView env (units st) uid \<noteq> None" using u by (simp add: speedView_def)
  show ?thesis
  proof (cases "MayRequireSetMaxSpeedCommand env c")
    case False
    with sv have "broadcastBlock env (speedView env (units st)) c uid = [(uid, c, True)]"
      by (auto simp: broadcastBlock_def)
    with g False show ?thesis by simp
  next
    case True
    from AddUnitSetMaxSpeedCommandNet_gave [OF n1, of env "options c"]
    obtain st2 where a: "AddUnitSetMaxSpeedCommandNet env uid (options c) st1 = Inr st2"
      "gave env st1 (speedEvents env (speedView env (units st)) uid (options c)) st2"
      unfolding v1 by blast
    from sv True have "broadcastBlock env (speedView env (units st)) c uid
        = [(uid, c, True)] @ speedEvents env (speedView env (units st)) uid (options c)"
      by (auto simp: broadcastBlock_def)
    with gave_trans [OF g(2) a(2)] have "gave env st (broadcastBlock env (speedView env (units st)) c uid) st2"
      by simp
    with g(1) a(1) True show ?thesis by simp
  qed
qed

lemma broadcastLoop_gave:
  assumes fc: "fixedCapability env"
  shows "\<exists>st'. broadcastLoop env c ids st = Inr st'
           \<and> gave env st (concat (map (broadcastBlock env (speedView env (units st)) c) ids)) st'"
proof (induction ids arbitrary: st)
  case Nil
  show ?case by (simp add: gave_refl)
next
  case (Cons uid ids)
  show ?case
  proof (cases "units st uid")
    case None
    then have b: "broadcastBlock env (speedView env (units st)) c uid = []"
      by (simp add: broadcastBlock_def speedView_def)
    from Cons.IH [of st] None b show ?thesis by simp
  next
    case (Some u)
    then have n: "units st uid \<noteq> None" by simp
    from broadcast_unit [OF fc n, of c]
    obtain st1 st2 where s: "GiveCommand env uid c True st = Inr st1"
      "(if MayRequireSetMaxSpeedCommand env c
        then AddUnitSetMaxSpeedCommandNet env uid (options c) st1 else Inr st1) = Inr st2"
      "gave env st (broadcastBlock env (speedView env (units st)) c uid) st2"
      by blast
    have v2: "speedView env (units st2) = speedView env (units st)"
      by (rule gave_speedView [OF fc s(3)])
    from Cons.IH [of st2]
    obtain st' where r: "broadcastLoop env c ids st2 = Inr st'"
      "gave env st2 (concat (map (broadcastBlock env (speedView env (units st)) c) ids)) st'"
      unfolding v2 by blast
    have run: "broadcastLoop env c (uid # ids) st = Inr st'"
    proof (cases "MayRequireSetMaxSpeedCommand env c")
      case True
      with s(1,2) r(1) Some show ?thesis by simp
    next
      case False
      with s(1,2) r(1) Some show ?thesis by simp
    qed
    from gave_trans [OF s(3) r(2)] run show ?thesis by simp
  qed
qed

text \<open>
  C6 (as amended). For a non-empty selection and an order that is no area attack, no
  formation order and no control-key group order, every id of the selection that resolves
  receives the order exactly once, in selection order; the order is followed by one
  per-unit speed-match order exactly when its kind is not one of stop, wait,
  self-destruct, fire-state, move-state, on-off, repeat and the command AI of the unit can
  set a maximum speed. Nothing else is given.
\<close>

theorem GiveCommandNet_broadcast:
  assumes fc: "fixedCapability env"
    and ne: "netSelected env player \<noteq> []"
    and a1: "\<not> isAreaAttack env c"
    and a2: "\<not> ((cmdID c = CMD_MOVE env \<or> cmdID c = CMD_FIGHT env) \<and> GetParamsCount c = 6)"
    and a3: "\<not> (cmdID c = CMD_MOVE env \<and> options c AND ALT_KEY env \<noteq> 0)"
    and a4: "\<not> (options c AND CONTROL_KEY env \<noteq> 0
               \<and> (cmdID c = CMD_MOVE env \<or> cmdID c = CMD_PATROL env \<or> cmdID c = CMD_FIGHT env))"
  shows "\<exists>st'. GiveCommandNet env c player st = Inr st'
           \<and> issued st' = issued st
               @ concat (map (broadcastBlock env (speedView env (units st)) c) (netSelected env player))
           \<and> units st' = replay env (units st)
               (concat (map (broadcastBlock env (speedView env (units st)) c) (netSelected env player)))"
proof (cases "length (netSelected env player) = 1")
  case True
  then obtain s where sel: "netSelected env player = [s]"
    by (cases "netSelected env player") auto
  show ?thesis
  proof (cases "units st s")
    case None
    then have "broadcastBlock env (speedView env (units st)) c s = []"
      by (simp add: broadcastBlock_def speedView_def)
    with None sel a1 show ?thesis by (simp add: GiveCommandNet_def)
  next
    case (Some u)
    then have n: "units st s \<noteq> None" by simp
    from broadcast_unit [OF fc n, of c]
    obtain st1 st2 where s: "GiveCommand env s c True st = Inr st1"
      "(if MayRequireSetMaxSpeedCommand env c
        then AddUnitSetMaxSpeedCommandNet env s (options c) st1 else Inr st1) = Inr st2"
      "gave env st (broadcastBlock env (speedView env (units st)) c s) st2"
      by blast
    have "GiveCommandNet env c player st
        = (if cmdID c = CMD_WAIT env \<and> player = myPlayerNum env
           then Inr (AcknowledgeCommand c st2) else Inr st2)"
    proof (cases "MayRequireSetMaxSpeedCommand env c")
      case True
      with sel a1 Some s(1,2) show ?thesis by (simp add: GiveCommandNet_def)
    next
      case False
      with sel a1 Some s(1,2) show ?thesis by (simp add: GiveCommandNet_def)
    qed
    with s(3) sel show ?thesis by (simp add: gave_def AcknowledgeCommand_def)
  qed
next
  case False
  from broadcastLoop_gave [OF fc, of c "netSelected env player" st]
  obtain st1 where r: "broadcastLoop env c (netSelected env player) st = Inr st1"
    "gave env st (concat (map (broadcastBlock env (speedView env (units st)) c) (netSelected env player))) st1"
    by blast
  from ne have c1: "(int (length (netSelected env player)) < 1) = False"
    by (cases "netSelected env player") auto
  from False have c2: "(int (length (netSelected env player)) = 1) = False" by simp
  from a1 have c3: "isAreaAttack env c = False" by simp
  from a2 have c4: "((cmdID c = CMD_MOVE env \<or> cmdID c = CMD_FIGHT env) \<and> GetParamsCount c = 6) = False"
    by simp
  from a3 have c5: "(cmdID c = CMD_MOVE env \<and> options c AND ALT_KEY env \<noteq> 0) = False" by simp
  from a4 have c6: "(options c AND CONTROL_KEY env \<noteq> 0
               \<and> (cmdID c = CMD_MOVE env \<or> cmdID c = CMD_PATROL env \<or> cmdID c = CMD_FIGHT env)) = False"
    by simp
  have "GiveCommandNet env c player st
      = (if cmdID c \<noteq> CMD_WAIT env then Inr st1
         else if player \<noteq> myPlayerNum env then Inr st1 else Inr (AcknowledgeCommand c st1))"
    unfolding GiveCommandNet_def Let_def c1 c2 c3 c4 c5 c6 if_False r(1) by simp
  with r(2) show ?thesis by (simp add: gave_def AcknowledgeCommand_def)
qed

theorem GiveCommandNet_broadcast_witness:
  "fixedCapability (example_env [1, 2, 4] example_found)
   \<and> netSelected (example_env [1, 2, 4] example_found) 0 \<noteq> []
   \<and> \<not> isAreaAttack (example_env [1, 2, 4] example_found) example_move
   \<and> \<not> ((cmdID example_move = CMD_MOVE (example_env [1, 2, 4] example_found) \<or> cmdID example_move = CMD_FIGHT (example_env [1, 2, 4] example_found))
          \<and> GetParamsCount example_move = 6)
   \<and> \<not> (cmdID example_move = CMD_MOVE (example_env [1, 2, 4] example_found) \<and> options example_move AND ALT_KEY (example_env [1, 2, 4] example_found) \<noteq> 0)
   \<and> \<not> (options example_move AND CONTROL_KEY (example_env [1, 2, 4] example_found) \<noteq> 0
          \<and> (cmdID example_move = CMD_MOVE (example_env [1, 2, 4] example_found) \<or> cmdID example_move = CMD_PATROL (example_env [1, 2, 4] example_found)
             \<or> cmdID example_move = CMD_FIGHT (example_env [1, 2, 4] example_found)))
   \<and> (\<exists>st'. GiveCommandNet (example_env [1, 2, 4] example_found) example_move 0 (example_state example_units) = Inr st'
         \<and> issued st' = [(1, example_move, True),
                         (1, \<lparr>cmdID = 70, options = 0, params = [3]\<rparr>, True),
                         (2, example_move, True)])"
proof -
  have h1: "fixedCapability (example_env [1, 2, 4] example_found)"
    by (simp add: fixedCapability_def example_env_def)
  have h2: "netSelected (example_env [1, 2, 4] example_found) 0 \<noteq> []"
    by (simp add: example_env_def)
  have h3: "\<not> isAreaAttack (example_env [1, 2, 4] example_found) example_move"
    by (simp add: isAreaAttack_def example_env_def example_move_def)
  have h4: "\<not> ((cmdID example_move = CMD_MOVE (example_env [1, 2, 4] example_found) \<or> cmdID example_move = CMD_FIGHT (example_env [1, 2, 4] example_found))
          \<and> GetParamsCount example_move = 6)"
    by (simp add: GetParamsCount_def example_move_def)
  have h5: "\<not> (cmdID example_move = CMD_MOVE (example_env [1, 2, 4] example_found) \<and> options example_move AND ALT_KEY (example_env [1, 2, 4] example_found) \<noteq> 0)"
    by (simp add: example_move_def)
  have h6: "\<not> (options example_move AND CONTROL_KEY (example_env [1, 2, 4] example_found) \<noteq> 0
          \<and> (cmdID example_move = CMD_MOVE (example_env [1, 2, 4] example_found) \<or> cmdID example_move = CMD_PATROL (example_env [1, 2, 4] example_found)
             \<or> cmdID example_move = CMD_FIGHT (example_env [1, 2, 4] example_found)))"
    by (simp add: example_move_def)
  have b: "concat (map (broadcastBlock (example_env [1, 2, 4] example_found) (speedView (example_env [1, 2, 4] example_found) (units (example_state example_units))) example_move) (netSelected (example_env [1, 2, 4] example_found) 0))
             = [(1, example_move, True), (1, \<lparr>cmdID = 70, options = 0, params = [3]\<rparr>, True),
                (2, example_move, True)]"
    by (simp add: broadcastBlock_def speedView_def speedEvents_def MayRequireSetMaxSpeedCommand_def
        Command1_def example_env_def example_state_def example_units_def example_unit_def example_move_def)
  from GiveCommandNet_broadcast [OF h1 h2 h3 h4 h5 h6, of "(example_state example_units)"]
  obtain st' where r: "GiveCommandNet (example_env [1, 2, 4] example_found) example_move 0 (example_state example_units) = Inr st'"
    "issued st' = issued (example_state example_units)
       @ concat (map (broadcastBlock (example_env [1, 2, 4] example_found) (speedView (example_env [1, 2, 4] example_found) (units (example_state example_units))) example_move) (netSelected (example_env [1, 2, 4] example_found) 0))"
    by blast
  from r(2) have "issued st' = [(1, example_move, True), (1, \<lparr>cmdID = 70, options = 0, params = [3]\<rparr>, True),
                (2, example_move, True)]"
    unfolding b by (simp add: example_state_def)
  with r(1) h1 h2 h3 h4 h5 h6 show ?thesis by blast
qed

text \<open>
  The claim as stated fails: unit 2 resolves and is a building, the move order is not of an
  excluded kind, and no speed-match order follows the order given to unit 2.
\<close>

theorem GiveCommandNet_broadcast_counterexample:
  "issued_of (GiveCommandNet (example_env [1, 2, 4] example_found) example_move 0 (example_state example_units))
     = [(1, example_move, True), (1, \<lparr>cmdID = 70, options = 0, params = [3]\<rparr>, True),
        (2, example_move, True)]
   \<and> concat (map (broadcastBlock_claimed (example_env [1, 2, 4] example_found) (units (example_state example_units)) example_move) (netSelected (example_env [1, 2, 4] example_found) 0))
     = [(1, example_move, True), (1, \<lparr>cmdID = 70, options = 0, params = [3]\<rparr>, True),
        (2, example_move, True), (2, \<lparr>cmdID = 70, options = 0, params = [3]\<rparr>, True)]
   \<and> issued_of (GiveCommandNet (example_env [1, 2, 4] example_found) example_move 0 (example_state example_units))
     \<noteq> issued (example_state example_units) @ concat (map (broadcastBlock_claimed (example_env [1, 2, 4] example_found) (units (example_state example_units)) example_move) (netSelected (example_env [1, 2, 4] example_found) 0))"
proof -
  have e: "issued_of (GiveCommandNet (example_env [1, 2, 4] example_found) example_move 0 (example_state example_units))
     = [(1, example_move, True), (1, \<lparr>cmdID = 70, options = 0, params = [3]\<rparr>, True),
        (2, example_move, True)]"
    by (simp add: issued_of_def GiveCommandNet_def isAreaAttack_def GetParamsCount_def example_env_def
        example_move_def example_state_def example_units_def example_unit_def Command1_def
        MayRequireSetMaxSpeedCommand_def GiveCommand_def AddUnitSetMaxSpeedCommandNet_def Let_def)
  have c: "concat (map (broadcastBlock_claimed (example_env [1, 2, 4] example_found) (units (example_state example_units)) example_move) (netSelected (example_env [1, 2, 4] example_found) 0))
     = [(1, example_move, True), (1, \<lparr>cmdID = 70, options = 0, params = [3]\<rparr>, True),
        (2, example_move, True), (2, \<lparr>cmdID = 70, options = 0, params = [3]\<rparr>, True)]"
    by (simp add: broadcastBlock_claimed_def MayRequireSetMaxSpeedCommand_def Command1_def
        example_env_def example_state_def example_units_def example_unit_def example_move_def)
  have i: "issued (example_state example_units) = []" by (simp add: example_state_def)
  show ?thesis unfolding e c i by simp
qed

text \<open>
  C7. With the control key an area attack only cancels: every command given is a queued
  attack command on one of the candidate targets, given to a selected unit at a moment when
  \<^verbatim>\<open>WillCancelQueued\<close> holds for it; nothing else is given, nothing else of the state
  changes, and a unit for which no candidate target has a queued attack receives nothing
  and is left as it was.
\<close>

theorem SelectAttackNet_control_cancels:
  assumes "options cmd AND CONTROL_KEY env \<noteq> 0"
  shows "\<exists>st' evs. SelectAttackNet env cmd player st = Inr st'
           \<and> st' = st\<lparr>units := replay env (units st) evs, issued := issued st @ evs\<rparr>
           \<and> cancelsOnly env (units st) evs
           \<and> (\<forall>e\<in>set evs. fst e \<in> set (netSelected env player) \<and> snd (snd e)
                 \<and> (\<exists>t\<in>set (targetsOf env cmd player).
                       fst (snd e) = attackOn env (options cmd OR SHIFT_KEY env) t))
           \<and> (\<forall>uid u. units st uid = Some u
                 \<and> (\<forall>t\<in>set (targetsOf env cmd player).
                       \<not> cai_WillCancelQueued env (commandAI u) (attackOn env (options cmd OR SHIFT_KEY env) t))
                 \<longrightarrow> uid \<notin> fst ` set evs \<and> units st' uid = Some u)"
proof (cases "targetsOf env cmd player = [] \<or> netSelected env player = []")
  case True
  then have "SelectAttackNet env cmd player st = Inr st"
    by (auto simp: SelectAttackNet_def Let_def)
  moreover have "st = st\<lparr>units := replay env (units st) [], issued := issued st @ []\<rparr>" by simp
  ultimately show ?thesis
    by (intro exI [of _ st] exI [of _ "[]"]) simp
next
  case False
  let ?a = "(Command1 (CMD_ATTACK env) (options cmd) 0)\<lparr>options := options (Command1 (CMD_ATTACK env) (options cmd) 0) OR SHIFT_KEY env\<rparr>"
  have a: "\<And>t. setTarget ?a t = attackOn env (options cmd OR SHIFT_KEY env) t"
    by (simp add: setTarget_def Command1_def attackOn_def)
  from cancelLoop_effect [of env ?a "targetsOf env cmd player" "netSelected env player" st]
  obtain st' evs where r: "cancelLoop env ?a (targetsOf env cmd player) (netSelected env player) st = Inr st'"
    "gave env st evs st'" "cancelsOnly env (units st) evs"
    "\<forall>e\<in>set evs. fst e \<in> set (netSelected env player) \<and> snd (snd e)
        \<and> fst (snd e) \<in> setTarget ?a ` set (targetsOf env cmd player)"
    "\<forall>uid u. units st uid = Some u
        \<and> (\<forall>t\<in>set (targetsOf env cmd player). \<not> cai_WillCancelQueued env (commandAI u) (setTarget ?a t))
        \<longrightarrow> uid \<notin> fst ` set evs"
    by blast
  have run: "SelectAttackNet env cmd player st = Inr st'"
    using False assms r(1) by (simp add: SelectAttackNet_def Let_def)
  have eq: "st' = st\<lparr>units := replay env (units st) evs, issued := issued st @ evs\<rparr>"
    using r(2) by (simp add: gave_def)
  have sh: "\<forall>e\<in>set evs. fst e \<in> set (netSelected env player) \<and> snd (snd e)
                 \<and> (\<exists>t\<in>set (targetsOf env cmd player).
                       fst (snd e) = attackOn env (options cmd OR SHIFT_KEY env) t)"
    using r(4) unfolding a by auto
  have un: "\<forall>uid u. units st uid = Some u
                 \<and> (\<forall>t\<in>set (targetsOf env cmd player).
                       \<not> cai_WillCancelQueued env (commandAI u) (attackOn env (options cmd OR SHIFT_KEY env) t))
                 \<longrightarrow> uid \<notin> fst ` set evs \<and> units st' uid = Some u"
  proof (intro allI impI)
    fix uid u
    assume h: "units st uid = Some u
                 \<and> (\<forall>t\<in>set (targetsOf env cmd player).
                       \<not> cai_WillCancelQueued env (commandAI u) (attackOn env (options cmd OR SHIFT_KEY env) t))"
    with r(5) have n: "uid \<notin> fst ` set evs" unfolding a by blast
    have "units st' uid = replay env (units st) evs uid" using eq by simp
    also have "\<dots> = units st uid" by (rule replay_other [OF n])
    finally show "uid \<notin> fst ` set evs \<and> units st' uid = Some u" using n h by simp
  qed
  from run eq r(3) sh un show ?thesis by blast
qed

theorem SelectAttackNet_control_cancels_witness:
  "options example_cancel AND CONTROL_KEY (example_env [1, 3] example_found) \<noteq> 0
   \<and> (\<exists>st' evs. SelectAttackNet (example_env [1, 3] example_found) example_cancel 0 (example_state example_units_queued) = Inr st'
         \<and> evs = [(1, \<lparr>cmdID = 20, options = 96, params = [10]\<rparr>, True)]
         \<and> issued st' = evs
         \<and> cancelsOnly (example_env [1, 3] example_found) (units (example_state example_units_queued)) evs
         \<and> units st' 3 = example_units 3)"
proof -
  have h: "options example_cancel AND CONTROL_KEY (example_env [1, 3] example_found) \<noteq> 0"
    by (simp add: example_cancel_def example_env_def)
  have t: "targetsOf (example_env [1, 3] example_found) example_cancel 0 = [10, 11, 12]"
    by (simp add: targetsOf_def example_env_def example_found_def example_cancel_def SelectCircleUnits_def
        example_units_def example_unit_def GetPos_def GetParam_def)
  have e: "issued_of (SelectAttackNet (example_env [1, 3] example_found) example_cancel 0 (example_state example_units_queued))
             = [(1, \<lparr>cmdID = 20, options = 96, params = [10]\<rparr>, True)]"
    unfolding issued_of_def SelectAttackNet_def t
    by (simp add: example_env_def example_cancel_def example_state_def example_units_queued_def
        example_units_def example_unit_def Command1_def setTarget_def GiveCommand_def Let_def)
  from SelectAttackNet_control_cancels [OF h, of 0 "(example_state example_units_queued)"]
  obtain st' evs where r: "SelectAttackNet (example_env [1, 3] example_found) example_cancel 0 (example_state example_units_queued) = Inr st'"
    "st' = (example_state example_units_queued)\<lparr>units := replay (example_env [1, 3] example_found) (units (example_state example_units_queued)) evs, issued := issued (example_state example_units_queued) @ evs\<rparr>"
    "cancelsOnly (example_env [1, 3] example_found) (units (example_state example_units_queued)) evs"
    by blast
  from r(2) have i: "issued st' = evs" by (simp add: example_state_def)
  with e r(1) have ev: "evs = [(1, \<lparr>cmdID = 20, options = 96, params = [10]\<rparr>, True)]"
    by (simp add: issued_of_def)
  from r(2) have "units st' 3 = replay (example_env [1, 3] example_found) (units (example_state example_units_queued)) evs 3" by simp
  also have "\<dots> = example_units 3"
    unfolding ev by (simp add: example_state_def example_units_queued_def)
  finally have u: "units st' 3 = example_units 3" .
  from h r(1,3) i ev u show ?thesis by blast
qed

subsection \<open>The attack branch of the area attack\<close>

lemma word_or_and_not: "(x OR s) AND NOT s = x AND NOT (s :: 8 word)"
  by (auto simp: bit_eq_iff bit_simps)

lemma word_and_not_idem: "(x AND NOT s) AND NOT s = x AND NOT (s :: 8 word)"
  by (auto simp: bit_eq_iff bit_simps)

lemma word_and_zero_not: "x AND s = 0 \<Longrightarrow> x AND NOT s = (x :: 8 word)"
  by (auto simp: bit_eq_iff bit_simps)

lemma setTarget_attackOn:
  assumes "cmdID a = CMD_ATTACK env" "length (params a) = 1"
  shows "setTarget a t = attackOn env (options a) t"
proof -
  from assms(2) obtain p where "params a = [p]" by (cases "params a") auto
  with assms(1) show ?thesis by (simp add: setTarget_def attackOn_def)
qed

lemma attack_one:
  assumes fc: "fixedCapability env" and n: "units st uid \<noteq> None"
    and v: "speedView env (units st) uid = Some mc"
  shows "\<exists>st1 st2. GiveCommand env uid (attackOn env opts t) True st = Inr st1
           \<and> AddUnitSetMaxSpeedCommandNet env uid opts st1 = Inr st2
           \<and> gave env st (attackStep env uid mc opts t) st2"
proof -
  from GiveCommand_gave [OF n, of env "attackOn env opts t" True]
  obtain st1 where g: "GiveCommand env uid (attackOn env opts t) True st = Inr st1"
    "gave env st [(uid, attackOn env opts t, True)] st1" by blast
  have v1: "speedView env (units st1) = speedView env (units st)"
    by (rule gave_speedView [OF fc g(2)])
  from g(2) n have n1: "units st1 uid \<noteq> None" by (simp add: gave_units_None)
  from AddUnitSetMaxSpeedCommandNet_gave [OF n1, of env opts]
  obtain st2 where a: "AddUnitSetMaxSpeedCommandNet env uid opts st1 = Inr st2"
    "gave env st1 (speedEvents env (speedView env (units st)) uid opts) st2"
    unfolding v1 by blast
  have "attackStep env uid mc opts t
      = [(uid, attackOn env opts t, True)] @ speedEvents env (speedView env (units st)) uid opts"
    using v by (cases mc) (simp add: attackStep_def speedEvents_def)
  with gave_trans [OF g(2) a(2)] have "gave env st (attackStep env uid mc opts t) st2" by simp
  with g(1) a(1) show ?thesis by blast
qed

lemma attackTargets_queued:
  assumes fc: "fixedCapability env"
  shows "units st uid \<noteq> None \<Longrightarrow> speedView env (units st) uid = Some mc \<Longrightarrow>
         cmdID a = CMD_ATTACK env \<Longrightarrow> length (params a) = 1 \<Longrightarrow>
         options a OR SHIFT_KEY env = options a \<Longrightarrow>
         \<exists>st' a'. attackTargets env False uid a ps st = Inr (st', a')
           \<and> gave env st (concat (map (attackStep env uid mc (options a)) (map snd ps))) st'
           \<and> cmdID a' = CMD_ATTACK env \<and> length (params a') = 1 \<and> options a' = options a"
proof (induction ps arbitrary: st a)
  case Nil
  then show ?case by (simp add: gave_refl)
next
  case (Cons p ps)
  from Cons.prems(1) obtain u where u: "units st uid = Some u" by auto
  have st_eq: "setTarget a (snd p) = attackOn env (options a) (snd p)"
    by (rule setTarget_attackOn [OF Cons.prems(3,4)])
  from attack_one [OF fc Cons.prems(1,2), of "options a" "snd p"]
  obtain st1 st2 where s: "GiveCommand env uid (attackOn env (options a) (snd p)) True st = Inr st1"
    "AddUnitSetMaxSpeedCommandNet env uid (options a) st1 = Inr st2"
    "gave env st (attackStep env uid mc (options a) (snd p)) st2" by blast
  let ?a2 = "(attackOn env (options a) (snd p))\<lparr>options := options (attackOn env (options a) (snd p)) OR SHIFT_KEY env\<rparr>"
  have a2: "cmdID ?a2 = CMD_ATTACK env" "length (params ?a2) = 1" "options ?a2 = options a"
    "options ?a2 OR SHIFT_KEY env = options ?a2"
    using Cons.prems(5) by (simp_all add: attackOn_def)
  from s(3) Cons.prems(1) have n2: "units st2 uid \<noteq> None" by (simp add: gave_units_None)
  have v2: "speedView env (units st2) uid = Some mc"
    using gave_speedView [OF fc s(3)] Cons.prems(2) by simp
  from Cons.IH [OF n2 v2 a2(1,2,4)]
  obtain st' a' where r: "attackTargets env False uid ?a2 ps st2 = Inr (st', a')"
    "gave env st2 (concat (map (attackStep env uid mc (options ?a2)) (map snd ps))) st'"
    "cmdID a' = CMD_ATTACK env" "length (params a') = 1" "options a' = options ?a2"
    by blast
  have run: "attackTargets env False uid a (p # ps) st = Inr (st', a')"
    using u s(1,2) r(1) by (simp add: st_eq Let_def attackOn_def)
  from gave_trans [OF s(3) r(2)]
  have "gave env st (concat (map (attackStep env uid mc (options a)) (map snd (p # ps)))) st'"
    unfolding a2(3) by simp
  with run r(3,4,5) a2(3) show ?case by auto
qed

lemma attackTargets_first:
  assumes fc: "fixedCapability env"
    and n: "units st uid \<noteq> None" and v: "speedView env (units st) uid = Some mc"
    and ai: "cmdID a = CMD_ATTACK env" and al: "length (params a) = 1"
  shows "\<exists>st' a'. attackTargets env False uid a ps st = Inr (st', a')
           \<and> gave env st (case map snd ps of [] \<Rightarrow> []
                 | t # ts \<Rightarrow> attackStep env uid mc (options a) t
                              @ concat (map (attackStep env uid mc (options a OR SHIFT_KEY env)) ts)) st'
           \<and> cmdID a' = CMD_ATTACK env \<and> length (params a') = 1
           \<and> options a' AND NOT (SHIFT_KEY env) = options a AND NOT (SHIFT_KEY env)"
proof (cases ps)
  case Nil
  with ai al show ?thesis by (simp add: gave_refl)
next
  case (Cons p ps')
  from n obtain u where u: "units st uid = Some u" by auto
  have st_eq: "setTarget a (snd p) = attackOn env (options a) (snd p)"
    by (rule setTarget_attackOn [OF ai al])
  from attack_one [OF fc n v, of "options a" "snd p"]
  obtain st1 st2 where s: "GiveCommand env uid (attackOn env (options a) (snd p)) True st = Inr st1"
    "AddUnitSetMaxSpeedCommandNet env uid (options a) st1 = Inr st2"
    "gave env st (attackStep env uid mc (options a) (snd p)) st2" by blast
  let ?a2 = "(attackOn env (options a) (snd p))\<lparr>options := options (attackOn env (options a) (snd p)) OR SHIFT_KEY env\<rparr>"
  have a2: "cmdID ?a2 = CMD_ATTACK env" "length (params ?a2) = 1"
    "options ?a2 = options a OR SHIFT_KEY env"
    "options ?a2 OR SHIFT_KEY env = options ?a2"
    by (simp_all add: attackOn_def or.assoc)
  from s(3) n have n2: "units st2 uid \<noteq> None" by (simp add: gave_units_None)
  have v2: "speedView env (units st2) uid = Some mc"
    using gave_speedView [OF fc s(3)] v by simp
  from attackTargets_queued [OF fc n2 v2 a2(1,2,4), of ps']
  obtain st' a' where r: "attackTargets env False uid ?a2 ps' st2 = Inr (st', a')"
    "gave env st2 (concat (map (attackStep env uid mc (options ?a2)) (map snd ps'))) st'"
    "cmdID a' = CMD_ATTACK env" "length (params a') = 1" "options a' = options ?a2"
    by blast
  have run: "attackTargets env False uid a ps st = Inr (st', a')"
    using Cons u s(1,2) r(1) by (simp add: st_eq Let_def attackOn_def)
  from gave_trans [OF s(3) r(2)] Cons
  have gv: "gave env st (case map snd ps of [] \<Rightarrow> []
                 | t # ts \<Rightarrow> attackStep env uid mc (options a) t
                              @ concat (map (attackStep env uid mc (options a OR SHIFT_KEY env)) ts)) st'"
    unfolding a2(3) by simp
  have "options a' AND NOT (SHIFT_KEY env) = options a AND NOT (SHIFT_KEY env)"
    unfolding r(5) a2(3) by (rule word_or_and_not)
  with run gv r(3,4) show ?thesis by blast
qed

lemma attackLoop_gave:
  assumes fc: "fixedCapability env"
  shows "cmdID a = CMD_ATTACK env \<Longrightarrow> length (params a) = 1 \<Longrightarrow>
         \<exists>st'. attackLoop env False a ps sel st = Inr st'
           \<and> gave env st (concat (map (attackBlock env (speedView env (units st))
                                        (options a AND NOT (SHIFT_KEY env)) (map snd ps)) sel)) st'"
proof (induction sel arbitrary: st a)
  case Nil
  show ?case by (simp add: gave_refl)
next
  case (Cons s sel)
  let ?a1 = "a\<lparr>options := options a AND NOT (SHIFT_KEY env)\<rparr>"
  have a1: "cmdID ?a1 = CMD_ATTACK env" "length (params ?a1) = 1"
    "options ?a1 = options a AND NOT (SHIFT_KEY env)"
    "options ?a1 AND NOT (SHIFT_KEY env) = options a AND NOT (SHIFT_KEY env)"
    using Cons.prems by (simp_all add: word_and_not_idem)
  show ?case
  proof (cases "units st s")
    case None
    then have b: "attackBlock env (speedView env (units st)) (options a AND NOT (SHIFT_KEY env)) (map snd ps) s = []"
      by (simp add: attackBlock_def speedView_def)
    from Cons.IH [OF a1(1,2), of st]
    obtain st' where r: "attackLoop env False ?a1 ps sel st = Inr st'"
      "gave env st (concat (map (attackBlock env (speedView env (units st))
                                   (options ?a1 AND NOT (SHIFT_KEY env)) (map snd ps)) sel)) st'"
      by blast
    from r(1) None have "attackLoop env False a ps (s # sel) st = Inr st'" by simp
    with r(2) b show ?thesis unfolding a1(4) by simp
  next
    case (Some u)
    then have n: "units st s \<noteq> None" by simp
    obtain mc where v: "speedView env (units st) s = Some mc"
      using Some by (simp add: speedView_def)
    from attackTargets_first [OF fc n v a1(1,2), of ps]
    obtain st1 a' where t: "attackTargets env False s ?a1 ps st = Inr (st1, a')"
      "gave env st (case map snd ps of [] \<Rightarrow> []
                 | t # ts \<Rightarrow> attackStep env s mc (options ?a1) t
                              @ concat (map (attackStep env s mc (options ?a1 OR SHIFT_KEY env)) ts)) st1"
      "cmdID a' = CMD_ATTACK env" "length (params a') = 1"
      "options a' AND NOT (SHIFT_KEY env) = options ?a1 AND NOT (SHIFT_KEY env)"
      by blast
    have b: "attackBlock env (speedView env (units st)) (options a AND NOT (SHIFT_KEY env)) (map snd ps) s
        = (case map snd ps of [] \<Rightarrow> []
                 | t # ts \<Rightarrow> attackStep env s mc (options ?a1) t
                              @ concat (map (attackStep env s mc (options ?a1 OR SHIFT_KEY env)) ts))"
      using v by (simp add: attackBlock_def split: list.splits)
    have v1: "speedView env (units st1) = speedView env (units st)"
      by (rule gave_speedView [OF fc t(2)])
    from Cons.IH [OF t(3,4), of st1]
    obtain st' where r: "attackLoop env False a' ps sel st1 = Inr st'"
      "gave env st1 (concat (map (attackBlock env (speedView env (units st))
                                   (options a AND NOT (SHIFT_KEY env)) (map snd ps)) sel)) st'"
      unfolding v1 t(5) a1(4) by blast
    have run: "attackLoop env False a ps (s # sel) st = Inr st'"
      using Some t(1) r(1) by simp
    from gave_trans [OF t(2) r(2)] run show ?thesis unfolding b [symmetric] by simp
  qed
qed

lemma midPosLoop_sum:
  "midPosLoop env st q sel acc n =
     (Float3 (f3x acc + sum_list (map f3x (unitPositions env st q sel)))
             (f3y acc + sum_list (map f3y (unitPositions env st q sel)))
             (f3z acc + sum_list (map f3z (unitPositions env st q sel))),
      n + length (unitPositions env st q sel))"
proof (induction sel arbitrary: acc n)
  case Nil
  show ?case by (simp add: unitPositions_def)
next
  case (Cons s sel)
  show ?case
  proof (cases "units st s")
    case None
    then show ?thesis using Cons.IH [of acc n] by (simp add: unitPositions_def)
  next
    case (Some u)
    then show ?thesis
      using Cons.IH [of "f3_add acc (if q then LastQueuePosition env u else midPos u)" "n + 1"]
      by (simp add: unitPositions_def f3_add_def add.assoc)
  qed
qed

lemma unitPositions_Nil_iff:
  "(unitPositions env st q sel = []) = (\<forall>s\<in>set sel. units st s = None)"
  by (induction sel) (auto simp: unitPositions_def split: option.splits)

lemma attackBlock_no_targets: "attackBlock env v opts [] uid = []"
  by (simp add: attackBlock_def split: option.splits)

lemma attackBlock_unresolved: "units st uid = None \<Longrightarrow> attackBlock env (speedView env (units st)) opts ts uid = []"
  by (simp add: attackBlock_def speedView_def)

text \<open>
  C3 (as amended). In an area attack with neither the queueing nor the control modifier,
  whose targets all resolve, every id of the selection that resolves receives, in selection
  order, one attack command per target, the targets in ascending order of their squared
  planar distance from the mean position of the selected units; for each unit the first
  attack command is not queued and every later one is queued; each attack command is
  followed by one speed-match order when the command AI of the unit can set a maximum
  speed, and by none otherwise. Nothing else is given.
\<close>

theorem SelectAttackNet_attack_sequence:
  assumes fc: "fixedCapability env"
    and nq: "options cmd AND SHIFT_KEY env = 0"
    and nc: "options cmd AND CONTROL_KEY env = 0"
    and tr: "\<forall>t\<in>set (targetsOf env cmd player). units st t \<noteq> None"
  shows "\<exists>st'. SelectAttackNet env cmd player st = Inr st'
           \<and> issued st' = issued st
               @ concat (map (attackBlock env (speedView env (units st)) (options cmd)
                                (rankedTargets st (meanPos (unitPositions env st False (netSelected env player)))
                                   (targetsOf env cmd player)))
                             (netSelected env player))"
proof -
  let ?sel = "netSelected env player"
  let ?ts = "targetsOf env cmd player"
  let ?ps = "unitPositions env st False ?sel"
  let ?mid = "meanPos ?ps"
  let ?B = "\<lambda>ts. concat (map (attackBlock env (speedView env (units st)) (options cmd) ts) ?sel)"
  consider (a) "?ts = []" | (b) "?ts \<noteq> []" "?ps = []" | (c) "?ts \<noteq> []" "?ps \<noteq> []"
    by blast
  then show ?thesis
  proof cases
    case a
    then have "SelectAttackNet env cmd player st = Inr st"
      by (simp add: SelectAttackNet_def Let_def)
    moreover from a have "?B (rankedTargets st ?mid ?ts) = []"
      by (simp add: rankedTargets_def attackBlock_no_targets)
    ultimately show ?thesis by simp
  next
    case b
    from b(2) have un: "\<forall>s\<in>set ?sel. units st s = None" by (simp add: unitPositions_Nil_iff)
    have m: "midPosLoop env st False ?sel ZeroVector 0 = (ZeroVector, 0)"
      unfolding midPosLoop_sum b(2) by (simp add: ZeroVector_def)
    have "SelectAttackNet env cmd player st = Inr st"
      using nq nc m by (simp add: SelectAttackNet_def Let_def)
    moreover have "?B (rankedTargets st ?mid ?ts) = []"
      using un by (simp add: attackBlock_unresolved)
    ultimately show ?thesis by simp
  next
    case c
    from c(2) have sel: "?sel \<noteq> []" by (auto simp: unitPositions_def)
    have m: "midPosLoop env st False ?sel ZeroVector 0
        = (Float3 (sum_list (map f3x ?ps)) (sum_list (map f3y ?ps)) (sum_list (map f3z ?ps)), length ?ps)"
      unfolding midPosLoop_sum by (simp add: ZeroVector_def)
    from c(2) have l: "real (length ?ps) \<noteq> 0" "length ?ps \<noteq> 0" by simp_all
    have d: "f3_div RealCount (Float3 (sum_list (map f3x ?ps)) (sum_list (map f3y ?ps)) (sum_list (map f3z ?ps)))
               (real (length ?ps)) = Inr ?mid"
      using l by (simp add: f3_div_def meanPos_def)
    have s: "sortTargets st ?mid ?ts = Inr (sort_key fst (map (\<lambda>t. (sqDist2D st ?mid t, t)) ?ts))"
      using targetPairs_resolved [OF tr, of ?mid] by (simp add: sortTargets_def stable_sort_idPair_def)
    have ca: "cmdID (Command1 (CMD_ATTACK env) (options cmd) 0) = CMD_ATTACK env"
      "length (params (Command1 (CMD_ATTACK env) (options cmd) 0)) = 1"
      "options (Command1 (CMD_ATTACK env) (options cmd) 0) AND NOT (SHIFT_KEY env) = options cmd"
      using word_and_zero_not [OF nq] by (simp_all add: Command1_def)
    from attackLoop_gave [OF fc ca(1,2), of "sort_key fst (map (\<lambda>t. (sqDist2D st ?mid t, t)) ?ts)" ?sel st]
    obtain st' where r: "attackLoop env False (Command1 (CMD_ATTACK env) (options cmd) 0)
        (sort_key fst (map (\<lambda>t. (sqDist2D st ?mid t, t)) ?ts)) ?sel st = Inr st'"
      "gave env st (?B (rankedTargets st ?mid ?ts)) st'"
      unfolding ca(3) rankedTargets_def by blast
    have "SelectAttackNet env cmd player st = Inr st'"
      using c(1) sel nq nc m l(2) d s r(1) by (simp add: SelectAttackNet_def Let_def)
    with r(2) show ?thesis by (simp add: gave_def)
  qed
qed

lemma example_targets: "targetsOf (example_env [1, 2, 3] example_found) example_attack 0 = [10, 11, 12]"
  by (simp add: targetsOf_def example_env_def example_found_def example_attack_def SelectCircleUnits_def
      example_units_def example_unit_def GetPos_def GetParam_def)

lemma example_attack_trace:
  "issued_of (SelectAttackNet (example_env [1, 2, 3] example_found) example_attack 0 (example_state example_units))
     = [(1, \<lparr>cmdID = 20, options = 0, params = [11]\<rparr>, True),
        (1, \<lparr>cmdID = 70, options = 0, params = [3]\<rparr>, True),
        (1, \<lparr>cmdID = 20, options = 32, params = [12]\<rparr>, True),
        (1, \<lparr>cmdID = 70, options = 32, params = [3]\<rparr>, True),
        (1, \<lparr>cmdID = 20, options = 32, params = [10]\<rparr>, True),
        (1, \<lparr>cmdID = 70, options = 32, params = [3]\<rparr>, True),
        (2, \<lparr>cmdID = 20, options = 0, params = [11]\<rparr>, True),
        (2, \<lparr>cmdID = 20, options = 32, params = [12]\<rparr>, True),
        (2, \<lparr>cmdID = 20, options = 32, params = [10]\<rparr>, True),
        (3, \<lparr>cmdID = 20, options = 0, params = [11]\<rparr>, True),
        (3, \<lparr>cmdID = 70, options = 0, params = [3]\<rparr>, True),
        (3, \<lparr>cmdID = 20, options = 32, params = [12]\<rparr>, True),
        (3, \<lparr>cmdID = 70, options = 32, params = [3]\<rparr>, True),
        (3, \<lparr>cmdID = 20, options = 32, params = [10]\<rparr>, True),
        (3, \<lparr>cmdID = 70, options = 32, params = [3]\<rparr>, True)]"
  unfolding issued_of_def SelectAttackNet_def example_targets
  by (simp add: example_env_def example_attack_def example_state_def
      example_units_def example_unit_def sortTargets_def stable_sort_idPair_def
      SqLength2D_def f3_sub_def f3_add_def f3_div_def ZeroVector_def Command1_def setTarget_def
      GiveCommand_def AddUnitSetMaxSpeedCommandNet_def Let_def)

theorem SelectAttackNet_attack_sequence_witness:
  "fixedCapability (example_env [1, 2, 3] example_found)
   \<and> options example_attack AND SHIFT_KEY (example_env [1, 2, 3] example_found) = 0
   \<and> options example_attack AND CONTROL_KEY (example_env [1, 2, 3] example_found) = 0
   \<and> list_all (\<lambda>t. units (example_state example_units) t \<noteq> None) (targetsOf (example_env [1, 2, 3] example_found) example_attack 0)
   \<and> (\<exists>st'. SelectAttackNet (example_env [1, 2, 3] example_found) example_attack 0 (example_state example_units) = Inr st'
         \<and> issued st' = [(1, \<lparr>cmdID = 20, options = 0, params = [11]\<rparr>, True),
        (1, \<lparr>cmdID = 70, options = 0, params = [3]\<rparr>, True),
        (1, \<lparr>cmdID = 20, options = 32, params = [12]\<rparr>, True),
        (1, \<lparr>cmdID = 70, options = 32, params = [3]\<rparr>, True),
        (1, \<lparr>cmdID = 20, options = 32, params = [10]\<rparr>, True),
        (1, \<lparr>cmdID = 70, options = 32, params = [3]\<rparr>, True),
        (2, \<lparr>cmdID = 20, options = 0, params = [11]\<rparr>, True),
        (2, \<lparr>cmdID = 20, options = 32, params = [12]\<rparr>, True),
        (2, \<lparr>cmdID = 20, options = 32, params = [10]\<rparr>, True),
        (3, \<lparr>cmdID = 20, options = 0, params = [11]\<rparr>, True),
        (3, \<lparr>cmdID = 70, options = 0, params = [3]\<rparr>, True),
        (3, \<lparr>cmdID = 20, options = 32, params = [12]\<rparr>, True),
        (3, \<lparr>cmdID = 70, options = 32, params = [3]\<rparr>, True),
        (3, \<lparr>cmdID = 20, options = 32, params = [10]\<rparr>, True),
        (3, \<lparr>cmdID = 70, options = 32, params = [3]\<rparr>, True)])"
proof -
  have h1: "fixedCapability (example_env [1, 2, 3] example_found)"
    by (simp add: fixedCapability_def example_env_def)
  have h2: "options example_attack AND SHIFT_KEY (example_env [1, 2, 3] example_found) = 0"
    by (simp add: example_attack_def)
  have h3: "options example_attack AND CONTROL_KEY (example_env [1, 2, 3] example_found) = 0"
    by (simp add: example_attack_def)
  have h4: "\<forall>t\<in>set (targetsOf (example_env [1, 2, 3] example_found) example_attack 0). units (example_state example_units) t \<noteq> None"
    unfolding example_targets by (simp add: example_state_def example_units_def)
  have l4: "list_all (\<lambda>t. units (example_state example_units) t \<noteq> None) (targetsOf (example_env [1, 2, 3] example_found) example_attack 0)"
    unfolding example_targets by (simp add: example_state_def example_units_def)
  from SelectAttackNet_attack_sequence [OF h1 h2 h3 h4]
  obtain st' where r: "SelectAttackNet (example_env [1, 2, 3] example_found) example_attack 0 (example_state example_units) = Inr st'"
    by blast
  with example_attack_trace have "issued st' = [(1, \<lparr>cmdID = 20, options = 0, params = [11]\<rparr>, True),
        (1, \<lparr>cmdID = 70, options = 0, params = [3]\<rparr>, True),
        (1, \<lparr>cmdID = 20, options = 32, params = [12]\<rparr>, True),
        (1, \<lparr>cmdID = 70, options = 32, params = [3]\<rparr>, True),
        (1, \<lparr>cmdID = 20, options = 32, params = [10]\<rparr>, True),
        (1, \<lparr>cmdID = 70, options = 32, params = [3]\<rparr>, True),
        (2, \<lparr>cmdID = 20, options = 0, params = [11]\<rparr>, True),
        (2, \<lparr>cmdID = 20, options = 32, params = [12]\<rparr>, True),
        (2, \<lparr>cmdID = 20, options = 32, params = [10]\<rparr>, True),
        (3, \<lparr>cmdID = 20, options = 0, params = [11]\<rparr>, True),
        (3, \<lparr>cmdID = 70, options = 0, params = [3]\<rparr>, True),
        (3, \<lparr>cmdID = 20, options = 32, params = [12]\<rparr>, True),
        (3, \<lparr>cmdID = 70, options = 32, params = [3]\<rparr>, True),
        (3, \<lparr>cmdID = 20, options = 32, params = [10]\<rparr>, True),
        (3, \<lparr>cmdID = 70, options = 32, params = [3]\<rparr>, True)]"
    by (simp add: issued_of_def)
  with r h1 h2 h3 l4 show ?thesis by blast
qed

text \<open>
  The claim as stated fails: the first attack command given to unit 2, and the one given to
  unit 3, are not queued although attack commands were given before them; and no
  speed-match order follows the attack commands given to unit 2, a building.
\<close>

theorem SelectAttackNet_queueing_counterexample:
  "issued_of (SelectAttackNet (example_env [1, 2, 3] example_found) example_attack 0 (example_state example_units))
     = [(1, \<lparr>cmdID = 20, options = 0, params = [11]\<rparr>, True),
        (1, \<lparr>cmdID = 70, options = 0, params = [3]\<rparr>, True),
        (1, \<lparr>cmdID = 20, options = 32, params = [12]\<rparr>, True),
        (1, \<lparr>cmdID = 70, options = 32, params = [3]\<rparr>, True),
        (1, \<lparr>cmdID = 20, options = 32, params = [10]\<rparr>, True),
        (1, \<lparr>cmdID = 70, options = 32, params = [3]\<rparr>, True),
        (2, \<lparr>cmdID = 20, options = 0, params = [11]\<rparr>, True),
        (2, \<lparr>cmdID = 20, options = 32, params = [12]\<rparr>, True),
        (2, \<lparr>cmdID = 20, options = 32, params = [10]\<rparr>, True),
        (3, \<lparr>cmdID = 20, options = 0, params = [11]\<rparr>, True),
        (3, \<lparr>cmdID = 70, options = 0, params = [3]\<rparr>, True),
        (3, \<lparr>cmdID = 20, options = 32, params = [12]\<rparr>, True),
        (3, \<lparr>cmdID = 70, options = 32, params = [3]\<rparr>, True),
        (3, \<lparr>cmdID = 20, options = 32, params = [10]\<rparr>, True),
        (3, \<lparr>cmdID = 70, options = 32, params = [3]\<rparr>, True)]
   \<and> \<not> firstOnlyUnqueued (example_env [1, 2, 3] example_found) (issued_of (SelectAttackNet (example_env [1, 2, 3] example_found) example_attack 0 (example_state example_units)))
   \<and> \<not> attacksFollowedBySpeedMatch (example_env [1, 2, 3] example_found) (issued_of (SelectAttackNet (example_env [1, 2, 3] example_found) example_attack 0 (example_state example_units)))"
  unfolding example_attack_trace
  by (simp add: firstOnlyUnqueued_def example_env_def)

subsection \<open>Faults of the dispatch and of the target assignment\<close>

lemma GiveCommand_fault: "GiveCommand env uid c b st = Inl e \<Longrightarrow> e = NullUnit"
  by (simp add: GiveCommand_def split: option.splits)
















subsection \<open>Faults of the formation builder\<close>

lemma MoveToPos_null_frontcmds:
  "\<exists>p nl. MoveToPos env st np fdir unit c None = Inr (p, None, nl)"
  by (simp add: MoveToPos_def Let_def)

lemma MoveToPos_unresolved:
  "\<exists>p nl. MoveToPos env st np fdir None c (Some fcs) = Inr (p, Some fcs, nl)"
  by (simp add: MoveToPos_def Let_def)

lemma MoveToPos_resolved:
  assumes "f3y fdir \<noteq> 0"
  shows "\<exists>p x nl. MoveToPos env st np fdir (Some u) c (Some fcs) = Inr (p, Some (fcs @ [x]), nl)"
  using assms by (simp add: MoveToPos_def Let_def fdiv_def)

lemma MoveToPos_fault:
  "MoveToPos env st np fdir unit c fo = Inl e \<Longrightarrow> e = DivByZero FormationDirY \<and> f3y fdir = 0"
  by (simp add: MoveToPos_def Let_def fdiv_def split: option.splits if_splits)

lemma formationLoop_unfold:
  assumes "f3y fdir \<noteq> 0"
  shows "\<exists>np' fcs' b.
           (case units st (snd su) of None \<Rightarrow> fcs' = fcs | Some u \<Rightarrow> (\<exists>x. fcs' = fcs @ [x]))
           \<and> (b \<longrightarrow> rest \<noteq> [])
           \<and> formationLoop env c fdir (su # rest) np groups fcs st =
               (if b then formationLoop env c fdir rest np' (addToUnitGroups groups su) fcs' st
                else (case flushRow env (addToUnitGroups groups su) fcs' st of
                        Inl e \<Rightarrow> Inl e
                      | Inr st' \<Rightarrow> formationLoop env c fdir rest np' [] [] st'))"
proof -
  obtain np' fcs' nl where m1: "MoveToPos env st np fdir (units st (snd su)) c (Some fcs) = Inr (np', Some fcs', nl)"
    and f: "case units st (snd su) of None \<Rightarrow> fcs' = fcs | Some u \<Rightarrow> (\<exists>x. fcs' = fcs @ [x])"
  proof (cases "units st (snd su)")
    case None
    with MoveToPos_unresolved [of env st np fdir c fcs] that show ?thesis by auto
  next
    case (Some u)
    with MoveToPos_resolved [OF assms, of env st np u c fcs] that show ?thesis by auto
  qed
  obtain p2 nl2 where m2: "MoveToPos env st np' fdir (units st (snd su)) c None = Inr (p2, None, nl2)"
    using MoveToPos_null_frontcmds [of env st np' fdir "units st (snd su)" c] by blast
  have eq: "formationLoop env c fdir (su # rest) np groups fcs st =
               (if (rest \<noteq> [] \<and> \<not> nl2) then formationLoop env c fdir rest np' (addToUnitGroups groups su) fcs' st
                else (case flushRow env (addToUnitGroups groups su) fcs' st of
                        Inl e \<Rightarrow> Inl e
                      | Inr st' \<Rightarrow> formationLoop env c fdir rest np' [] [] st'))"
    by (simp add: m1 m2 Let_def)
  show ?thesis
    apply (rule exI [of _ np'], rule exI [of _ fcs'], rule exI [of _ "rest \<noteq> [] \<and> \<not> nl2"])
    apply (intro conjI)
      apply (rule f)
     apply simp
    apply (rule eq)
    done
qed

lemma bestGroup_Inr: "\<exists>r. bestGroup groups sizes idxs bn bv = Inr r"
proof (induction idxs arbitrary: bn bv)
  case Nil
  show ?case by simp
next
  case (Cons i idxs)
  show ?case
  proof (cases "sizes ! i \<ge> length (snd (groups ! i))")
    case True
    with Cons.IH [of bn bv] show ?thesis by (simp add: Let_def)
  next
    case False
    then have "real (length (snd (groups ! i))) \<noteq> 0" by auto
    with False Cons.IH [of bn bv]
      Cons.IH [of i "(0.5 + real (sizes ! i)) / (1 * real (length (snd (groups ! i))))"]
    show ?thesis by (simp add: Let_def fdiv_def)
  qed
qed

lemma mixLoop_fault: "mixLoop n groups sizes mixed = Inl e \<Longrightarrow> e = OutOfRange"
proof (induction n arbitrary: sizes mixed)
  case 0
  then show ?case by simp
next
  case (Suc n)
  obtain b v where bg: "bestGroup groups sizes [0..<length groups] 0 1 = Inr (b, v)"
    using bestGroup_Inr [of groups sizes "[0..<length groups]" 0 1] by (metis surj_pair)
  show ?case
  proof (cases "b \<ge> length sizes \<or> b \<ge> length groups \<or> sizes ! b \<ge> length (snd (groups ! b))")
    case True
    with Suc.prems bg show ?thesis by (auto simp: Let_def split: if_splits)
  next
    case False
    with Suc.prems bg
    have "mixLoop n groups (sizes[b := sizes ! b + 1]) (mixed @ [snd (groups ! b) ! (sizes ! b)]) = Inl e"
      by (simp add: Let_def)
    then show ?thesis by (rule Suc.IH)
  qed
qed

lemma giveRow_fault: "giveRow env fcs mixed st = Inl e \<Longrightarrow> e = NullUnit \<or> e = OutOfRange"
proof (induction fcs arbitrary: mixed st)
  case Nil
  then show ?case by simp
next
  case (Cons fc fcs)
  show ?case
  proof (cases mixed)
    case Nil
    with Cons.prems show ?thesis by simp
  next
    case (Cons m ms)
    show ?thesis
    proof (cases "GiveCommand env m (snd fc) False st")
      case (Inl e')
      with Cons.prems Cons have "e = e'" by simp
      with Inl show ?thesis by (auto dest: GiveCommand_fault)
    next
      case (Inr st1)
      with Cons.prems Cons have "giveRow env fcs ms st1 = Inl e" by simp
      then show ?thesis by (rule Cons.IH)
    qed
  qed
qed

lemma flushRow_fault: "flushRow env groups fcs st = Inl e \<Longrightarrow> e = NullUnit \<or> e = OutOfRange"
  by (auto simp: flushRow_def split: sum.splits prod.splits dest: mixLoop_fault giveRow_fault simp: mixUnits_def)

lemma formationLoop_fault:
  assumes "f3y fdir \<noteq> 0"
  shows "formationLoop env c fdir pairs np groups fcs st = Inl e \<Longrightarrow> e = NullUnit \<or> e = OutOfRange"
proof (induction pairs arbitrary: np groups fcs st)
  case Nil
  then show ?case by simp
next
  case (Cons su rest)
  from formationLoop_unfold [OF assms, where st=st and su=su and fcs=fcs and env=env and c=c
      and rest=rest and np=np and groups=groups]
  obtain np' fcs' b where u: "formationLoop env c fdir (su # rest) np groups fcs st =
               (if b then formationLoop env c fdir rest np' (addToUnitGroups groups su) fcs' st
                else (case flushRow env (addToUnitGroups groups su) fcs' st of
                        Inl e \<Rightarrow> Inl e
                      | Inr st' \<Rightarrow> formationLoop env c fdir rest np' [] [] st'))"
    by blast
  show ?case
  proof (cases b)
    case True
    with u Cons.prems have "formationLoop env c fdir rest np' (addToUnitGroups groups su) fcs' st = Inl e"
      by simp
    then show ?thesis by (rule Cons.IH)
  next
    case False
    show ?thesis
    proof (cases "flushRow env (addToUnitGroups groups su) fcs' st")
      case (Inl e')
      with u False Cons.prems have "e = e'" by simp
      with Inl show ?thesis by (auto dest: flushRow_fault)
    next
      case (Inr st')
      with u False Cons.prems have "formationLoop env c fdir rest np' [] [] st' = Inl e" by simp
      then show ?thesis by (rule Cons.IH)
    qed
  qed
qed

lemma CreateUnitOrder_loop_fault: "CreateUnitOrder_loop st ids out = Inl e \<Longrightarrow> e = DivByZero Health"
proof (induction ids arbitrary: out)
  case Nil
  then show ?case by simp
next
  case (Cons uid ids)
  show ?case
  proof (cases "units st uid")
    case None
    with Cons show ?thesis by simp
  next
    case (Some u)
    show ?thesis
    proof (cases "health (unitDef u) = 0")
      case True
      with Cons.prems Some show ?thesis by (simp add: Let_def fdiv_def)
    next
      case False
      with Cons.prems Some
      have "CreateUnitOrder_loop st ids
              (out @ [((metal (unitDef u) * 60 + energy (unitDef u)) / health (unitDef u)
                        * (if maxRange u < 1 then 2000 else maxRange u), uid)]) = Inl e"
        by (simp add: Let_def fdiv_def)
      then show ?thesis by (rule Cons.IH)
    qed
  qed
qed

lemma CreateUnitOrder_fault: "CreateUnitOrder env st player = Inl e \<Longrightarrow> e = DivByZero Health"
  by (auto simp: CreateUnitOrder_def split: sum.splits dest: CreateUnitOrder_loop_fault)

lemma formationSideDir_y: "f3y (formationSideDir_of centerPos rightPos frontLength) = frontLength * 0.5"
  by (simp add: formationSideDir_of_def f3_add_def f3_mul_def f3_sub_def f3_scale_def XZVector_def UpVector_def)

text \<open>The state in which the loop over the sorted units starts, when the front is long enough.\<close>

lemma MakeFormationFrontOrder_long_front:
  assumes "\<not> distance (GetPos c 0) (GetPos c 3) < real (length (netSelected env player) + 33)"
  shows "(MakeFormationFrontOrder env c player st = Inl (DivByZero SelectionMinusOne)
          \<and> size_minus_one (length (netSelected env player)) = 0)
       \<or> (\<exists>st2. units st2 = units st \<and> issued st2 = issued st \<and> rowLog st2 = rowLog st
             \<and> (case CreateUnitOrder env st2 player of
                   Inl e \<Rightarrow> MakeFormationFrontOrder env c player st = Inl e
                 | Inr pairs \<Rightarrow>
                     MakeFormationFrontOrder env c player st
                       = formationLoop env c
                           (formationSideDir_of (GetPos c 0) (GetPos c 3) (distance (GetPos c 0) (GetPos c 3) * 2))
                           pairs ZeroVector [] [] st2))"
proof -
  define st1 where "st1 = st\<lparr>formationCenterPos := GetPos c 0, formationRightPos := GetPos c 3,
                            groupFrontLength := distance (GetPos c 0) (GetPos c 3) * 2, groupAddedSpace := 0\<rparr>"
  define big where "big = (groupFrontLength st1 > groupSumLength st1 * 2 * real_of_int (SQUARE_SIZE env))"
  define num where "num = groupFrontLength st1 - groupSumLength st1 * 2 * real_of_int (SQUARE_SIZE env)"
  define d where "d = real (size_minus_one (length (netSelected env player)))"
  define inner where "inner = (if big then (case fdiv SelectionMinusOne num d of
                                              Inl e \<Rightarrow> Inl e
                                            | Inr space \<Rightarrow> Inr (st1\<lparr>groupAddedSpace := space\<rparr>))
                               else Inr st1)"
  define rest where "rest = (\<lambda>st2. case CreateUnitOrder env st2 player of
                            Inl e \<Rightarrow> Inl e
                          | Inr pairs \<Rightarrow> formationLoop env c
                              (formationSideDir_of (formationCenterPos st2) (formationRightPos st2) (groupFrontLength st2))
                              pairs ZeroVector [] [] st2)"
  have unfold: "MakeFormationFrontOrder env c player st = (case inner of Inl e \<Rightarrow> Inl e | Inr st2 \<Rightarrow> rest st2)"
    unfolding MakeFormationFrontOrder_def Let_def inner_def rest_def big_def num_def d_def st1_def
    using assms by (simp cong: sum.case_cong)
  have s1: "units st1 = units st" "issued st1 = issued st" "rowLog st1 = rowLog st"
    "formationCenterPos st1 = GetPos c 0" "formationRightPos st1 = GetPos c 3"
    "groupFrontLength st1 = distance (GetPos c 0) (GetPos c 3) * 2"
    by (simp_all add: st1_def)
  consider (f) "inner = Inl (DivByZero SelectionMinusOne)" "d = 0"
    | (s) st2 where "inner = Inr st2" "units st2 = units st" "issued st2 = issued st" "rowLog st2 = rowLog st"
        "formationCenterPos st2 = GetPos c 0" "formationRightPos st2 = GetPos c 3"
        "groupFrontLength st2 = distance (GetPos c 0) (GetPos c 3) * 2"
  proof (cases big)
    case False
    then have "inner = Inr st1" by (simp add: inner_def)
    with s1 s show ?thesis by blast
  next
    case True
    show ?thesis
    proof (cases "d = 0")
      case True
      with \<open>big\<close> have "inner = Inl (DivByZero SelectionMinusOne)" by (simp add: inner_def fdiv_def)
      with f True show ?thesis by blast
    next
      case False
      with \<open>big\<close> have "inner = Inr (st1\<lparr>groupAddedSpace := num / d\<rparr>)" by (simp add: inner_def fdiv_def)
      moreover have "units (st1\<lparr>groupAddedSpace := num / d\<rparr>) = units st"
        "issued (st1\<lparr>groupAddedSpace := num / d\<rparr>) = issued st"
        "rowLog (st1\<lparr>groupAddedSpace := num / d\<rparr>) = rowLog st"
        "formationCenterPos (st1\<lparr>groupAddedSpace := num / d\<rparr>) = GetPos c 0"
        "formationRightPos (st1\<lparr>groupAddedSpace := num / d\<rparr>) = GetPos c 3"
        "groupFrontLength (st1\<lparr>groupAddedSpace := num / d\<rparr>) = distance (GetPos c 0) (GetPos c 3) * 2"
        using s1 by simp_all
      ultimately show ?thesis using s by blast
    qed
  qed
  then show ?thesis
  proof cases
    case f
    with unfold show ?thesis by (simp add: d_def)
  next
    case s
    from unfold s(1) have "MakeFormationFrontOrder env c player st = rest st2" by simp
    then have "case CreateUnitOrder env st2 player of
                   Inl e \<Rightarrow> MakeFormationFrontOrder env c player st = Inl e
                 | Inr pairs \<Rightarrow>
                     MakeFormationFrontOrder env c player st
                       = formationLoop env c
                           (formationSideDir_of (GetPos c 0) (GetPos c 3) (distance (GetPos c 0) (GetPos c 3) * 2))
                           pairs ZeroVector [] [] st2"
      unfolding rest_def s(5,6,7) by (simp split: sum.splits)
    with s(2,3,4) show ?thesis by blast
  qed
qed

lemma long_front_dir:
  assumes "\<not> distance (GetPos c 0) (GetPos c 3) < real (length (netSelected env player) + 33)"
  shows "f3y (formationSideDir_of (GetPos c 0) (GetPos c 3) (distance (GetPos c 0) (GetPos c 3) * 2))
           = distance (GetPos c 0) (GetPos c 3)"
    and "distance (GetPos c 0) (GetPos c 3) \<ge> real (length (netSelected env player) + 33)"
    and "f3y (formationSideDir_of (GetPos c 0) (GetPos c 3) (distance (GetPos c 0) (GetPos c 3) * 2)) > 0"
  using assms by (simp_all add: formationSideDir_y)

lemma CreateUnitOrder_health:
  assumes "CreateUnitOrder env st player = Inl e"
  shows "e = DivByZero Health
       \<and> (\<exists>uid\<in>set (netSelected env player). \<exists>u. units st uid = Some u \<and> health (unitDef u) = 0)"
proof -
  have "\<exists>uid\<in>set (netSelected env player). \<exists>u. units st uid = Some u \<and> health (unitDef u) = 0"
  proof (rule ccontr)
    assume "\<not> (\<exists>uid\<in>set (netSelected env player). \<exists>u. units st uid = Some u \<and> health (unitDef u) = 0)"
    then have "\<forall>uid\<in>set (netSelected env player). \<forall>u. units st uid = Some u \<longrightarrow> health (unitDef u) \<noteq> 0"
      by blast
    from CreateUnitOrder_loop_ranked [OF this, of "[]"] assms show False
      by (simp add: CreateUnitOrder_def)
  qed
  with CreateUnitOrder_fault [OF assms] show ?thesis ..
qed

lemma MakeFormationFrontOrder_fault:
  assumes "MakeFormationFrontOrder env c player st = Inl e"
  shows "e = NullUnit \<or> e = OutOfRange
       \<or> (e = DivByZero SelectionMinusOne \<and> size_minus_one (length (netSelected env player)) = 0)
       \<or> (e = DivByZero Health
           \<and> (\<exists>uid\<in>set (netSelected env player). \<exists>u. units st uid = Some u \<and> health (unitDef u) = 0))"
proof (cases "distance (GetPos c 0) (GetPos c 3) < real (length (netSelected env player) + 33)")
  case True
  from standardMoveLoop_issued [of env c "netSelected env player"
      "st\<lparr>formationCenterPos := GetPos c 0, formationRightPos := GetPos c 3\<rparr>"] True assms
  show ?thesis by (auto simp: MakeFormationFrontOrder_def Let_def)
next
  case False
  from long_front_dir(3) [OF False]
  have y: "f3y (formationSideDir_of (GetPos c 0) (GetPos c 3) (distance (GetPos c 0) (GetPos c 3) * 2)) \<noteq> 0"
    by simp
  from MakeFormationFrontOrder_long_front [OF False, of st]
  show ?thesis
  proof
    assume "MakeFormationFrontOrder env c player st = Inl (DivByZero SelectionMinusOne)
          \<and> size_minus_one (length (netSelected env player)) = 0"
    with assms show ?thesis by simp
  next
    assume "\<exists>st2. units st2 = units st \<and> issued st2 = issued st \<and> rowLog st2 = rowLog st
             \<and> (case CreateUnitOrder env st2 player of
                   Inl e \<Rightarrow> MakeFormationFrontOrder env c player st = Inl e
                 | Inr pairs \<Rightarrow>
                     MakeFormationFrontOrder env c player st
                       = formationLoop env c
                           (formationSideDir_of (GetPos c 0) (GetPos c 3) (distance (GetPos c 0) (GetPos c 3) * 2))
                           pairs ZeroVector [] [] st2)"
    then obtain st2 where u: "units st2 = units st"
      and s: "case CreateUnitOrder env st2 player of
                   Inl e \<Rightarrow> MakeFormationFrontOrder env c player st = Inl e
                 | Inr pairs \<Rightarrow>
                     MakeFormationFrontOrder env c player st
                       = formationLoop env c
                           (formationSideDir_of (GetPos c 0) (GetPos c 3) (distance (GetPos c 0) (GetPos c 3) * 2))
                           pairs ZeroVector [] [] st2"
      by blast
    show ?thesis
    proof (cases "CreateUnitOrder env st2 player")
      case (Inl e')
      with s assms have "e = e'" by simp
      with CreateUnitOrder_health [OF Inl] u show ?thesis by simp
    next
      case (Inr pairs)
      with s assms have "formationLoop env c
                           (formationSideDir_of (GetPos c 0) (GetPos c 3) (distance (GetPos c 0) (GetPos c 3) * 2))
                           pairs ZeroVector [] [] st2 = Inl e" by simp
      from formationLoop_fault [OF y this] show ?thesis by auto
    qed
  qed
qed

subsection \<open>Divisions\<close>

lemma CalculateGroupData_cases:
  "(netSelected env player = [] \<and> CalculateGroupData env player q st = Inl (DivByZero GroupSize))
   \<or> (netSelected env player \<noteq> [] \<and>
       (\<exists>st'. CalculateGroupData env player q st = Inr st'
           \<and> units st' = units st \<and> issued st' = issued st \<and> rowLog st' = rowLog st))"
proof -
  obtain sumCoor minCoor maxCoor mobileSumCoor mobileUnits gsl gmms
    where l: "CalculateGroupData_loop env st q (netSelected env player)
                (ZeroVector, f3_scale OnesVector 100000, f3_scale (f3_scale OnesVector (-1)) 100000,
                 ZeroVector, 0, 0, 1000000000)
              = (sumCoor, minCoor, maxCoor, mobileSumCoor, mobileUnits, gsl, gmms)"
    by (metis prod_cases7)
  show ?thesis
  proof (cases "netSelected env player = []")
    case True
    then show ?thesis by (simp add: CalculateGroupData_def Let_def fdiv_def)
  next
    case False
    then have n: "real (length (netSelected env player)) \<noteq> 0" by simp
    show ?thesis
    proof (cases "mobileUnits > 0")
      case True
      then have "real_of_int mobileUnits \<noteq> 0" by simp
      with l n True False show ?thesis
        by (simp add: CalculateGroupData_def Let_def fdiv_def f3_div_def)
    next
      case False
      with l n \<open>netSelected env player \<noteq> []\<close> show ?thesis
        by (simp add: CalculateGroupData_def Let_def fdiv_def f3_div_def)
    qed
  qed
qed


lemma CalculateGroupData_units: "CalculateGroupData env player q st = Inr st1 \<Longrightarrow> units st1 = units st"
  using CalculateGroupData_cases [of env player q st] by auto






text \<open>
  C10. When the short-front fallback is not taken, the y component of the direction
  passed to MoveToPos is the distance of the two points of the front, which is at least
  the selection size plus 33 and so positive; MakeFormationFrontOrder never divides by a
  zero \<^verbatim>\<open>formationDir.y\<close>.
\<close>

theorem formationDir_y_positive:
  assumes "\<not> distance (GetPos c 0) (GetPos c 3) < real (length (netSelected env player) + 33)"
  shows "f3y (formationSideDir_of (GetPos c 0) (GetPos c 3) (distance (GetPos c 0) (GetPos c 3) * 2))
           = distance (GetPos c 0) (GetPos c 3)
       \<and> real (length (netSelected env player) + 33)
           \<le> f3y (formationSideDir_of (GetPos c 0) (GetPos c 3) (distance (GetPos c 0) (GetPos c 3) * 2))
       \<and> 0 < f3y (formationSideDir_of (GetPos c 0) (GetPos c 3) (distance (GetPos c 0) (GetPos c 3) * 2))
       \<and> MakeFormationFrontOrder env c player st \<noteq> Inl (DivByZero FormationDirY)"
proof -
  have "MakeFormationFrontOrder env c player st \<noteq> Inl (DivByZero FormationDirY)"
    by (auto dest: MakeFormationFrontOrder_fault)
  with long_front_dir [OF assms] show ?thesis by simp
qed

theorem formationDir_y_positive_witness:
  "\<not> distance (GetPos example_front 0) (GetPos example_front 3)
       < real (length (netSelected (example_env [1, 2, 3] example_found) 0) + 33)
   \<and> f3y (formationSideDir_of (GetPos example_front 0) (GetPos example_front 3)
            (distance (GetPos example_front 0) (GetPos example_front 3) * 2)) = 100
   \<and> MakeFormationFrontOrder (example_env [1, 2, 3] example_found) example_front 0 (example_state example_units)
       \<noteq> Inl (DivByZero FormationDirY)"
proof -
  have s: "sqrt 10000 = 100"
    using real_sqrt_abs [of 100] by simp
  have d: "distance (GetPos example_front 0) (GetPos example_front 3) = 100"
    by (simp add: distance_def GetPos_def GetParam_def example_front_def s)
  have h: "\<not> distance (GetPos example_front 0) (GetPos example_front 3)
       < real (length (netSelected (example_env [1, 2, 3] example_found) 0) + 33)"
    unfolding d by (simp add: example_env_def)
  from formationDir_y_positive [OF h, of "example_state example_units"] h d
  show ?thesis by simp
qed

subsection \<open>The group center with a stale id\<close>

text \<open>
  C5 (defect). With a selection of unit 2 (a building at x = 10) and the stale id 4, no
  unit is mobile and CalculateGroupData divides the sum of the positions of the units that
  resolve by the number of ids: the center is at x = 5, while the mean position of the
  units of the selection is at x = 10.
\<close>

theorem CalculateGroupData_stale_id_center:
  "map_sum id groupCenterCoor
      (CalculateGroupData (example_env [2, 4] example_found) 0 False (example_state example_units))
     = Inr (Float3 5 0 0)
   \<and> meanPos (unitPositions (example_env [2, 4] example_found) (example_state example_units) False [2, 4])
     = Float3 10 0 0"
proof -
  have a: "map_sum id groupCenterCoor
      (CalculateGroupData (example_env [2, 4] example_found) 0 False (example_state example_units))
     = Inr (Float3 5 0 0)"
    by (simp add: CalculateGroupData_def Let_def fdiv_def f3_div_def f3_add_def f3_min_def f3_max_def
        f3_scale_def ZeroVector_def OnesVector_def example_env_def example_state_def example_units_def
        example_unit_def)
  have b: "meanPos (unitPositions (example_env [2, 4] example_found) (example_state example_units) False [2, 4])
     = Float3 10 0 0"
    by (simp add: meanPos_def unitPositions_def example_state_def example_units_def example_unit_def)
  from a b show ?thesis by simp
qed

subsection \<open>Mixing the units of a row\<close>

lemma taken_zero: "taken groups (replicate (length groups) 0) = []"
  by (induction groups) (auto simp: taken_def)

lemma taken_full: "taken groups (bucketSizes groups) = bucketUnits groups"
  by (induction groups) (auto simp: taken_def bucketSizes_def bucketUnits_def)

lemma length_bucketUnits: "length (bucketUnits groups) = sum_list (bucketSizes groups)"
  by (induction groups) (auto simp: bucketSizes_def bucketUnits_def)

lemma taken_step:
  "length sizes = length groups \<Longrightarrow> b < length groups \<Longrightarrow> sizes ! b < length (snd (groups ! b)) \<Longrightarrow>
   mset (taken groups (sizes[b := sizes ! b + 1]))
     = mset (taken groups sizes) + {#snd (groups ! b) ! (sizes ! b)#}"
proof (induction groups arbitrary: sizes b)
  case Nil
  then show ?case by simp
next
  case (Cons g groups)
  from Cons.prems(1) obtain s ss where ss: "sizes = s # ss" "length ss = length groups"
    by (cases sizes) auto
  show ?case
  proof (cases b)
    case 0
    with Cons.prems ss have "s < length (snd g)" by simp
    then have "take (Suc s) (snd g) = take s (snd g) @ [snd g ! s]"
      by (rule take_Suc_conv_app_nth)
    with 0 ss show ?thesis by (simp add: taken_def)
  next
    case (Suc b')
    with Cons.prems ss have "b' < length groups" "ss ! b' < length (snd (groups ! b'))" by simp_all
    from Cons.IH [OF ss(2) this] Suc ss show ?thesis by (simp add: taken_def)
  qed
qed

lemma sizes_full:
  "length sizes = length groups \<Longrightarrow> \<forall>i<length groups. sizes ! i \<le> length (snd (groups ! i)) \<Longrightarrow>
   sum_list sizes = sum_list (bucketSizes groups) \<Longrightarrow> sizes = bucketSizes groups"
proof (induction groups arbitrary: sizes)
  case Nil
  then show ?case by (simp add: bucketSizes_def)
next
  case (Cons g groups)
  from Cons.prems(1) obtain s ss where ss: "sizes = s # ss" "length ss = length groups"
    by (cases sizes) auto
  from Cons.prems(2) ss have le: "s \<le> length (snd g)" "\<forall>i<length groups. ss ! i \<le> length (snd (groups ! i))"
    by auto
  have sl: "sum_list ss \<le> sum_list (bucketSizes groups)"
    using ss(2) le(2)
  proof (induction groups arbitrary: ss)
    case Nil
    then show ?case by simp
  next
    case (Cons h hs)
    from Cons.prems(1) obtain t ts where ts: "ss = t # ts" "length ts = length hs" by (cases ss) auto
    from Cons.prems(2) ts have "t \<le> length (snd h)" "\<forall>i<length hs. ts ! i \<le> length (snd (hs ! i))"
      by auto
    with Cons.IH [OF ts(2)] ts show ?case by (simp add: bucketSizes_def)
  qed
  from Cons.prems(3) ss have "s + sum_list ss = length (snd g) + sum_list (bucketSizes groups)"
    by (simp add: bucketSizes_def)
  with le(1) sl have e: "s = length (snd g)" "sum_list ss = sum_list (bucketSizes groups)" by auto
  from Cons.IH [OF ss(2) le(2) e(2)] e(1) ss show ?case by (simp add: bucketSizes_def)
qed

lemma fill_ratio_below_one:
  "cur < maxSize \<Longrightarrow> (0.5 + real cur) / (1 * real maxSize) < 1"
  by simp

lemma bestGroup_spec:
  "bestGroup groups sizes idxs bn bv = Inr (b, v) \<Longrightarrow>
     (b = bn \<and> v = bv
        \<and> (\<forall>i\<in>set idxs. sizes ! i < length (snd (groups ! i))
              \<longrightarrow> bv \<le> (0.5 + real (sizes ! i)) / (1 * real (length (snd (groups ! i))))))
     \<or> (b \<in> set idxs \<and> sizes ! b < length (snd (groups ! b)) \<and> v < bv)"
proof (induction idxs arbitrary: bn bv)
  case Nil
  then show ?case by simp
next
  case (Cons i idxs)
  let ?r = "(0.5 + real (sizes ! i)) / (1 * real (length (snd (groups ! i))))"
  show ?case
  proof (cases "sizes ! i \<ge> length (snd (groups ! i))")
    case True
    with Cons.prems have "bestGroup groups sizes idxs bn bv = Inr (b, v)" by (simp add: Let_def)
    from Cons.IH [OF this] True show ?thesis by auto
  next
    case False
    then have nz: "real (length (snd (groups ! i))) \<noteq> 0" by auto
    show ?thesis
    proof (cases "?r \<ge> bv")
      case True
      with Cons.prems False nz have "bestGroup groups sizes idxs bn bv = Inr (b, v)"
        by (simp add: Let_def fdiv_def)
      from Cons.IH [OF this] True show ?thesis by auto
    next
      case lt: False
      with Cons.prems False nz have "bestGroup groups sizes idxs i ?r = Inr (b, v)"
        by (simp add: Let_def fdiv_def)
      from Cons.IH [OF this] False lt show ?thesis by auto
    qed
  qed
qed

lemma bestGroup_unexhausted:
  assumes "bestGroup groups sizes [0..<length groups] 0 1 = Inr (b, v)"
    and "\<exists>i<length groups. sizes ! i < length (snd (groups ! i))"
  shows "b < length groups \<and> sizes ! b < length (snd (groups ! b)) \<and> v < 1"
proof -
  from assms(2) obtain i where i: "i < length groups" "sizes ! i < length (snd (groups ! i))" by blast
  from fill_ratio_below_one [OF i(2)]
  have "\<not> 1 \<le> (0.5 + real (sizes ! i)) / (1 * real (length (snd (groups ! i))))" by simp
  with i(1) i(2) bestGroup_spec [OF assms(1)] show ?thesis by auto
qed

lemma mixLoop_spec:
  "length sizes = length groups \<Longrightarrow> \<forall>i<length groups. sizes ! i \<le> length (snd (groups ! i)) \<Longrightarrow>
   n + sum_list sizes = sum_list (bucketSizes groups) \<Longrightarrow>
   \<exists>mixed'. mixLoop n groups sizes mixed = Inr (mixed @ mixed', bucketSizes groups)
      \<and> mset (taken groups sizes) + mset mixed' = mset (bucketUnits groups)"
proof (induction n arbitrary: sizes mixed)
  case 0
  from sizes_full [OF "0.prems"(1,2)] "0.prems"(3) have "sizes = bucketSizes groups" by simp
  then show ?case by (simp add: taken_full)
next
  case (Suc n)
  have ex: "\<exists>i<length groups. sizes ! i < length (snd (groups ! i))"
  proof (rule ccontr)
    assume "\<not> (\<exists>i<length groups. sizes ! i < length (snd (groups ! i)))"
    with Suc.prems(2) have "\<forall>i<length groups. sizes ! i = length (snd (groups ! i))"
      by (auto simp: le_less)
    with Suc.prems(1) have "sizes = bucketSizes groups"
      by (auto simp: bucketSizes_def intro: nth_equalityI)
    with Suc.prems(3) show False by simp
  qed
  obtain b v where bg: "bestGroup groups sizes [0..<length groups] 0 1 = Inr (b, v)"
    using bestGroup_Inr [of groups sizes "[0..<length groups]" 0 1] by (metis surj_pair)
  from bestGroup_unexhausted [OF bg ex]
  have b: "b < length groups" "sizes ! b < length (snd (groups ! b))" by simp_all
  let ?sizes = "sizes[b := sizes ! b + 1]"
  let ?u = "snd (groups ! b) ! (sizes ! b)"
  have l: "length ?sizes = length groups" using Suc.prems(1) by simp
  have le: "\<forall>i<length groups. ?sizes ! i \<le> length (snd (groups ! i))"
    using Suc.prems(1,2) b by (auto simp: nth_list_update)
  have "sum_list ?sizes = sum_list sizes + (sizes ! b + 1) - sizes ! b"
    using b(1) Suc.prems(1) by (simp add: sum_list_update)
  then have su: "n + sum_list ?sizes = sum_list (bucketSizes groups)"
    using Suc.prems(3) by simp
  from Suc.IH [OF l le su, of "mixed @ [?u]"]
  obtain mixed' where r: "mixLoop n groups ?sizes (mixed @ [?u]) = Inr ((mixed @ [?u]) @ mixed', bucketSizes groups)"
    "mset (taken groups ?sizes) + mset mixed' = mset (bucketUnits groups)"
    by blast
  have run: "mixLoop (Suc n) groups sizes mixed = Inr (mixed @ (?u # mixed'), bucketSizes groups)"
    using bg b Suc.prems(1) r(1) by (simp add: Let_def)
  have "mset (taken groups sizes) + mset (?u # mixed') = mset (bucketUnits groups)"
    using r(2) taken_step [OF Suc.prems(1) b] by simp
  with run show ?case by blast
qed

lemma mixUnits_spec:
  assumes "length fcs = length (bucketUnits groups)"
  shows "\<exists>mixed. mixUnits groups fcs = Inr (mixed, bucketSizes groups)
           \<and> mset mixed = mset (bucketUnits groups) \<and> length mixed = length fcs"
proof -
  have "length fcs + sum_list (replicate (length groups) (0::nat)) = sum_list (bucketSizes groups)"
    using assms by (simp add: length_bucketUnits)
  from mixLoop_spec [OF _ _ this, of "[]"]
  obtain mixed where r: "mixLoop (length fcs) groups (replicate (length groups) 0) [] = Inr (mixed, bucketSizes groups)"
    "mset (taken groups (replicate (length groups) 0)) + mset mixed = mset (bucketUnits groups)"
    by auto
  from r(2) have m: "mset mixed = mset (bucketUnits groups)" by (simp add: taken_zero)
  then have "length mixed = length (bucketUnits groups)" by (metis size_mset)
  with r(1) m assms show ?thesis by (simp add: mixUnits_def)
qed

lemma formed_refl: "formed env st [] st"
  by (simp add: formed_def)

lemma formed_trans: "formed env st r1 st1 \<Longrightarrow> formed env st1 r2 st2 \<Longrightarrow> formed env st (r1 @ r2) st2"
  by (simp add: formed_def replay_append)

lemma formed_units_None: "formed env st rows st' \<Longrightarrow> (units st' k = None) = (units st k = None)"
  by (simp add: formed_def replay_None)

lemma giveRow_gave:
  "length mixed = length fcs \<Longrightarrow> \<forall>m\<in>set mixed. units st m \<noteq> None \<Longrightarrow>
   \<exists>st'. giveRow env fcs mixed st = Inr st'
      \<and> gave env st (map (\<lambda>(m, fc). (m, snd fc, False)) (zip mixed fcs)) st'"
proof (induction fcs arbitrary: mixed st)
  case Nil
  then show ?case by (simp add: gave_refl)
next
  case (Cons fc fcs)
  from Cons.prems(1) obtain m ms where ms: "mixed = m # ms" "length ms = length fcs"
    by (cases mixed) auto
  from Cons.prems(2) ms have n: "units st m \<noteq> None" by simp
  from GiveCommand_gave [OF n, of env "snd fc" False]
  obtain st1 where g: "GiveCommand env m (snd fc) False st = Inr st1"
    "gave env st [(m, snd fc, False)] st1" by blast
  from Cons.prems(2) ms g(2) have r: "\<forall>k\<in>set ms. units st1 k \<noteq> None"
    by (simp add: gave_units_None)
  from Cons.IH [OF ms(2) r]
  obtain st' where i: "giveRow env fcs ms st1 = Inr st'"
    "gave env st1 (map (\<lambda>(m, fc). (m, snd fc, False)) (zip ms fcs)) st'" by blast
  from gave_trans [OF g(2) i(2)] g(1) i(1) ms show ?case by simp
qed

lemma flushRow_formed:
  assumes l: "length fcs = length (bucketUnits groups)"
    and r: "\<forall>k\<in>set (bucketUnits groups). units st k \<noteq> None"
  shows "\<exists>st' mixed. flushRow env groups fcs st = Inr st'
           \<and> formed env st [(groups, fcs, mixed)] st' \<and> rowMixed (groups, fcs, mixed)"
proof -
  from mixUnits_spec [OF l]
  obtain mixed where m: "mixUnits groups fcs = Inr (mixed, bucketSizes groups)"
    "mset mixed = mset (bucketUnits groups)" "length mixed = length fcs" by blast
  from m(2) have "set mixed = set (bucketUnits groups)" by (rule mset_eq_setD)
  with r have rm: "\<forall>k\<in>set mixed. units st k \<noteq> None" by simp
  from giveRow_gave [OF m(3) rm]
  obtain st1 where g: "giveRow env fcs mixed st = Inr st1"
    "gave env st (map (\<lambda>(m, fc). (m, snd fc, False)) (zip mixed fcs)) st1" by blast
  have "flushRow env groups fcs st = Inr (st1\<lparr>rowLog := rowLog st1 @ [(groups, fcs, mixed)]\<rparr>)"
    using m(1) g(1) by (simp add: flushRow_def)
  moreover have "formed env st [(groups, fcs, mixed)] (st1\<lparr>rowLog := rowLog st1 @ [(groups, fcs, mixed)]\<rparr>)"
    using g(2) by (simp add: formed_def gave_def rowEvents_def)
  moreover have "rowMixed (groups, fcs, mixed)"
    using m by (simp add: rowMixed_def)
  ultimately show ?thesis by blast
qed

lemma mset_bucketUnits:
  "mset (bucketUnits groups) = (\<Sum>g\<in>#mset groups. mset (snd g))"
  by (induction groups) (auto simp: bucketUnits_def)

lemma swapIntoPosition_mset: "i < length groups \<Longrightarrow> mset (swapIntoPosition groups i) = mset groups"
proof (induction i arbitrary: groups)
  case 0
  then show ?case by simp
next
  case (Suc i)
  show ?case
  proof (cases "fst (groups ! i) < fst (groups ! Suc i)")
    case True
    then show ?thesis by simp
  next
    case False
    from Suc.prems have "i < length (groups[i := groups ! Suc i, Suc i := groups ! i])" by simp
    from Suc.IH [OF this] False Suc.prems show ?thesis
      by (simp add: mset_swap)
  qed
qed

lemma bucketUnits_update:
  "i < length groups \<Longrightarrow>
   mset (bucketUnits (groups[i := (a, snd (groups ! i) @ [u])])) = mset (bucketUnits groups) + {#u#}"
proof (induction groups arbitrary: i)
  case Nil
  then show ?case by simp
next
  case (Cons g groups)
  show ?case
  proof (cases i)
    case 0
    then show ?thesis by (simp add: bucketUnits_def)
  next
    case (Suc j)
    with Cons.prems have "j < length groups" by simp
    from Cons.IH [OF this] Suc show ?thesis by (simp add: bucketUnits_def)
  qed
qed

lemma addToUnitGroups_units:
  "mset (bucketUnits (addToUnitGroups groups su)) = mset (bucketUnits groups) + {#snd su#}"
proof -
  let ?i = "lower_bound_ugPair groups (fst su)"
  have le: "?i \<le> length groups"
    by (simp add: lower_bound_ugPair_def length_takeWhile_le)
  show ?thesis
  proof (cases "?i = length groups \<or> fst (groups ! ?i) \<noteq> fst su")
    case True
    have "mset (swapIntoPosition (groups @ [(fst su, [snd su])]) (length groups))
        = mset (groups @ [(fst su, [snd su])])"
      by (rule swapIntoPosition_mset) simp
    then have "mset (bucketUnits (swapIntoPosition (groups @ [(fst su, [snd su])]) (length groups)))
        = mset (bucketUnits (groups @ [(fst su, [snd su])]))"
      by (simp only: mset_bucketUnits)
    also have "\<dots> = mset (bucketUnits groups) + {#snd su#}"
      by (simp add: bucketUnits_def)
    finally show ?thesis using True by (simp add: addToUnitGroups_def Let_def)
  next
    case False
    with le have "?i < length groups" by auto
    from bucketUnits_update [OF this, of "fst (groups ! ?i)" "snd su"] False
    show ?thesis by (simp add: addToUnitGroups_def Let_def)
  qed
qed

subsection \<open>The rows of a formation\<close>

lemma formationLoop_rows:
  assumes y: "f3y fdir \<noteq> 0"
  shows "length fcs = length (bucketUnits groups) \<Longrightarrow>
         \<forall>k\<in>set (bucketUnits groups). units st k \<noteq> None \<Longrightarrow>
         \<forall>p\<in>set pairs. units st (snd p) \<noteq> None \<Longrightarrow>
         pairs = [] \<longrightarrow> groups = [] \<Longrightarrow>
         \<exists>st' rows. formationLoop env c fdir pairs np groups fcs st = Inr st'
            \<and> formed env st rows st' \<and> list_all rowMixed rows
            \<and> mset (concat (map (\<lambda>r. snd (snd r)) rows)) = mset (bucketUnits groups) + mset (map snd pairs)"
proof (induction pairs arbitrary: np groups fcs st)
  case Nil
  then have "groups = []" by simp
  then show ?case using formed_refl [of env st]
    by (intro exI [of _ st] exI [of _ "[]"]) (simp add: bucketUnits_def)
next
  case (Cons su rest)
  from Cons.prems(3) obtain u where u: "units st (snd su) = Some u" by auto
  from formationLoop_unfold [OF y, where st=st and su=su and fcs=fcs and env=env and c=c
      and rest=rest and np=np and groups=groups]
  obtain np' fcs' b where f0: "case units st (snd su) of None \<Rightarrow> fcs' = fcs | Some u \<Rightarrow> (\<exists>x. fcs' = fcs @ [x])"
    and f1: "b \<longrightarrow> rest \<noteq> []"
    and f2: "formationLoop env c fdir (su # rest) np groups fcs st =
               (if b then formationLoop env c fdir rest np' (addToUnitGroups groups su) fcs' st
                else (case flushRow env (addToUnitGroups groups su) fcs' st of
                        Inl e \<Rightarrow> Inl e
                      | Inr st' \<Rightarrow> formationLoop env c fdir rest np' [] [] st'))"
    by blast
  from f0 u obtain x where x: "fcs' = fcs @ [x]" by auto
  note f = f1 f2 [unfolded x]
  let ?g = "addToUnitGroups groups su"
  have ms: "mset (bucketUnits ?g) = mset (bucketUnits groups) + {#snd su#}"
    by (rule addToUnitGroups_units)
  then have "size (mset (bucketUnits ?g)) = size (mset (bucketUnits groups) + {#snd su#})" by simp
  with Cons.prems(1) have l: "length (fcs @ [x]) = length (bucketUnits ?g)" by simp
  from ms have "set_mset (mset (bucketUnits ?g)) = set_mset (mset (bucketUnits groups) + {#snd su#})"
    by simp
  then have "set (bucketUnits ?g) = set (bucketUnits groups) \<union> {snd su}" by simp
  with Cons.prems(2) u have r: "\<forall>k\<in>set (bucketUnits ?g). units st k \<noteq> None" by simp
  from Cons.prems(3) have rp: "\<forall>p\<in>set rest. units st (snd p) \<noteq> None" by simp
  show ?case
  proof (cases b)
    case True
    with f(1) have ne: "rest = [] \<longrightarrow> ?g = []" by simp
    from Cons.IH [OF l r rp ne, of np']
    obtain st' rows where i: "formationLoop env c fdir rest np' ?g (fcs @ [x]) st = Inr st'"
      "formed env st rows st'" "list_all rowMixed rows"
      "mset (concat (map (\<lambda>r. snd (snd r)) rows)) = mset (bucketUnits ?g) + mset (map snd rest)"
      by blast
    from i(1) f(2) True have "formationLoop env c fdir (su # rest) np groups fcs st = Inr st'" by simp
    moreover from i(4) ms
    have "mset (concat (map (\<lambda>r. snd (snd r)) rows)) = mset (bucketUnits groups) + mset (map snd (su # rest))"
      by simp
    ultimately show ?thesis using i(2,3) by blast
  next
    case False
    from flushRow_formed [OF l r, of env]
    obtain st1 mixed where fl: "flushRow env ?g (fcs @ [x]) st = Inr st1"
      "formed env st [(?g, fcs @ [x], mixed)] st1" "rowMixed (?g, fcs @ [x], mixed)" by blast
    from rp fl(2) have rp1: "\<forall>p\<in>set rest. units st1 (snd p) \<noteq> None"
      by (simp add: formed_units_None)
    have e: "length ([] :: (int \<times> Command) list) = length (bucketUnits [])"
      "\<forall>k\<in>set (bucketUnits []). units st1 k \<noteq> None" "rest = [] \<longrightarrow> ([] :: TGroupPair list) = []"
      by (simp_all add: bucketUnits_def)
    from Cons.IH [OF e(1,2) rp1 e(3), of np']
    obtain st' rows where i: "formationLoop env c fdir rest np' [] [] st1 = Inr st'"
      "formed env st1 rows st'" "list_all rowMixed rows"
      "mset (concat (map (\<lambda>r. snd (snd r)) rows)) = mset (bucketUnits []) + mset (map snd rest)"
      by blast
    from i(1) fl(1) f(2) False have run: "formationLoop env c fdir (su # rest) np groups fcs st = Inr st'"
      by simp
    from formed_trans [OF fl(2) i(2)] have fo: "formed env st ((?g, fcs @ [x], mixed) # rows) st'" by simp
    from fl(3) i(3) have rm: "list_all rowMixed ((?g, fcs @ [x], mixed) # rows)" by simp
    from fl(3) have "mset mixed = mset (bucketUnits ?g)" by (simp add: rowMixed_def)
    with i(4) ms
    have "mset (concat (map (\<lambda>r. snd (snd r)) ((?g, fcs @ [x], mixed) # rows)))
        = mset (bucketUnits groups) + mset (map snd (su # rest))"
      by (simp add: bucketUnits_def)
    with run fo rm show ?thesis by blast
  qed
qed

lemma CreateUnitOrder_loop_ids:
  "CreateUnitOrder_loop st ids out = Inr out' \<Longrightarrow>
     map snd out' = map snd out @ filter (\<lambda>uid. units st uid \<noteq> None) ids"
proof (induction ids arbitrary: out)
  case Nil
  then show ?case by simp
next
  case (Cons uid ids)
  show ?case
  proof (cases "units st uid")
    case None
    with Cons.prems have "CreateUnitOrder_loop st ids out = Inr out'" by simp
    from Cons.IH [OF this] None show ?thesis by simp
  next
    case (Some u)
    show ?thesis
    proof (cases "health (unitDef u) = 0")
      case True
      with Cons.prems Some show ?thesis by (simp add: Let_def fdiv_def)
    next
      case False
      with Cons.prems Some
      have "CreateUnitOrder_loop st ids
              (out @ [((metal (unitDef u) * 60 + energy (unitDef u)) / health (unitDef u)
                        * (if maxRange u < 1 then 2000 else maxRange u), uid)]) = Inr out'"
        by (simp add: Let_def fdiv_def)
      from Cons.IH [OF this] Some show ?thesis by simp
    qed
  qed
qed

lemma CreateUnitOrder_ids:
  assumes "CreateUnitOrder env st player = Inr pairs"
  shows "mset (map snd pairs) = mset (filter (\<lambda>uid. units st uid \<noteq> None) (netSelected env player))"
proof -
  obtain out where o: "CreateUnitOrder_loop st (netSelected env player) [] = Inr out"
    "pairs = sort_key fst out"
  proof (cases "CreateUnitOrder_loop st (netSelected env player) []")
    case (Inl e)
    with assms show ?thesis by (simp add: CreateUnitOrder_def)
  next
    case (Inr out)
    with assms that show ?thesis by (simp add: CreateUnitOrder_def stable_sort_idPair_def)
  qed
  have "mset (map snd pairs) = image_mset snd (mset pairs)" by simp
  also have "\<dots> = image_mset snd (mset out)" using o(2) by simp
  also have "\<dots> = mset (map snd out)" by simp
  finally show ?thesis using CreateUnitOrder_loop_ids [OF o(1)] by simp
qed

text \<open>
  C9. When the short-front fallback is not taken (and no unit has health 0), every row
  that MakeFormationFrontOrder flushes is mixed soundly: the mixed ids are a permutation of
  the units accumulated in the buckets of the row, one for each destination command of the
  row, and the fill counters end equal to the bucket sizes; the commands given are exactly
  the commands of the rows, slot by slot, to the mixed units; over all rows every unit of
  the selection that resolves is assigned once. In the mixing loop the fill ratio of a
  bucket that is not exhausted is below 1, so that the bucket chosen is never an exhausted
  one while one that is not exhausted remains.
\<close>

theorem formation_rows_mixed:
  assumes "\<not> distance (GetPos c 0) (GetPos c 3) < real (length (netSelected env player) + 33)"
  shows "(MakeFormationFrontOrder env c player st = Inl (DivByZero SelectionMinusOne)
       \<or> MakeFormationFrontOrder env c player st = Inl (DivByZero Health)
       \<or> (\<exists>st' rows. MakeFormationFrontOrder env c player st = Inr st'
            \<and> rowLog st' = rowLog st @ rows
            \<and> issued st' = issued st @ concat (map rowEvents rows)
            \<and> list_all rowMixed rows
            \<and> mset (concat (map (\<lambda>r. snd (snd r)) rows))
                = mset (filter (\<lambda>uid. units st uid \<noteq> None) (netSelected env player))))
       \<and> (\<forall>groups sizes b v.
             bestGroup groups sizes [0..<length groups] 0 1 = Inr (b, v)
             \<and> (\<exists>i<length groups. sizes ! i < length (snd (groups ! i)))
             \<longrightarrow> b < length groups \<and> sizes ! b < length (snd (groups ! b)) \<and> v < 1)"
proof (rule conjI)
  show "\<forall>groups sizes b v.
             bestGroup groups sizes [0..<length groups] 0 1 = Inr (b, v)
             \<and> (\<exists>i<length groups. sizes ! i < length (snd (groups ! i)))
             \<longrightarrow> b < length groups \<and> sizes ! b < length (snd (groups ! b)) \<and> v < 1"
  proof (intro allI impI)
    fix groups :: "TGroupPair list" and sizes b v
    assume a: "bestGroup groups sizes [0..<length groups] 0 1 = Inr (b, v)
             \<and> (\<exists>i<length groups. sizes ! i < length (snd (groups ! i)))"
    from a have a1: "bestGroup groups sizes [0..<length groups] 0 1 = Inr (b, v)" ..
    from a have a2: "\<exists>i<length groups. sizes ! i < length (snd (groups ! i))" ..
    show "b < length groups \<and> sizes ! b < length (snd (groups ! b)) \<and> v < 1"
      by (rule bestGroup_unexhausted [OF a1 a2])
  qed
next
  show "MakeFormationFrontOrder env c player st = Inl (DivByZero SelectionMinusOne)
       \<or> MakeFormationFrontOrder env c player st = Inl (DivByZero Health)
       \<or> (\<exists>st' rows. MakeFormationFrontOrder env c player st = Inr st'
            \<and> rowLog st' = rowLog st @ rows
            \<and> issued st' = issued st @ concat (map rowEvents rows)
            \<and> list_all rowMixed rows
            \<and> mset (concat (map (\<lambda>r. snd (snd r)) rows))
                = mset (filter (\<lambda>uid. units st uid \<noteq> None) (netSelected env player)))"
  proof -
    let ?fdir = "formationSideDir_of (GetPos c 0) (GetPos c 3) (distance (GetPos c 0) (GetPos c 3) * 2)"
    from long_front_dir(3) [OF assms] have y: "f3y ?fdir \<noteq> 0" by simp
    from MakeFormationFrontOrder_long_front [OF assms, of st]
    show ?thesis
    proof
      assume "MakeFormationFrontOrder env c player st = Inl (DivByZero SelectionMinusOne)
          \<and> size_minus_one (length (netSelected env player)) = 0"
      then show ?thesis by simp
    next
      assume "\<exists>st2. units st2 = units st \<and> issued st2 = issued st \<and> rowLog st2 = rowLog st
               \<and> (case CreateUnitOrder env st2 player of
                     Inl e \<Rightarrow> MakeFormationFrontOrder env c player st = Inl e
                   | Inr pairs \<Rightarrow>
                       MakeFormationFrontOrder env c player st
                         = formationLoop env c ?fdir pairs ZeroVector [] [] st2)"
      then obtain st2 where s: "units st2 = units st" "issued st2 = issued st" "rowLog st2 = rowLog st"
        "case CreateUnitOrder env st2 player of
                     Inl e \<Rightarrow> MakeFormationFrontOrder env c player st = Inl e
                   | Inr pairs \<Rightarrow>
                       MakeFormationFrontOrder env c player st
                         = formationLoop env c ?fdir pairs ZeroVector [] [] st2"
        by blast
      show ?thesis
      proof (cases "CreateUnitOrder env st2 player")
        case (Inl e)
        with CreateUnitOrder_fault [OF Inl] s(4) show ?thesis by simp
      next
        case (Inr pairs)
        from CreateUnitOrder_ids [OF Inr] s(1)
        have ids: "mset (map snd pairs) = mset (filter (\<lambda>uid. units st uid \<noteq> None) (netSelected env player))"
          by simp
        then have "set (map snd pairs) = set (filter (\<lambda>uid. units st uid \<noteq> None) (netSelected env player))"
          by (rule mset_eq_setD)
        then have rp: "\<forall>p\<in>set pairs. units st2 (snd p) \<noteq> None"
          unfolding s(1) by auto
        have e: "length ([] :: (int \<times> Command) list) = length (bucketUnits [])"
          "\<forall>k\<in>set (bucketUnits []). units st2 k \<noteq> None" "pairs = [] \<longrightarrow> ([] :: TGroupPair list) = []"
          by (simp_all add: bucketUnits_def)
        from formationLoop_rows [OF y e(1,2) rp e(3), of env c ZeroVector]
        obtain st' rows where r: "formationLoop env c ?fdir pairs ZeroVector [] [] st2 = Inr st'"
          "formed env st2 rows st'" "list_all rowMixed rows"
          "mset (concat (map (\<lambda>r. snd (snd r)) rows)) = mset (bucketUnits []) + mset (map snd pairs)"
          by blast
        from r(1) Inr s(4) have run: "MakeFormationFrontOrder env c player st = Inr st'" by simp
        from r(2) s(2,3) have lg: "rowLog st' = rowLog st @ rows"
          "issued st' = issued st @ concat (map rowEvents rows)"
          by (simp_all add: formed_def)
        from r(4) ids have "mset (concat (map (\<lambda>r. snd (snd r)) rows))
                  = mset (filter (\<lambda>uid. units st uid \<noteq> None) (netSelected env player))"
          by (simp add: bucketUnits_def)
        with run lg r(3) show ?thesis by blast
      qed
    qed
  qed
qed

lemma example_front_distance: "distance (Float3 0 0 0) (Float3 100 0 0) = 100"
proof -
  have s: "sqrt 10000 = 100"
    using real_sqrt_abs [of 100] by simp
  show ?thesis by (simp add: distance_def s)
qed

lemma example_front_rows:
  "map_sum id (\<lambda>s. map (\<lambda>r. (fst r, snd (snd r))) (rowLog s))
     (MakeFormationFrontOrder (example_env [1, 2, 3] example_found) example_front 0 (example_state example_units))
   = Inr [([(4200, [1, 3]), (28000, [2])], [1, 2, 3])]"
  by (simp add: MakeFormationFrontOrder_def Let_def example_front_distance GetPos_def GetParam_def
      example_env_def example_state_def size_minus_one_def fdiv_def
      CreateUnitOrder_def stable_sort_idPair_def example_units_def example_unit_def
      formationSideDir_of_def f3_add_def f3_sub_def f3_mul_def f3_scale_def XZVector_def UpVector_def
      ZeroVector_def MoveToPos_def addToUnitGroups_def lower_bound_ugPair_def flushRow_def mixUnits_def
      GiveCommand_def CommandPos_def example_front_def signed_divide_int_def)

theorem formation_rows_mixed_witness:
  "\<not> distance (GetPos example_front 0) (GetPos example_front 3)
       < real (length (netSelected (example_env [1, 2, 3] example_found) 0) + 33)
   \<and> (\<exists>st' rows. MakeFormationFrontOrder (example_env [1, 2, 3] example_found) example_front 0
                    (example_state example_units) = Inr st'
         \<and> rowLog st' = rows
         \<and> map (\<lambda>r. (fst r, snd (snd r))) rows = [([(4200, [1, 3]), (28000, [2])], [1, 2, 3])]
         \<and> list_all rowMixed rows
         \<and> issued st' = concat (map rowEvents rows)
         \<and> mset (concat (map (\<lambda>r. snd (snd r)) rows)) = mset [1, 2, 3])"
proof -
  let ?E = "example_env [1, 2, 3] example_found"
  let ?S = "example_state example_units"
  have d: "distance (GetPos example_front 0) (GetPos example_front 3) = 100"
    by (simp add: GetPos_def GetParam_def example_front_def example_front_distance)
  have h: "\<not> distance (GetPos example_front 0) (GetPos example_front 3)
       < real (length (netSelected ?E 0) + 33)"
    unfolding d by (simp add: example_env_def)
  have f: "filter (\<lambda>uid. units ?S uid \<noteq> None) (netSelected ?E 0) = [1, 2, 3]"
    by (simp add: example_env_def example_state_def example_units_def)
  have i: "rowLog ?S = []" "issued ?S = []" by (simp_all add: example_state_def)
  from example_front_rows
  have n1: "MakeFormationFrontOrder ?E example_front 0 ?S \<noteq> Inl (DivByZero SelectionMinusOne)"
    and n2: "MakeFormationFrontOrder ?E example_front 0 ?S \<noteq> Inl (DivByZero Health)"
    by auto
  from formation_rows_mixed [OF h, of ?S] n1 n2
  obtain st' rows where r: "MakeFormationFrontOrder ?E example_front 0 ?S = Inr st'"
    "rowLog st' = rowLog ?S @ rows" "issued st' = issued ?S @ concat (map rowEvents rows)"
    "list_all rowMixed rows"
    "mset (concat (map (\<lambda>r. snd (snd r)) rows)) = mset (filter (\<lambda>uid. units ?S uid \<noteq> None) (netSelected ?E 0))"
    by blast
  from r(2) i have l: "rowLog st' = rows" by simp
  from example_front_rows r(1) l
  have m: "map (\<lambda>r. (fst r, snd (snd r))) rows = [([(4200, [1, 3]), (28000, [2])], [1, 2, 3])]"
    by simp
  from r(3) i have e: "issued st' = concat (map rowEvents rows)" by simp
  from r(5) have p: "mset (concat (map (\<lambda>r. snd (snd r)) rows)) = mset [1, 2, 3]"
    unfolding f .
  from r(1) l m r(4) e p
  have "\<exists>st' rows. MakeFormationFrontOrder ?E example_front 0 ?S = Inr st'
         \<and> rowLog st' = rows
         \<and> map (\<lambda>r. (fst r, snd (snd r))) rows = [([(4200, [1, 3]), (28000, [2])], [1, 2, 3])]
         \<and> list_all rowMixed rows
         \<and> issued st' = concat (map rowEvents rows)
         \<and> mset (concat (map (\<lambda>r. snd (snd r)) rows)) = mset [1, 2, 3]"
    by (intro exI [of _ st'] exI [of _ rows] conjI)
  with h show ?thesis ..
qed

end
